theory Spec2Isabelle
  imports Complex_Main "HOL-Library.AList"
begin

section \<open>The result collector of audit.js\<close>

text \<open>
  The script keeps four globals: \<open>SPREADSHEET_URL\<close>, \<open>SPREADSHEET_ID\<close>,
  \<open>ALL_RESULTS\<close> (an object from sheet name to an array of rows) and
  \<open>CRITICAL_ISSUES\<close> (an array of rows). A row is the five-element array
  \<open>[category, item, status, details, recommendation]\<close>. A JavaScript object with
  string keys is an association list in insertion order: \<open>map_of\<close> reads a key,
  \<open>AList.update\<close> overwrites it in place or appends it.
\<close>

record row =
  category :: string
  item :: string
  status :: string
  details :: string
  recommendation :: string

type_synonym results = "(string \<times> row list) list"

record globals =
  SPREADSHEET_URL :: "string option"
  SPREADSHEET_ID :: "string option"
  ALL_RESULTS :: results
  CRITICAL_ISSUES :: "row list"

definition fresh_globals :: globals where
  "fresh_globals =
     \<lparr>SPREADSHEET_URL = None, SPREADSHEET_ID = None, ALL_RESULTS = [], CRITICAL_ISSUES = []\<rparr>"

subsection \<open>Sheet names and routing\<close>

definition SHEET_NAMES_OVERVIEW :: string where
  "SHEET_NAMES_OVERVIEW = ''Overview''"

definition SHEET_NAMES_PERFORMANCE :: string where
  "SHEET_NAMES_PERFORMANCE = ''Performance Summary''"

definition SHEET_NAMES_STRUCTURE_SETTINGS :: string where
  "SHEET_NAMES_STRUCTURE_SETTINGS = ''Structure & Settings''"

definition SHEET_NAMES_KEYWORDS_ADGROUPS :: string where
  "SHEET_NAMES_KEYWORDS_ADGROUPS = ''Keywords & AdGroups''"

definition SHEET_NAMES_ADS_EXTENSIONS :: string where
  "SHEET_NAMES_ADS_EXTENSIONS = ''Ads & Extensions''"

definition SHEET_NAMES_MANUAL_CHECKS :: string where
  "SHEET_NAMES_MANUAL_CHECKS = ''Opportunities & Manual Checks''"

text \<open>\<open>Object.values(SHEET_NAMES)\<close>, in declaration order.\<close>

definition SHEET_NAMES_values :: "string list" where
  "SHEET_NAMES_values =
     [SHEET_NAMES_OVERVIEW, SHEET_NAMES_PERFORMANCE, SHEET_NAMES_STRUCTURE_SETTINGS,
      SHEET_NAMES_KEYWORDS_ADGROUPS, SHEET_NAMES_ADS_EXTENSIONS, SHEET_NAMES_MANUAL_CHECKS]"

text \<open>The five sheets that hold findings (every sheet but the Overview).\<close>

definition detail_sheets :: "string list" where
  "detail_sheets =
     [SHEET_NAMES_PERFORMANCE, SHEET_NAMES_STRUCTURE_SETTINGS,
      SHEET_NAMES_KEYWORDS_ADGROUPS, SHEET_NAMES_ADS_EXTENSIONS, SHEET_NAMES_MANUAL_CHECKS]"

text \<open>The \<open>switch\<close> of \<open>getSheetNameForCategory\<close>, case by case, with its default.\<close>

definition getSheetNameForCategory :: "string \<Rightarrow> string" where
  "getSheetNameForCategory cat =
     (if cat = ''Account Settings'' \<or> cat = ''Account Structure''
        then SHEET_NAMES_STRUCTURE_SETTINGS
      else if cat = ''Keywords'' \<or> cat = ''Ad Groups'' \<or> cat = ''Quality Score''
        then SHEET_NAMES_KEYWORDS_ADGROUPS
      else if cat = ''Ad Copy'' \<or> cat = ''Ad Extensions (Assets)''
        then SHEET_NAMES_ADS_EXTENSIONS
      else if cat = ''Performance Metrics'' \<or> cat = ''Bidding Strategies''
              \<or> cat = ''Campaign Optimization''
        then SHEET_NAMES_PERFORMANCE
      else if cat = ''Conversion Tracking'' \<or> cat = ''Landing Pages''
              \<or> cat = ''Audience Targeting'' \<or> cat = ''Automation & Tools''
              \<or> cat = ''Competitive Analysis'' \<or> cat = ''Reporting & Insights''
        then SHEET_NAMES_MANUAL_CHECKS
      else SHEET_NAMES_MANUAL_CHECKS)"

text \<open>The categories that the \<open>switch\<close> names in a \<open>case\<close> label.\<close>

definition mapped_categories :: "string list" where
  "mapped_categories =
     [''Account Settings'', ''Account Structure'', ''Keywords'', ''Ad Groups'',
      ''Quality Score'', ''Ad Copy'', ''Ad Extensions (Assets)'', ''Performance Metrics'',
      ''Bidding Strategies'', ''Campaign Optimization'', ''Conversion Tracking'',
      ''Landing Pages'', ''Audience Targeting'', ''Automation & Tools'',
      ''Competitive Analysis'', ''Reporting & Insights'']"

subsection \<open>addResult\<close>

text \<open>
  \<open>ALL_RESULTS[sheetName].push(rowData)\<close> throws a TypeError when the key is absent;
  the model keeps that branch, so that "recording never fails" is a statement about the
  guard in front of it and not an effect of the modelling. The call to \<open>Logger.log\<close>
  at the end writes to the script log only and is left out.
\<close>

definition push_row :: "results \<Rightarrow> string \<Rightarrow> row \<Rightarrow> string + results" where
  "push_row res sheetName rowData =
     (case map_of res sheetName of
        None \<Rightarrow> Inl ''TypeError: Cannot read property push of undefined''
      | Some bucket \<Rightarrow> Inr (AList.update sheetName (bucket @ [rowData]) res))"

definition addResult ::
  "string \<Rightarrow> string \<Rightarrow> string \<Rightarrow> string \<Rightarrow> string \<Rightarrow> globals \<Rightarrow> string + globals" where
  "addResult cat itm st det rcm g =
     (let rowData = \<lparr>category = cat, item = itm, status = st, details = det,
                     recommendation = rcm\<rparr>;
          sheetName = getSheetNameForCategory cat;
          res0 = (if map_of (ALL_RESULTS g) sheetName = None
                  then AList.update sheetName [] (ALL_RESULTS g)
                  else ALL_RESULTS g)
      in case push_row res0 sheetName rowData of
           Inl e \<Rightarrow> Inl e
         | Inr res1 \<Rightarrow>
             Inr (g\<lparr>ALL_RESULTS := res1,
                    CRITICAL_ISSUES := (if st = ''Fail'' then CRITICAL_ISSUES g @ [rowData]
                                        else CRITICAL_ISSUES g)\<rparr>))"

text \<open>
  A check module reaches the collector through \<open>addResult\<close> only, so what a module
  does to the globals is the list of its calls, in order; a call is the row it passes.
\<close>

fun record_all :: "row list \<Rightarrow> globals \<Rightarrow> string + globals" where
  "record_all [] g = Inr g"
| "record_all (r # rs) g =
     (case addResult (category r) (item r) (status r) (details r) (recommendation r) g of
        Inl e \<Rightarrow> Inl e
      | Inr g' \<Rightarrow> record_all rs g')"

text \<open>The bucket a sheet name has, the empty list when the key is absent.\<close>

definition bucket :: "results \<Rightarrow> string \<Rightarrow> row list" where
  "bucket res sheetName = (case map_of res sheetName of None \<Rightarrow> [] | Some rows \<Rightarrow> rows)"

definition is_fail :: "row \<Rightarrow> bool" where
  "is_fail r = (status r = ''Fail'')"

definition routed_to :: "string \<Rightarrow> row \<Rightarrow> bool" where
  "routed_to sheetName r = (getSheetNameForCategory (category r) = sheetName)"

section \<open>Text helpers\<close>

text \<open>
  String concatenation with a number prints the number in decimal; the counters of the
  script are non-negative whole numbers. \<open>quoted s\<close> is \<open>s\<close> between two apostrophes.
\<close>

definition digit_char :: "nat \<Rightarrow> char" where
  "digit_char d = char_of (48 + d)"

fun show_nat :: "nat \<Rightarrow> string" where
  "show_nat n =
     (if n < 10 then [digit_char n] else show_nat (n div 10) @ [digit_char (n mod 10)])"

declare show_nat.simps [simp del]

definition quoted :: "string \<Rightarrow> string" where
  "quoted s = [CHR 0x27] @ s @ [CHR 0x27]"

section \<open>The Overview summary\<close>

text \<open>
  A sheet cell holds a text or a number. \<open>populateOverviewSheet\<close> walks the fixed
  list \<open>sheetOrder\<close>, counts the rows whose third element is \<open>"Fail"\<close> or
  \<open>"Warn"\<close> in each bucket that exists, adds them to \<open>failCount\<close> and
  \<open>warnCount\<close>, and stores an \<open>issueCounts\<close> entry for a sheet only when one
  of its two counts is positive. It then appends the summary rows, one row per entry of
  \<open>issueCounts\<close> in the order of \<open>sheetOrder\<close>, and the critical issues.
\<close>

datatype cell = Text string | Number nat

record issue_count =
  fails :: nat
  warns :: nat

record overview_counts =
  failCount :: nat
  warnCount :: nat
  issueCounts :: "(string \<times> issue_count) list"

definition sheetOrder :: "string list" where
  "sheetOrder =
     [SHEET_NAMES_PERFORMANCE, SHEET_NAMES_STRUCTURE_SETTINGS, SHEET_NAMES_KEYWORDS_ADGROUPS,
      SHEET_NAMES_ADS_EXTENSIONS, SHEET_NAMES_MANUAL_CHECKS]"

text \<open>The inner \<open>forEach\<close> over the rows of one bucket.\<close>

fun count_rows :: "row list \<Rightarrow> issue_count \<Rightarrow> issue_count" where
  "count_rows [] c = c"
| "count_rows (r # rs) c =
     count_rows rs
       (c\<lparr>fails := (if status r = ''Fail'' then fails c + 1 else fails c),
          warns := (if status r = ''Warn'' then warns c + 1 else warns c)\<rparr>)"

text \<open>The body of the outer \<open>forEach\<close> over \<open>sheetOrder\<close>.\<close>

definition count_sheet :: "results \<Rightarrow> string \<Rightarrow> overview_counts \<Rightarrow> overview_counts" where
  "count_sheet res sheetName acc =
     (case map_of res sheetName of
        None \<Rightarrow> acc
      | Some rows \<Rightarrow>
          (let c = count_rows rows \<lparr>fails = 0, warns = 0\<rparr>;
               acc1 = acc\<lparr>failCount := failCount acc + fails c,
                          warnCount := warnCount acc + warns c\<rparr>
           in if fails c > 0 \<or> warns c > 0
              then acc1\<lparr>issueCounts := AList.update sheetName c (issueCounts acc1)\<rparr>
              else acc1))"

definition overview_summary :: "results \<Rightarrow> overview_counts" where
  "overview_summary res =
     fold (count_sheet res) sheetOrder \<lparr>failCount = 0, warnCount = 0, issueCounts = []\<rparr>"

text \<open>The second \<open>forEach\<close> over \<open>sheetOrder\<close>: one row per stored entry.\<close>

definition issue_row :: "(string \<times> issue_count) list \<Rightarrow> string \<Rightarrow> cell list list" where
  "issue_row counts sheetName =
     (case map_of counts sheetName of
        None \<Rightarrow> []
      | Some c \<Rightarrow>
          [[Text sheetName,
            Text (''Fails: '' @ show_nat (fails c) @ '', Warns: '' @ show_nat (warns c)),
            Text (''See '' @ quoted sheetName @ '' sheet for details.'')]])"

definition issue_rows :: "(string \<times> issue_count) list \<Rightarrow> cell list list" where
  "issue_rows counts = concat (map (issue_row counts) sheetOrder)"

definition critical_rows :: "row list \<Rightarrow> cell list list" where
  "critical_rows issues =
     (if length issues > 0
      then map (\<lambda>issue. [Text (category issue @ '' - '' @ item issue), Text (details issue),
                          Text (recommendation issue)]) issues
      else [[Text (''No critical '' @ quoted ''Fail'' @ '' issues found.''), Text [], Text []]])"

text \<open>The rows \<open>populateOverviewSheet\<close> passes to \<open>appendRow\<close>, in order.\<close>

definition overview_rows :: "globals \<Rightarrow> cell list list" where
  "overview_rows g =
     (let s = overview_summary (ALL_RESULTS g) in
      [[Text ''--- AUDIT SUMMARY ---'', Text [], Text []],
       [Text ''Total Critical Issues (Fail)'', Number (failCount s),
        Text (''Review items marked '' @ quoted ''Fail'' @ '' below and in respective sheets.'')],
       [Text ''Total Warnings (Warn)'', Number (warnCount s),
        Text (''Review items marked '' @ quoted ''Warn'' @ '' in respective sheets.'')],
       [Text ''Issue Counts by Area:'', Text [], Text []]]
      @ issue_rows (issueCounts s)
      @ [[Text [], Text [], Text []],
         [Text ''--- CRITICAL ISSUES (FAIL) ---'', Text [], Text []]]
      @ critical_rows (CRITICAL_ISSUES g))"

text \<open>Counting by status, and whether a sheet has an issue to show.\<close>

definition count_status :: "string \<Rightarrow> row list \<Rightarrow> nat" where
  "count_status s rows = length (filter (\<lambda>r. status r = s) rows)"

definition has_issues :: "results \<Rightarrow> string \<Rightarrow> bool" where
  "has_issues res sheetName =
     (count_status ''Fail'' (bucket res sheetName) > 0
      \<or> count_status ''Warn'' (bucket res sheetName) > 0)"

definition all_rows :: "results \<Rightarrow> row list" where
  "all_rows res = concat (map snd res)"

section \<open>The report sink: sheets of the spreadsheet\<close>

text \<open>
  The spreadsheet is the script's external sink; the model keeps the content of its sheets
  and follows the documented behaviour of the Apps Script calls the script makes. A sheet
  is its rows from the top, a row its cells from the left; a cell that is not listed is
  empty, and an empty cell reads as the empty text. Formatting calls (\<open>clearFormat\<close>,
  \<open>setFontWeight\<close>, \<open>merge\<close>, \<open>autoResizeColumn\<close> and the like) do not change
  content and are left out. Rows and columns are counted from 0 here, from 1 in the script.
\<close>

type_synonym sheet = "cell list list"

type_synonym spreadsheet = "(string \<times> sheet) list"

definition empty_cell :: "cell \<Rightarrow> bool" where
  "empty_cell c = (c = Text [])"

definition blank_row :: "cell list \<Rightarrow> bool" where
  "blank_row r = list_all empty_cell r"

definition cell_at :: "sheet \<Rightarrow> nat \<Rightarrow> nat \<Rightarrow> cell" where
  "cell_at sh i j =
     (if i < length sh then (if j < length (sh ! i) then sh ! i ! j else Text [])
      else Text [])"

text \<open>\<open>getLastRow()\<close>: the position of the last row that has content, 0 when none has.\<close>

definition getLastRow :: "sheet \<Rightarrow> nat" where
  "getLastRow sh = length (dropWhile blank_row (rev sh))"

text \<open>
  \<open>if (sheet.getLastRow() > 1) sheet.getRange(2, 1, sheet.getLastRow() - 1,
  sheet.getMaxColumns()).clearContent()\<close>: rows 2 to the last row with content lose the
  content of all their columns.
\<close>

definition clear_below_header :: "sheet \<Rightarrow> sheet" where
  "clear_below_header sh =
     (if getLastRow sh > 1
      then take 1 sh @ replicate (getLastRow sh - 1) [] @ drop (getLastRow sh) sh
      else sh)"

text \<open>\<open>clearContents()\<close> empties the whole sheet.\<close>

definition clearContents :: "sheet \<Rightarrow> sheet" where
  "clearContents sh = []"

text \<open>\<open>appendRow(r)\<close> writes \<open>r\<close> into the row after the last row with content.\<close>

definition appendRow :: "cell list \<Rightarrow> sheet \<Rightarrow> sheet" where
  "appendRow r sh = take (getLastRow sh) sh @ [r]"

text \<open>
  \<open>getRange(2, 1, results.length, results[0].length).setValues(results)\<close>: the values
  replace the leading cells of the rows from row 2 on; cells further right and rows
  further down keep what they had.
\<close>

fun overwrite_rows :: "cell list list \<Rightarrow> sheet \<Rightarrow> sheet" where
  "overwrite_rows [] old = old"
| "overwrite_rows (v # vs) [] = v # overwrite_rows vs []"
| "overwrite_rows (v # vs) (r # rs) = (v @ drop (length v) r) # overwrite_rows vs rs"

definition setValues_from_row2 :: "cell list list \<Rightarrow> sheet \<Rightarrow> sheet" where
  "setValues_from_row2 vals sh =
     (case sh of
        [] \<Rightarrow> [] # overwrite_rows vals []
      | header # rest \<Rightarrow> header # overwrite_rows vals rest)"

definition row_cells :: "row \<Rightarrow> cell list" where
  "row_cells r =
     [Text (category r), Text (item r), Text (status r), Text (details r),
      Text (recommendation r)]"

definition overview_headers :: "cell list" where
  "overview_headers = [Text ''Category / Item'', Text ''Status / Details'', Text ''Recommendation'']"

definition detail_headers :: "cell list" where
  "detail_headers =
     [Text ''Category'', Text ''ChecklistItem'', Text ''Status'', Text ''Details/Metrics'',
      Text ''Recommendation'']"

section \<open>Calls into the outside world\<close>

text \<open>
  A call into the Ads or Apps Script services either throws or returns a value; the
  exception is kept as the text it prints as. \<open>null\<close> is \<open>None\<close> in the value.
\<close>

datatype 'a outcome = Throws string | Returns 'a

subsection \<open>initializeSpreadsheet\<close>

text \<open>
  What the Drive and Spreadsheet services answer: whether the two services exist at all,
  the file found under the name of the day (an exception, none, or the file), the file
  \<open>SpreadsheetApp.create\<close> makes when none is found, and the sheets on which a sheet
  operation of the provisioning loop throws.
\<close>

record spreadsheet_file =
  getId :: string
  getUrl :: string
  getSheets :: spreadsheet

record sink =
  services_available :: bool
  existing_file :: "spreadsheet_file option outcome"
  created_file :: "spreadsheet_file outcome"
  broken_sheets :: "string list"

text \<open>
  \<open>try { spreadsheet.getSheetByName('Sheet1').setName(SHEET_NAMES.OVERVIEW); } catch(e) {}\<close>:
  nothing happens when there is no Sheet1 or the new name is taken.
\<close>

definition rename_Sheet1 :: "spreadsheet \<Rightarrow> spreadsheet" where
  "rename_Sheet1 ss =
     (if map_of ss ''Sheet1'' \<noteq> None \<and> map_of ss SHEET_NAMES_OVERVIEW = None
      then map (\<lambda>(n, sh). (if n = ''Sheet1'' then SHEET_NAMES_OVERVIEW else n, sh)) ss
      else ss)"

text \<open>The body of \<open>requiredSheets.forEach\<close>, on the content of the sheets.\<close>

definition provision_sheet :: "string list \<Rightarrow> string \<Rightarrow> spreadsheet \<Rightarrow> spreadsheet" where
  "provision_sheet existingSheets sheetName ss =
     (let sheet0 = (if sheetName \<notin> set existingSheets then []
                    else (case map_of ss sheetName of None \<Rightarrow> [] | Some sh \<Rightarrow> sh));
          sheet1 = clear_below_header sheet0;
          sheet2 = (if getLastRow sheet1 = 0
                       \<or> (getLastRow sheet1 = 1 \<and> cell_at sheet1 0 0 = Text [])
                    then appendRow
                           (if sheetName = SHEET_NAMES_OVERVIEW then overview_headers
                            else detail_headers)
                           (if getLastRow sheet1 = 1 then clearContents sheet1 else sheet1)
                    else sheet1)
      in AList.update sheetName sheet2 ss)"

text \<open>
  The loop; it stops at the first sheet on which an operation throws, and everything done
  before stays done. It returns the exception if any, the sheets and \<open>ALL_RESULTS\<close>.
\<close>

fun provision_sheets ::
  "string list \<Rightarrow> string list \<Rightarrow> string list \<Rightarrow> spreadsheet \<Rightarrow> results \<Rightarrow>
     string option \<times> spreadsheet \<times> results" where
  "provision_sheets broken existingSheets [] ss res = (None, ss, res)"
| "provision_sheets broken existingSheets (sheetName # rest) ss res =
     (if sheetName \<in> set broken
      then (Some (''Exception: cannot change sheet '' @ sheetName), ss, res)
      else provision_sheets broken existingSheets rest
             (provision_sheet existingSheets sheetName ss)
             (AList.update sheetName [] res))"

text \<open>The \<open>catch\<close> block: both globals back to \<open>null\<close>.\<close>

definition init_failed :: "globals \<Rightarrow> globals" where
  "init_failed g = g\<lparr>SPREADSHEET_URL := None, SPREADSHEET_ID := None\<rparr>"

definition open_or_create :: "sink \<Rightarrow> spreadsheet_file outcome" where
  "open_or_create sk =
     (if \<not> services_available sk
      then Throws ''Error: Required Google Apps Script services not available.''
      else case existing_file sk of
             Throws e \<Rightarrow> Throws e
           | Returns (Some f) \<Rightarrow> Returns f
           | Returns None \<Rightarrow>
               (case created_file sk of
                  Throws e \<Rightarrow> Throws e
                | Returns f \<Rightarrow> Returns (f\<lparr>getSheets := rename_Sheet1 (getSheets f)\<rparr>)))"

definition initializeSpreadsheet :: "sink \<Rightarrow> globals \<Rightarrow> globals \<times> spreadsheet" where
  "initializeSpreadsheet sk g =
     (case open_or_create sk of
        Throws e \<Rightarrow> (init_failed g, [])
      | Returns f \<Rightarrow>
          (case provision_sheets (broken_sheets sk) (map fst (getSheets f)) SHEET_NAMES_values
                  (getSheets f) (ALL_RESULTS g) of
             (Some e, ss, res) \<Rightarrow> (init_failed (g\<lparr>ALL_RESULTS := res\<rparr>), ss)
           | (None, ss, res) \<Rightarrow>
               (g\<lparr>SPREADSHEET_URL := Some (getUrl f), SPREADSHEET_ID := Some (getId f),
                   ALL_RESULTS := res\<rparr>, ss)))"

text \<open>\<open>!SPREADSHEET_ID\<close> holds of \<open>null\<close> and of the empty string.\<close>

definition no_spreadsheet :: "globals \<Rightarrow> bool" where
  "no_spreadsheet g = (SPREADSHEET_ID g = None \<or> SPREADSHEET_ID g = Some [])"

subsection \<open>populateOverviewSheet and writeResultsToSpreadsheet\<close>

text \<open>
  Both return at once without a spreadsheet id and run inside a \<open>try\<close> otherwise. A
  missing sheet makes \<open>populateOverviewSheet\<close> throw into its own \<open>catch\<close> before it
  has written anything; \<open>writeResultsToSpreadsheet\<close> skips a bucket whose sheet is
  missing, and the bucket of the Overview.
\<close>

definition populateOverviewSheet :: "globals \<Rightarrow> spreadsheet \<Rightarrow> spreadsheet" where
  "populateOverviewSheet g ss =
     (if no_spreadsheet g then ss
      else case map_of ss SHEET_NAMES_OVERVIEW of
             None \<Rightarrow> ss
           | Some overviewSheet \<Rightarrow>
               AList.update SHEET_NAMES_OVERVIEW
                 (fold appendRow (overview_rows g) (clear_below_header overviewSheet)) ss)"

definition write_bucket :: "string \<times> row list \<Rightarrow> spreadsheet \<Rightarrow> spreadsheet" where
  "write_bucket entry ss =
     (let sheetName = fst entry; results = snd entry in
      if sheetName = SHEET_NAMES_OVERVIEW then ss
      else case map_of ss sheetName of
             None \<Rightarrow> ss
           | Some sheet \<Rightarrow>
               (if length results = 0
                then AList.update sheetName (clear_below_header sheet) ss
                else AList.update sheetName
                       (setValues_from_row2 (map row_cells results) (clear_below_header sheet))
                       ss))"

definition writeResultsToSpreadsheet :: "globals \<Rightarrow> spreadsheet \<Rightarrow> spreadsheet" where
  "writeResultsToSpreadsheet g ss =
     (if no_spreadsheet g then ss else fold write_bucket (ALL_RESULTS g) ss)"

text \<open>A sink for examples: no file of the day exists yet, and a new one is created.\<close>

definition example_file :: spreadsheet_file where
  "example_file =
     \<lparr>getId = ''sheet-1'', getUrl = ''https://docs.example/sheet-1'',
      getSheets = [(''Sheet1'', [])]\<rparr>"

definition example_sink :: sink where
  "example_sink =
     \<lparr>services_available = True, existing_file = Returns None,
      created_file = Returns example_file, broken_sheets = []\<rparr>"

definition example_row :: "string \<Rightarrow> string \<Rightarrow> row" where
  "example_row cat st =
     \<lparr>category = cat, item = ''Check'', status = st, details = ''d'', recommendation = ''r''\<rparr>"

definition example_globals :: globals where
  "example_globals =
     \<lparr>SPREADSHEET_URL = None, SPREADSHEET_ID = None,
      ALL_RESULTS =
        [(SHEET_NAMES_MANUAL_CHECKS, [example_row ''Landing Pages'' ''Warn'']),
         (SHEET_NAMES_KEYWORDS_ADGROUPS, [example_row ''Keywords'' ''Pass'']),
         (SHEET_NAMES_PERFORMANCE, [example_row ''Bidding Strategies'' ''Fail''])],
      CRITICAL_ISSUES = [example_row ''Bidding Strategies'' ''Fail'']\<rparr>"

section \<open>The data source\<close>

text \<open>
  The Ads API is the script's external source; the model gives, for each entity an
  iterator yields, what its accessors answer. Every accessor the script reads inside a
  \<open>try\<close> of its own is an \<open>outcome\<close>, and so is every iterator and every
  account-level call; names, ids, keyword texts and match types are read from entities the
  iterator has already delivered and are plain values. Ids are positive whole numbers.
  JavaScript numbers are exact rationals here: the claims below compare them with
  thresholds and print them, and do not depend on rounding in binary.
\<close>

record keyword =
  keyword_getText :: string
  keyword_getMatchType :: string
  keyword_getQualityScore :: "nat option outcome"
  keyword_getCpc :: "rat option outcome"

record adGroup =
  adGroup_getName :: string
  adGroup_getId :: nat
  adGroup_campaignName :: string
  adGroup_channelType :: "string outcome"
  adGroup_isDynamic :: "bool outcome"
  adGroup_negativeKeywords :: "nat outcome"
  adGroup_keywords :: "keyword list outcome"
  adGroup_ads :: "nat outcome"
  adGroup_getCpc :: "rat option outcome"

record budget =
  budget_getAmount :: "rat outcome"

record campaign =
  campaign_getName :: string
  campaign_getId :: nat
  campaign_getBudget :: "budget option outcome"
  campaign_negativeKeywords :: "nat outcome"
  campaign_adGroups :: "adGroup list outcome"

record stats =
  getCtr :: "rat option outcome"
  getAverageCpc :: "rat option outcome"
  getConversionRate :: "rat option outcome"
  getConversions :: "rat option outcome"
  getCost :: "rat option outcome"
  getSearchImpressionShare :: "rat option outcome"
  getSearchRankLostImpressionShare :: "rat option outcome"
  getSearchBudgetLostImpressionShare :: "rat option outcome"

text \<open>
  \<open>campaigns_enabled_or_paused\<close> is the iterator of \<open>auditAccountStructure\<close>
  (\<open>Status IN [ENABLED, PAUSED]\<close>), \<open>campaigns_enabled\<close> that of
  \<open>auditKeywords\<close>, \<open>adGroups_enabled\<close> that of \<open>auditAdGroups\<close>;
  \<open>negativeKeywordLists\<close> gives the size of each account-level negative list.
\<close>

record account =
  getCurrencyCode :: "string outcome"
  negativeKeywordLists :: "nat list outcome"
  campaigns_enabled_or_paused :: "campaign list outcome"
  campaigns_enabled :: "campaign list outcome"
  adGroups_enabled :: "adGroup list outcome"
  getStatsFor :: "stats option outcome"

subsection \<open>CONFIG\<close>

definition CONFIG_MIN_QUALITY_SCORE :: nat where
  "CONFIG_MIN_QUALITY_SCORE = 5"

definition CONFIG_MAX_CPA :: rat where
  "CONFIG_MAX_CPA = 50"

definition CONFIG_MIN_CTR :: rat where
  "CONFIG_MIN_CTR = 1 / 100"

definition CONFIG_MIN_CONVERSION_RATE :: rat where
  "CONFIG_MIN_CONVERSION_RATE = 1 / 100"

definition CONFIG_MIN_IMPRESSION_SHARE :: rat where
  "CONFIG_MIN_IMPRESSION_SHARE = 6 / 10"

definition CONFIG_MAX_IMPRESSION_SHARE_LOST_RANK :: rat where
  "CONFIG_MAX_IMPRESSION_SHARE_LOST_RANK = 2 / 10"

definition CONFIG_MAX_IMPRESSION_SHARE_LOST_BUDGET :: rat where
  "CONFIG_MAX_IMPRESSION_SHARE_LOST_BUDGET = 1 / 10"

definition CONFIG_MIN_ADS_PER_ADGROUP :: nat where
  "CONFIG_MIN_ADS_PER_ADGROUP = 2"

definition CONFIG_MAX_KEYWORDS_PER_ADGROUP :: nat where
  "CONFIG_MAX_KEYWORDS_PER_ADGROUP = 20"

definition CONFIG_CHECK_LANDING_PAGES :: bool where
  "CONFIG_CHECK_LANDING_PAGES = True"

text \<open>
  The two naming patterns, \<open>/^[A-Z]{2,}-[A-Za-z0-9]+-.+$/\<close> and
  \<open>/^[A-Za-z0-9]+_.+$/\<close>. Neither character class contains the separator that
  follows it, so the greedy match of a class is the only one that can succeed; the dot
  does not match a line break. Characters are bytes.
\<close>

definition is_upper :: "char \<Rightarrow> bool" where
  "is_upper c = (65 \<le> (of_char c :: nat) \<and> (of_char c :: nat) \<le> 90)"

definition is_alnum :: "char \<Rightarrow> bool" where
  "is_alnum c =
     (is_upper c \<or> (97 \<le> (of_char c :: nat) \<and> (of_char c :: nat) \<le> 122)
      \<or> (48 \<le> (of_char c :: nat) \<and> (of_char c :: nat) \<le> 57))"

definition any_char :: "char \<Rightarrow> bool" where
  "any_char c = (c \<noteq> CHR 0x0A \<and> c \<noteq> CHR 0x0D)"

definition CAMPAIGN_NAMING_CONVENTION_source :: string where
  "CAMPAIGN_NAMING_CONVENTION_source = ''^[A-Z]{2,}-[A-Za-z0-9]+-.+$''"

definition ADGROUP_NAMING_CONVENTION_source :: string where
  "ADGROUP_NAMING_CONVENTION_source = ''^[A-Za-z0-9]+_.+$''"

definition CAMPAIGN_NAMING_CONVENTION_test :: "string \<Rightarrow> bool" where
  "CAMPAIGN_NAMING_CONVENTION_test name =
     (length (takeWhile is_upper name) \<ge> 2 \<and>
      (case dropWhile is_upper name of
         [] \<Rightarrow> False
       | c # rest \<Rightarrow>
           c = CHR ''-'' \<and> takeWhile is_alnum rest \<noteq> [] \<and>
           (case dropWhile is_alnum rest of
              [] \<Rightarrow> False
            | d # tail \<Rightarrow> d = CHR ''-'' \<and> tail \<noteq> [] \<and> list_all any_char tail)))"

definition ADGROUP_NAMING_CONVENTION_test :: "string \<Rightarrow> bool" where
  "ADGROUP_NAMING_CONVENTION_test name =
     (takeWhile is_alnum name \<noteq> [] \<and>
      (case dropWhile is_alnum name of
         [] \<Rightarrow> False
       | c # tail \<Rightarrow> c = CHR ''_'' \<and> tail \<noteq> [] \<and> list_all any_char tail))"

subsection \<open>Printing numbers\<close>

text \<open>
  \<open>x.toFixed(d)\<close> rounds to \<open>d\<close> decimals, half away from zero, and prints all
  \<open>d\<close> of them. \<open>show_whole\<close> prints a number that is whole, as string concatenation
  does; it is used for the thresholds times 100 only.
\<close>

definition toFixed :: "nat \<Rightarrow> rat \<Rightarrow> string" where
  "toFixed d x =
     (let n = nat \<lfloor>\<bar>x\<bar> * 10 ^ d + 1 / 2\<rfloor>;
          whole = show_nat (n div 10 ^ d);
          frac = show_nat (n mod 10 ^ d)
      in (if x < 0 then ''-'' else []) @ whole @
         (if d = 0 then [] else ''.'' @ replicate (d - length frac) (CHR ''0'') @ frac))"

definition show_whole :: "rat \<Rightarrow> string" where
  "show_whole x = show_nat (nat \<lfloor>x\<rfloor>)"

text \<open>In arithmetic and comparisons \<open>null\<close> counts as 0.\<close>

definition num :: "rat option \<Rightarrow> rat" where
  "num v = (case v of None \<Rightarrow> 0 | Some x \<Rightarrow> x)"

section \<open>Running a module\<close>

text \<open>
  A piece of a module is run to the rows it passes to \<open>addResult\<close>, in order, and
  then either the exception that ended it or its value. \<open>io_try\<close> is
  \<open>try { ... } catch (e) { ... }\<close>: what was recorded before the exception stays.
\<close>

type_synonym 'a io = "row list \<times> (string + 'a)"

definition io_return :: "'a \<Rightarrow> 'a io" where
  "io_return x = ([], Inr x)"

definition io_throw :: "string \<Rightarrow> 'a io" where
  "io_throw e = ([], Inl e)"

definition io_bind :: "'a io \<Rightarrow> ('a \<Rightarrow> 'b io) \<Rightarrow> 'b io" where
  "io_bind m f =
     (case m of
        (rows, Inl e) \<Rightarrow> (rows, Inl e)
      | (rows, Inr x) \<Rightarrow> (case f x of (rows', r) \<Rightarrow> (rows @ rows', r)))"

definition io_call :: "'a outcome \<Rightarrow> 'a io" where
  "io_call c = (case c of Throws e \<Rightarrow> io_throw e | Returns v \<Rightarrow> io_return v)"

definition io_try :: "'a io \<Rightarrow> (string \<Rightarrow> 'a io) \<Rightarrow> 'a io" where
  "io_try m handler =
     (case m of
        (rows, Inl e) \<Rightarrow> (case handler e of (rows', r) \<Rightarrow> (rows @ rows', r))
      | (rows, Inr x) \<Rightarrow> (rows, Inr x))"

definition row_of :: "string \<Rightarrow> string \<Rightarrow> string \<Rightarrow> string \<Rightarrow> string \<Rightarrow> row" where
  "row_of cat itm st det rcm =
     \<lparr>category = cat, item = itm, status = st, details = det, recommendation = rcm\<rparr>"

definition call_addResult :: "string \<Rightarrow> string \<Rightarrow> string \<Rightarrow> string \<Rightarrow> string \<Rightarrow> unit io" where
  "call_addResult cat itm st det rcm = ([row_of cat itm st det rcm], Inr ())"

text \<open>A \<open>while (iterator.hasNext())\<close> loop over the entities, threading the counters.\<close>

fun io_foreach :: "('s \<Rightarrow> 'a \<Rightarrow> 's io) \<Rightarrow> 'a list \<Rightarrow> 's \<Rightarrow> 's io" where
  "io_foreach body [] s = io_return s"
| "io_foreach body (x # xs) s = io_bind (body s x) (io_foreach body xs)"

text \<open>The \<open>catch (e)\<close> at the end of a module.\<close>

definition general_check :: "string \<Rightarrow> string \<Rightarrow> unit io" where
  "general_check cat e =
     call_addResult cat ''General Check'' ''Error'' (''An error occurred: '' @ e)
       ''Investigate the error.''"

definition findings :: "'a io \<Rightarrow> row list" where
  "findings m = fst m"

definition escaped :: "'a io \<Rightarrow> string option" where
  "escaped m = (case snd m of Inl e \<Rightarrow> Some e | Inr x \<Rightarrow> None)"

section \<open>auditAccountStructure\<close>

record structure_counters =
  campaignsChecked :: nat
  campaignsWithPoorNaming :: nat
  totalBudget :: rat

text \<open>
  The \<open>try\<close> around the budget: \<open>budgetAmount\<close> keeps its initial 0 when the
  budget is \<open>null\<close> and when one of the two calls throws; the \<open>catch\<close> records a
  Warn row.
\<close>

definition budget_of :: "campaign \<Rightarrow> rat io" where
  "budget_of c =
     io_try
       (io_bind (io_call (campaign_getBudget c))
          (\<lambda>budget. case budget of
                       None \<Rightarrow> io_return 0
                     | Some b \<Rightarrow> io_call (budget_getAmount b)))
       (\<lambda>budgetError.
          io_bind
            (call_addResult ''Account Structure'' ''Budget Check'' ''Warn''
               (''Could not retrieve budget for campaign '' @ quoted (campaign_getName c) @
                '': '' @ budgetError)
               ''Review budget setting manually.'')
            (\<lambda>_. io_return 0))"

text \<open>The body of the \<open>while\<close> loop over the campaigns.\<close>

definition structure_campaign ::
  "account \<Rightarrow> structure_counters \<Rightarrow> campaign \<Rightarrow> structure_counters io" where
  "structure_campaign acct s c =
     (let s1 = s\<lparr>campaignsChecked := campaignsChecked s + 1\<rparr>;
          campaignName = campaign_getName c
      in io_bind (budget_of c) (\<lambda>budgetAmount.
         let s2 = s1\<lparr>totalBudget := totalBudget s1 + budgetAmount\<rparr> in
         io_bind
           (if \<not> CAMPAIGN_NAMING_CONVENTION_test campaignName
            then io_bind
                   (call_addResult ''Account Structure'' ''Campaign Naming Convention'' ''Warn''
                      (''Campaign '' @ quoted campaignName @ '' doesn'' @ [CHR 0x27] @
                       ''t match pattern: '' @ CAMPAIGN_NAMING_CONVENTION_source)
                      ''Standardize campaign naming for better organization.'')
                   (\<lambda>_. io_return
                           (s2\<lparr>campaignsWithPoorNaming := campaignsWithPoorNaming s2 + 1\<rparr>))
            else io_return s2)
           (\<lambda>s3.
              io_bind (io_call (getCurrencyCode acct)) (\<lambda>currency.
              io_bind
                (call_addResult ''Account Structure'' ''Budget Allocation'' ''Info''
                   (''Campaign '' @ quoted campaignName @ '' Budget: '' @
                    toFixed 2 budgetAmount @ '' '' @ currency)
                   ''Ensure budget aligns with campaign priority and performance.'')
                (\<lambda>_. io_return s3)))))"

text \<open>The rows after the loop.\<close>

definition structure_summary :: "account \<Rightarrow> structure_counters \<Rightarrow> unit io" where
  "structure_summary acct s =
     io_bind
       (if campaignsChecked s > 0 \<and> campaignsWithPoorNaming s = 0
        then call_addResult ''Account Structure'' ''Campaign Naming Convention'' ''Pass''
               (''All '' @ show_nat (campaignsChecked s) @
                '' checked campaigns follow the naming convention.'')
               ''Maintain consistent naming.''
        else if campaignsChecked s > 0 \<and> campaignsWithPoorNaming s > 0
        then io_return ()
        else if campaignsChecked s = 0
        then call_addResult ''Account Structure'' ''Campaign Naming Convention'' ''Info''
               ''No active/paused campaigns found to check.'' ''N/A''
        else io_return ())
       (\<lambda>_.
     io_bind (io_call (getCurrencyCode acct)) (\<lambda>currency.
     io_bind
       (call_addResult ''Account Structure'' ''Total Account Budget'' ''Info''
          (''Sum of daily budgets for checked campaigns: '' @ toFixed 2 (totalBudget s) @
           '' '' @ currency)
          ''Verify total budget aligns with overall advertising goals.'')
       (\<lambda>_.
     io_bind
       (call_addResult ''Account Structure'' ''Campaign Organization'' ''Info''
          ''Manual Review Required''
          ''Review campaign goals (e.g., Search, Display, Video) and structure (e.g., by product, service, location). Ensure logical grouping.'')
       (\<lambda>_.
     io_bind
       (call_addResult ''Account Structure'' ''Ad Group Theming'' ''Info''
          ''Checked in Ad Groups module.''
          ''Ensure ad groups contain tightly themed keywords.'')
       (\<lambda>_.
     call_addResult ''Account Structure'' ''Overlapping Keywords'' ''Info''
       ''Basic checks in Keywords module.''
       ''Perform deeper analysis using Search Terms Report or dedicated tools if needed.'')))))"

definition auditAccountStructure :: "account \<Rightarrow> unit io" where
  "auditAccountStructure acct =
     io_try
       (io_bind (io_call (campaigns_enabled_or_paused acct)) (\<lambda>campaigns.
        io_bind
          (io_foreach (structure_campaign acct) campaigns
             \<lparr>campaignsChecked = 0, campaignsWithPoorNaming = 0, totalBudget = 0\<rparr>)
          (structure_summary acct)))
       (general_check ''Account Structure'')"

section \<open>auditAdGroups\<close>

record adGroup_counters =
  adGroupsChecked :: nat
  adGroupsWithLowAdCount :: nat
  adGroupsWithHighKeywordCount :: nat
  adGroupsWithPoorNaming :: nat

text \<open>The name an ad group is reported under: its own and, in brackets, its campaign's.\<close>

definition adGroup_label :: "adGroup \<Rightarrow> string" where
  "adGroup_label g =
     ''Ad Group '' @ quoted (adGroup_getName g) @ '' ('' @ adGroup_campaignName g @ '')''"

text \<open>
  The \<open>try\<close> around the keyword count. The channel type is read only when the count is
  0, and \<open>isDynamic\<close> only when the channel type is \<open>SEARCH\<close>.
\<close>

definition keyword_count_check :: "adGroup_counters \<Rightarrow> adGroup \<Rightarrow> adGroup_counters io" where
  "keyword_count_check s g =
     io_try
       (io_bind (io_call (adGroup_keywords g)) (\<lambda>keywords.
        let keywordCount = length keywords in
        if keywordCount > CONFIG_MAX_KEYWORDS_PER_ADGROUP
        then io_bind
               (call_addResult ''Ad Groups'' ''Keyword Count'' ''Warn''
                  (adGroup_label g @ '' has '' @ show_nat keywordCount @ '' keywords (>'' @
                   show_nat CONFIG_MAX_KEYWORDS_PER_ADGROUP @ '').'')
                  ''Consider splitting into more tightly themed ad groups for better relevance.'')
               (\<lambda>_. io_return
                       (s\<lparr>adGroupsWithHighKeywordCount := adGroupsWithHighKeywordCount s + 1\<rparr>))
        else if keywordCount = 0
        then io_bind (io_call (adGroup_channelType g)) (\<lambda>channelType.
             io_bind (if channelType \<noteq> ''SEARCH'' then io_return True
                      else io_bind (io_call (adGroup_isDynamic g))
                             (\<lambda>dynamic. io_return (\<not> dynamic)))
               (\<lambda>notDsa.
                  io_bind
                    (if notDsa
                     then call_addResult ''Ad Groups'' ''Keyword Count'' ''Warn''
                            (adGroup_label g @ '' has 0 enabled keywords.'')
                            (''Add relevant keywords or pause the ad group if it'' @ [CHR 0x27]
                             @ ''s not needed (and not DSA).'')
                     else call_addResult ''Ad Groups'' ''Keyword Count'' ''Info''
                            (adGroup_label g @ '' is DSA and has 0 keywords.'')
                            ''Expected for DSA ad groups.'')
                    (\<lambda>_. io_return s)))
        else io_return s))
       (\<lambda>kwCountError.
          io_bind
            (call_addResult ''Ad Groups'' ''Keyword Count Check'' ''Error''
               (''Could not check keyword count for ad group '' @ quoted (adGroup_getName g) @
                '': '' @ kwCountError)
               ''Check permissions.'')
            (\<lambda>_. io_return s))"

text \<open>The \<open>try\<close> around the ad count.\<close>

definition ad_count_check :: "adGroup_counters \<Rightarrow> adGroup \<Rightarrow> adGroup_counters io" where
  "ad_count_check s g =
     io_try
       (io_bind (io_call (adGroup_ads g)) (\<lambda>adCount.
        if adCount < CONFIG_MIN_ADS_PER_ADGROUP
        then io_bind
               (call_addResult ''Ad Groups'' ''Ad Count'' ''Fail''
                  (adGroup_label g @ '' has '' @ show_nat adCount @ '' enabled ads (<'' @
                   show_nat CONFIG_MIN_ADS_PER_ADGROUP @ '').'')
                  (''Create at least '' @ show_nat CONFIG_MIN_ADS_PER_ADGROUP @
                   '' relevant ads per ad group for testing and optimization.''))
               (\<lambda>_. io_return (s\<lparr>adGroupsWithLowAdCount := adGroupsWithLowAdCount s + 1\<rparr>))
        else io_return s))
       (\<lambda>adCountError.
          io_bind
            (call_addResult ''Ad Groups'' ''Ad Count Check'' ''Error''
               (''Could not check ad count for ad group '' @ quoted (adGroup_getName g) @
                '': '' @ adCountError)
               ''Check permissions.'')
            (\<lambda>_. io_return s))"

text \<open>
  \<open>bid = x.bidding().getCpc() || "Managed by Strategy"\<close> inside a \<open>try\<close> with an
  empty \<open>catch\<close>, then \<open>typeof bid === 'number' ? bid.toFixed(2) : bid\<close>.
\<close>

definition truthy_number :: "rat option \<Rightarrow> bool" where
  "truthy_number v = (case v of None \<Rightarrow> False | Some x \<Rightarrow> x \<noteq> 0)"

definition adGroup_bid_text :: "adGroup \<Rightarrow> string" where
  "adGroup_bid_text g =
     (case adGroup_getCpc g of
        Throws e \<Rightarrow> ''Managed by Strategy''
      | Returns v \<Rightarrow> if truthy_number v then toFixed 2 (num v) else ''Managed by Strategy'')"

text \<open>The body of the \<open>while\<close> loop over the ad groups.\<close>

definition adGroups_adGroup :: "adGroup_counters \<Rightarrow> adGroup \<Rightarrow> adGroup_counters io" where
  "adGroups_adGroup s g =
     (let s1 = s\<lparr>adGroupsChecked := adGroupsChecked s + 1\<rparr> in
      io_bind (keyword_count_check s1 g) (\<lambda>s2.
      io_bind (ad_count_check s2 g) (\<lambda>s3.
      io_bind
        (if \<not> ADGROUP_NAMING_CONVENTION_test (adGroup_getName g)
         then io_bind
                (call_addResult ''Ad Groups'' ''Ad Group Naming'' ''Warn''
                   (adGroup_label g @ '' doesn'' @ [CHR 0x27] @ ''t match pattern: '' @
                    ADGROUP_NAMING_CONVENTION_source)
                   ''Standardize ad group naming.'')
                (\<lambda>_. io_return (s3\<lparr>adGroupsWithPoorNaming := adGroupsWithPoorNaming s3 + 1\<rparr>))
         else io_return s3)
        (\<lambda>s4.
           io_bind
             (call_addResult ''Ad Groups'' ''Ad Group Bids'' ''Info''
                (adGroup_label g @ '' Bid: '' @ adGroup_bid_text g)
                ''Ensure bids align with performance goals and bidding strategy.'')
             (\<lambda>_. io_return s4)))))"

text \<open>The roll-up rows after the loop.\<close>

definition ad_count_pass :: "nat \<Rightarrow> row" where
  "ad_count_pass n =
     \<lparr>category = ''Ad Groups'', item = ''Ad Count'', status = ''Pass'',
      details = ''All '' @ show_nat n @ '' checked ad groups have at least '' @
                show_nat CONFIG_MIN_ADS_PER_ADGROUP @ '' ads.'',
      recommendation = ''Continue A/B testing ads.''\<rparr>"

definition adGroups_summary :: "adGroup_counters \<Rightarrow> unit io" where
  "adGroups_summary s =
     io_bind
       (if adGroupsChecked s > 0
        then io_bind
               (if adGroupsWithLowAdCount s = 0
                then ([ad_count_pass (adGroupsChecked s)], Inr ())
                else io_return ())
               (\<lambda>_.
             io_bind
               (if adGroupsWithHighKeywordCount s = 0
                then call_addResult ''Ad Groups'' ''Keyword Count'' ''Pass''
                       (''All '' @ show_nat (adGroupsChecked s) @
                        '' checked ad groups have a reasonable number of keywords (<= '' @
                        show_nat CONFIG_MAX_KEYWORDS_PER_ADGROUP @ '').'')
                       ''Maintain tight keyword themes.''
                else io_return ())
               (\<lambda>_.
             if adGroupsWithPoorNaming s = 0
             then call_addResult ''Ad Groups'' ''Ad Group Naming'' ''Pass''
                    (''All '' @ show_nat (adGroupsChecked s) @
                     '' checked ad groups follow the naming convention.'')
                    ''Maintain consistent naming.''
             else io_return ()))
        else call_addResult ''Ad Groups'' ''General Check'' ''Info''
               ''No enabled ad groups found in enabled campaigns.'' ''N/A'')
       (\<lambda>_.
     call_addResult ''Ad Groups'' ''Competing Keywords within Ad Group'' ''Info''
       ''Basic duplicate checks in Keywords module.''
       (''Manually review keyword themes within ad groups to ensure they aren'' @ [CHR 0x27] @
        ''t competing semantically.''))"

definition auditAdGroups :: "account \<Rightarrow> unit io" where
  "auditAdGroups acct =
     io_try
       (io_bind (io_call (adGroups_enabled acct)) (\<lambda>adGroups.
        io_bind
          (io_foreach adGroups_adGroup adGroups
             \<lparr>adGroupsChecked = 0, adGroupsWithLowAdCount = 0,
              adGroupsWithHighKeywordCount = 0, adGroupsWithPoorNaming = 0\<rparr>)
          adGroups_summary))
       (general_check ''Ad Groups'')"

section \<open>auditKeywords\<close>

record keyword_counters =
  keywordsChecked :: nat
  lowQsKeywords :: nat
  broadMatchKeywords :: nat
  phraseMatchKeywords :: nat
  exactMatchKeywords :: nat
  negativeKeywordsAccount :: nat
  negativeKeywordsCampaign :: nat
  negativeKeywordsAdGroup :: nat
  duplicateKeywordMap :: "(string \<times> nat) list"
  statsErrorCount :: nat
  qsErrorCount :: nat

definition keyword_label :: "keyword \<Rightarrow> string" where
  "keyword_label kw =
     ''Keyword '' @ quoted (keyword_getText kw) @ '' ('' @ keyword_getMatchType kw @ '')''"

text \<open>\<open>campaignId + ":" + keywordText + ":" + matchType\<close>\<close>

definition duplicateKey :: "campaign \<Rightarrow> keyword \<Rightarrow> string" where
  "duplicateKey c kw =
     show_nat (campaign_getId c) @ '':'' @ keyword_getText kw @ '':'' @ keyword_getMatchType kw"

definition duplicate_warning :: "campaign \<Rightarrow> adGroup \<Rightarrow> keyword \<Rightarrow> nat \<Rightarrow> row" where
  "duplicate_warning c g kw firstId =
     \<lparr>category = ''Keywords'', item = ''Potential Duplicate Keyword (Cross-AdGroup)'',
      status = ''Warn'',
      details = keyword_label kw @ '' found in Ad Group '' @ quoted (adGroup_getName g) @
                '' and also potentially in Ad Group ID '' @ quoted (show_nat firstId) @
                '' within Campaign '' @ quoted (campaign_getName c) @ ''.'',
      recommendation = ''Ensure keywords don'' @ [CHR 0x27] @ ''t compete across ad groups within the same campaign unless intended (e.g., different geo-targets or match types).''\<rparr>"

text \<open>
  \<open>keyword.bidding().getCpc() || adGroup.bidding().getCpc() || "Managed by Strategy"\<close>
  inside a \<open>try\<close> with an empty \<open>catch\<close>.
\<close>

definition keyword_bid_text :: "adGroup \<Rightarrow> keyword \<Rightarrow> string" where
  "keyword_bid_text g kw =
     (case keyword_getCpc kw of
        Throws e \<Rightarrow> ''Managed by Strategy''
      | Returns v \<Rightarrow>
          if truthy_number v then toFixed 2 (num v)
          else (case adGroup_getCpc g of
                  Throws e \<Rightarrow> ''Managed by Strategy''
                | Returns w \<Rightarrow>
                    if truthy_number w then toFixed 2 (num w) else ''Managed by Strategy''))"

text \<open>
  The body of the innermost loop, in the order of the script. First the counters:
  \<open>keywordsChecked\<close> and \<open>statsErrorCount\<close> go up, the quality score is read
  inside a \<open>try\<close> whose \<open>catch\<close> only counts (\<open>qs\<close> stays \<open>null\<close>),
  and the match type is tallied.
\<close>

definition read_quality_score :: "keyword \<Rightarrow> nat option" where
  "read_quality_score kw =
     (case keyword_getQualityScore kw of Throws qsError \<Rightarrow> None | Returns v \<Rightarrow> v)"

definition keyword_tally :: "keyword_counters \<Rightarrow> keyword \<Rightarrow> keyword_counters" where
  "keyword_tally s kw =
     (let s1 = s\<lparr>keywordsChecked := keywordsChecked s + 1\<rparr>;
          matchType = keyword_getMatchType kw;
          s2 = s1\<lparr>statsErrorCount := statsErrorCount s1 + 1\<rparr>;
          s3 = (case keyword_getQualityScore kw of
                  Throws qsError \<Rightarrow> s2\<lparr>qsErrorCount := qsErrorCount s2 + 1\<rparr>
                | Returns v \<Rightarrow> s2)
      in if matchType = ''BROAD''
           then s3\<lparr>broadMatchKeywords := broadMatchKeywords s3 + 1\<rparr>
         else if matchType = ''PHRASE''
           then s3\<lparr>phraseMatchKeywords := phraseMatchKeywords s3 + 1\<rparr>
         else if matchType = ''EXACT''
           then s3\<lparr>exactMatchKeywords := exactMatchKeywords s3 + 1\<rparr>
         else s3)"

text \<open>\<open>if (qs !== null && qs < CONFIG.MIN_QUALITY_SCORE)\<close>\<close>

definition low_quality_check ::
  "adGroup \<Rightarrow> keyword_counters \<Rightarrow> keyword \<Rightarrow> keyword_counters io" where
  "low_quality_check g s kw =
     (case read_quality_score kw of
        None \<Rightarrow> io_return s
      | Some q \<Rightarrow>
          if q < CONFIG_MIN_QUALITY_SCORE
          then io_bind
                 (call_addResult ''Keywords'' ''Low Quality Score'' ''Fail''
                    (keyword_label kw @ '' in Ad Group '' @ quoted (adGroup_getName g) @
                     '' has QS: '' @ show_nat q)
                    ''Improve ad relevance, expected CTR, or landing page experience.'')
                 (\<lambda>_. io_return (s\<lparr>lowQsKeywords := lowQsKeywords s + 1\<rparr>))
          else io_return s)"

text \<open>
  The duplicate check. A stored ad group id counts as present when it is not 0
  (\<open>duplicateKeywordMap[duplicateKey] && ...\<close>); the key is stored when no such id is
  present (\<open>!duplicateKeywordMap[duplicateKey]\<close>).
\<close>

definition duplicate_check ::
  "campaign \<Rightarrow> adGroup \<Rightarrow> keyword_counters \<Rightarrow> keyword \<Rightarrow> keyword_counters io" where
  "duplicate_check c g s kw =
     (let stored = map_of (duplicateKeywordMap s) (duplicateKey c kw) in
      io_bind
        (case stored of
           None \<Rightarrow> io_return ()
         | Some firstId \<Rightarrow>
             if firstId \<noteq> 0 \<and> firstId \<noteq> adGroup_getId g
             then ([duplicate_warning c g kw firstId], Inr ())
             else io_return ())
        (\<lambda>_. io_return
                (if stored = None \<or> stored = Some 0
                 then s\<lparr>duplicateKeywordMap :=
                          AList.update (duplicateKey c kw) (adGroup_getId g)
                            (duplicateKeywordMap s)\<rparr>
                 else s)))"

definition keywords_keyword ::
  "campaign \<Rightarrow> adGroup \<Rightarrow> keyword_counters \<Rightarrow> keyword \<Rightarrow> keyword_counters io" where
  "keywords_keyword c g s kw =
     io_bind (low_quality_check g (keyword_tally s kw) kw) (\<lambda>s5.
     io_bind (duplicate_check c g s5 kw) (\<lambda>s6.
     io_bind
       (call_addResult ''Keywords'' ''Keyword Bids'' ''Info''
          (keyword_label kw @ '' Bid: '' @ keyword_bid_text g kw)
          ''Ensure bids align with performance and bidding strategy.'')
       (\<lambda>_. io_return s6)))"

text \<open>The body of the loop over the ad groups of a campaign.\<close>

definition keywords_adGroup ::
  "campaign \<Rightarrow> keyword_counters \<Rightarrow> adGroup \<Rightarrow> keyword_counters io" where
  "keywords_adGroup c s g =
     io_bind
       (io_try
          (io_bind (io_call (adGroup_negativeKeywords g)) (\<lambda>adGroupNegatives.
           let s1 = s\<lparr>negativeKeywordsAdGroup := negativeKeywordsAdGroup s + adGroupNegatives\<rparr>
           in if adGroupNegatives = 0
              then io_bind
                     (call_addResult ''Keywords'' ''Ad Group Negative Keywords'' ''Warn''
                        (''Ad Group '' @ quoted (adGroup_getName g) @ '' in Campaign '' @
                         quoted (campaign_getName c) @ '' has no negative keywords.'')
                        ''Add ad group-level negatives for fine-tuning.'')
                     (\<lambda>_. io_return s1)
              else io_return s1))
          (\<lambda>negAgError.
             io_bind
               (call_addResult ''Keywords'' ''Ad Group Negative Keywords Check'' ''Error''
                  (''Could not check negatives for ad group '' @ quoted (adGroup_getName g) @
                   '': '' @ negAgError)
                  ''Check permissions.'')
               (\<lambda>_. io_return s)))
       (\<lambda>s2.
          io_bind (io_call (adGroup_keywords g))
            (\<lambda>keywords. io_foreach (keywords_keyword c g) keywords s2))"

text \<open>The body of the loop over the campaigns.\<close>

definition keywords_campaign :: "keyword_counters \<Rightarrow> campaign \<Rightarrow> keyword_counters io" where
  "keywords_campaign s c =
     io_bind
       (io_try
          (io_bind (io_call (campaign_negativeKeywords c)) (\<lambda>campaignNegatives.
           let s1 = s\<lparr>negativeKeywordsCampaign := negativeKeywordsCampaign s + campaignNegatives\<rparr>
           in if campaignNegatives = 0
              then io_bind
                     (call_addResult ''Keywords'' ''Campaign Negative Keywords'' ''Warn''
                        (''Campaign '' @ quoted (campaign_getName c) @
                         '' has no direct negative keywords.'')
                        ''Add campaign-level negatives relevant to this campaign (or ensure coverage via lists).'')
                     (\<lambda>_. io_return s1)
              else io_return s1))
          (\<lambda>negError.
             io_bind
               (call_addResult ''Keywords'' ''Campaign Negative Keywords Check'' ''Error''
                  (''Could not check negatives for campaign '' @ quoted (campaign_getName c) @
                   '': '' @ negError)
                  ''Check campaign type/permissions.'')
               (\<lambda>_. io_return s)))
       (\<lambda>s2.
          io_bind (io_call (campaign_adGroups c))
            (\<lambda>adGroups. io_foreach (keywords_adGroup c) adGroups s2))"

text \<open>The rows after the loops.\<close>

definition quality_score_errors :: "nat \<Rightarrow> row" where
  "quality_score_errors n =
     \<lparr>category = ''Keywords'', item = ''Quality Score Errors'', status = ''Warn'',
      details = ''Could not retrieve QS for '' @ show_nat n @ '' keywords.'',
      recommendation = ''Check script logs for details. May indicate permission issues or API changes.''\<rparr>"

definition keywords_summary :: "keyword_counters \<Rightarrow> unit io" where
  "keywords_summary s =
     io_bind
       (call_addResult ''Keywords'' ''Keyword Match Types'' ''Info''
          (''Broad: '' @ show_nat (broadMatchKeywords s) @ '', Phrase: '' @
           show_nat (phraseMatchKeywords s) @ '', Exact: '' @ show_nat (exactMatchKeywords s) @
           '' (Total Enabled Checked: '' @ show_nat (keywordsChecked s) @ '')'')
          ''Ensure match type usage aligns with campaign goals (e.g., control vs. reach). Review broad match performance carefully.'')
       (\<lambda>_.
     io_bind
       (call_addResult ''Keywords'' ''Total Negative Keywords'' ''Info''
          (''Account Lists: '' @ show_nat (negativeKeywordsAccount s) @ '', Campaign Level: '' @
           show_nat (negativeKeywordsCampaign s) @ '', Ad Group Level: '' @
           show_nat (negativeKeywordsAdGroup s))
          ''Ensure comprehensive negative keyword coverage at appropriate levels.'')
       (\<lambda>_.
     io_bind
       (call_addResult ''Keywords'' ''Search Terms Report Review'' ''Info''
          ''Manual Check Required''
          ''Regularly review the Search Terms Report in the UI to find new positive and negative keyword opportunities.'')
       (\<lambda>_.
     io_bind
       (call_addResult ''Keywords'' ''Keyword Alignment with Goals'' ''Info''
          ''Manual Review Required''
          ''Ensure keywords in each ad group are relevant to the ad copy, landing page, and overall campaign objective.'')
       (\<lambda>_.
     io_bind
       (if keywordsChecked s > 0 \<and> lowQsKeywords s = 0
        then call_addResult ''Keywords'' ''Low Quality Score'' ''Pass''
               (''No keywords found below QS '' @ show_nat CONFIG_MIN_QUALITY_SCORE @
                '' (out of '' @ show_nat (keywordsChecked s) @ '' checked with QS data).'')
               ''Maintain good QS practices.''
        else io_return ())
       (\<lambda>_.
     io_bind
       (if statsErrorCount s > 0
        then call_addResult ''Keywords'' ''Keyword Performance Checks'' ''Info''
               (''Performance checks (CTR, CPA, etc.) skipped for '' @
                show_nat (statsErrorCount s) @
                '' keywords due to API limitations (getStats unavailable).'')
               ''Review keyword performance manually using Google Ads reports.''
        else io_return ())
       (\<lambda>_.
     if qsErrorCount s > 0
     then ([quality_score_errors (qsErrorCount s)], Inr ())
     else io_return ()))))))"

definition keywords_start :: "nat \<Rightarrow> keyword_counters" where
  "keywords_start accountNegatives =
     \<lparr>keywordsChecked = 0, lowQsKeywords = 0, broadMatchKeywords = 0,
      phraseMatchKeywords = 0, exactMatchKeywords = 0,
      negativeKeywordsAccount = accountNegatives, negativeKeywordsCampaign = 0,
      negativeKeywordsAdGroup = 0, duplicateKeywordMap = [], statsErrorCount = 0,
      qsErrorCount = 0\<rparr>"

definition auditKeywords :: "account \<Rightarrow> unit io" where
  "auditKeywords acct =
     io_try
       (io_bind (io_call (negativeKeywordLists acct)) (\<lambda>lists.
        let accountNegatives = sum_list lists in
        io_bind
          (call_addResult ''Keywords'' ''Account Negative Keywords''
             (if accountNegatives > 0 then ''Pass'' else ''Warn'')
             (show_nat accountNegatives @ '' negatives found in lists.'')
             (if accountNegatives > 0 then ''Review lists periodically.''
              else ''Consider creating account-level negative lists for universally irrelevant terms.''))
          (\<lambda>_.
        io_bind (io_call (campaigns_enabled acct)) (\<lambda>campaigns.
        io_bind (io_foreach keywords_campaign campaigns (keywords_start accountNegatives))
          keywords_summary))))
       (general_check ''Keywords'')"

section \<open>auditPerformanceMetrics\<close>

text \<open>
  The account statistics are fetched inside a \<open>try\<close> that records an Error row and
  returns. Each metric is then read inside a \<open>try\<close> of its own whose \<open>catch\<close>
  pushes the metric's name on \<open>metricErrors\<close> and leaves the variable at its initial
  0; a metric that is read without an exception may still be \<open>null\<close>. When the
  statistics object itself is \<open>null\<close>, every read throws a TypeError. Everything
  after the reads stands outside any \<open>try\<close>.
\<close>

definition fetch_metric :: "stats option \<Rightarrow> (stats \<Rightarrow> rat option outcome) \<Rightarrow> rat option outcome" where
  "fetch_metric st getter =
     (case st of
        None \<Rightarrow> Throws ''TypeError: Cannot read properties of null''
      | Some s \<Rightarrow> getter s)"

definition metric_value :: "rat option outcome \<Rightarrow> rat option" where
  "metric_value r = (case r of Throws e \<Rightarrow> Some 0 | Returns v \<Rightarrow> v)"

definition metric_error :: "string \<Rightarrow> rat option outcome \<Rightarrow> string list" where
  "metric_error name r = (case r of Throws e \<Rightarrow> [name] | Returns v \<Rightarrow> [])"

text \<open>\<open>v.toFixed(d)\<close> on a variable: a TypeError when the variable holds \<open>null\<close>.\<close>

definition toFixed_of :: "nat \<Rightarrow> rat option \<Rightarrow> string io" where
  "toFixed_of d v =
     (case v of
        None \<Rightarrow> io_throw ''TypeError: Cannot read properties of null (reading 'toFixed')''
      | Some x \<Rightarrow> io_return (toFixed d x))"

text \<open>\<open>metricErrors.join(', ')\<close>\<close>

fun join_comma :: "string list \<Rightarrow> string" where
  "join_comma [] = []"
| "join_comma [x] = x"
| "join_comma (x # y # rest) = x @ '', '' @ join_comma (y # rest)"

definition impression_share_checks ::
  "string list \<Rightarrow> rat option \<Rightarrow> rat option \<Rightarrow> rat option \<Rightarrow> unit io" where
  "impression_share_checks metricErrors imprShare isLostRank isLostBudget =
     io_bind
       (if ''ImprShare'' \<notin> set metricErrors
        then (if num imprShare \<ge> CONFIG_MIN_IMPRESSION_SHARE
              then call_addResult ''Performance Metrics'' ''Search Impression Share'' ''Pass''
                     (''Account Search IS: '' @ toFixed 1 (num imprShare * 100) @ ''% (>= '' @
                      show_whole (CONFIG_MIN_IMPRESSION_SHARE * 100) @ ''%)'')
                     ''Impression share meets minimum threshold.''
              else call_addResult ''Performance Metrics'' ''Search Impression Share'' ''Warn''
                     (''Account Search IS: '' @ toFixed 1 (num imprShare * 100) @ ''% (< '' @
                      show_whole (CONFIG_MIN_IMPRESSION_SHARE * 100) @ ''%)'')
                     ''Investigate reasons for low impression share (budget or rank).'')
        else call_addResult ''Performance Metrics'' ''Search Impression Share'' ''Info''
               ''Search IS check skipped due to retrieval error.'' ''Review manually.'')
       (\<lambda>_.
     io_bind
       (if ''ISLostRank'' \<notin> set metricErrors
        then (if num isLostRank \<le> CONFIG_MAX_IMPRESSION_SHARE_LOST_RANK
              then call_addResult ''Performance Metrics'' ''Search IS Lost (Rank)'' ''Pass''
                     (''Account IS Lost (Rank): '' @ toFixed 1 (num isLostRank * 100) @
                      ''% (<= '' @ show_whole (CONFIG_MAX_IMPRESSION_SHARE_LOST_RANK * 100) @
                      ''%)'')
                     ''Impression share loss due to rank is within acceptable limits.''
              else call_addResult ''Performance Metrics'' ''Search IS Lost (Rank)'' ''Fail''
                     (''Account IS Lost (Rank): '' @ toFixed 1 (num isLostRank * 100) @
                      ''% (> '' @ show_whole (CONFIG_MAX_IMPRESSION_SHARE_LOST_RANK * 100) @
                      ''%)'')
                     ''Improve Quality Score and/or increase bids to regain impression share lost to rank.'')
        else call_addResult ''Performance Metrics'' ''Search IS Lost (Rank)'' ''Info''
               ''Search IS Lost (Rank) check skipped due to retrieval error.''
               ''Review manually.'')
       (\<lambda>_.
     if ''ISLostBudget'' \<notin> set metricErrors
     then (if num isLostBudget \<le> CONFIG_MAX_IMPRESSION_SHARE_LOST_BUDGET
           then call_addResult ''Performance Metrics'' ''Search IS Lost (Budget)'' ''Pass''
                  (''Account IS Lost (Budget): '' @ toFixed 1 (num isLostBudget * 100) @
                   ''% (<= '' @ show_whole (CONFIG_MAX_IMPRESSION_SHARE_LOST_BUDGET * 100) @
                   ''%)'')
                  ''Impression share loss due to budget is within acceptable limits.''
           else call_addResult ''Performance Metrics'' ''Search IS Lost (Budget)'' ''Fail''
                  (''Account IS Lost (Budget): '' @ toFixed 1 (num isLostBudget * 100) @
                   ''% (> '' @ show_whole (CONFIG_MAX_IMPRESSION_SHARE_LOST_BUDGET * 100) @
                   ''%)'')
                  ''Increase budgets on performing campaigns or optimize efficiency to reduce impression share lost to budget.'')
     else call_addResult ''Performance Metrics'' ''Search IS Lost (Budget)'' ''Info''
            ''Search IS Lost (Budget) check skipped due to retrieval error.''
            ''Review manually.''))"

definition performance_checks :: "stats option \<Rightarrow> unit io" where
  "performance_checks st =
     (let r_ctr = fetch_metric st getCtr;
          r_avgCpc = fetch_metric st getAverageCpc;
          r_convRate = fetch_metric st getConversionRate;
          r_conversions = fetch_metric st getConversions;
          r_cost = fetch_metric st getCost;
          r_imprShare = fetch_metric st getSearchImpressionShare;
          r_isLostRank = fetch_metric st getSearchRankLostImpressionShare;
          r_isLostBudget = fetch_metric st getSearchBudgetLostImpressionShare;
          ctr = metric_value r_ctr;
          avgCpc = metric_value r_avgCpc;
          convRate = metric_value r_convRate;
          conversions = metric_value r_conversions;
          cost = metric_value r_cost;
          imprShare = metric_value r_imprShare;
          isLostRank = metric_value r_isLostRank;
          isLostBudget = metric_value r_isLostBudget;
          metricErrors =
            metric_error ''CTR'' r_ctr @ metric_error ''AvgCPC'' r_avgCpc @
            metric_error ''ConvRate'' r_convRate @ metric_error ''Conversions'' r_conversions @
            metric_error ''Cost'' r_cost @ metric_error ''ImprShare'' r_imprShare @
            metric_error ''ISLostRank'' r_isLostRank @
            metric_error ''ISLostBudget'' r_isLostBudget;
          cpa = (if num conversions > 0 \<and> cost \<noteq> None then num cost / num conversions else 0)
      in
     io_bind
       (if length metricErrors > 0
        then call_addResult ''Performance Metrics'' ''Metric Retrieval'' ''Warn''
               (''Could not retrieve some account metrics: '' @ join_comma metricErrors)
               ''Checks involving these metrics may be incomplete. Review manually or check API documentation.''
        else io_return ())
       (\<lambda>_.
     io_bind
       (if ''CTR'' \<notin> set metricErrors
        then (if num ctr \<ge> CONFIG_MIN_CTR
              then call_addResult ''Performance Metrics'' ''Click-Through Rate (CTR)'' ''Pass''
                     (''Account CTR: '' @ toFixed 2 (num ctr * 100) @ ''% (>= '' @
                      show_whole (CONFIG_MIN_CTR * 100) @ ''%)'')
                     ''CTR meets minimum threshold. Compare to industry benchmarks.''
              else call_addResult ''Performance Metrics'' ''Click-Through Rate (CTR)'' ''Fail''
                     (''Account CTR: '' @ toFixed 2 (num ctr * 100) @ ''% (< '' @
                      show_whole (CONFIG_MIN_CTR * 100) @ ''%)'')
                     ''Investigate low CTR: improve ad copy, keyword relevance, targeting, or use negative keywords.'')
        else call_addResult ''Performance Metrics'' ''Click-Through Rate (CTR)'' ''Info''
               ''CTR check skipped due to retrieval error.'' ''Review manually.'')
       (\<lambda>_.
     io_bind
       (if ''AvgCPC'' \<notin> set metricErrors
        then io_bind (toFixed_of 2 avgCpc) (\<lambda>text.
               call_addResult ''Performance Metrics'' ''Average Cost-Per-Click (CPC)'' ''Info''
                 (''Account Avg. CPC: '' @ text)
                 ''Monitor CPC trends. Compare to keyword/industry benchmarks. High CPC may impact CPA.'')
        else call_addResult ''Performance Metrics'' ''Average Cost-Per-Click (CPC)'' ''Info''
               ''Avg. CPC check skipped due to retrieval error.'' ''Review manually.'')
       (\<lambda>_.
     io_bind
       (if ''ConvRate'' \<notin> set metricErrors
        then (if num convRate \<ge> CONFIG_MIN_CONVERSION_RATE
              then call_addResult ''Performance Metrics'' ''Conversion Rate'' ''Pass''
                     (''Account Conv. Rate: '' @ toFixed 2 (num convRate * 100) @ ''% (>= '' @
                      show_whole (CONFIG_MIN_CONVERSION_RATE * 100) @ ''%)'')
                     ''Conversion rate meets minimum threshold. Focus on landing page optimization and offer relevance.''
              else call_addResult ''Performance Metrics'' ''Conversion Rate'' ''Fail''
                     (''Account Conv. Rate: '' @ toFixed 2 (num convRate * 100) @ ''% (< '' @
                      show_whole (CONFIG_MIN_CONVERSION_RATE * 100) @ ''%)'')
                     ''Investigate low conversion rate: check landing page experience, offer clarity, audience targeting, and conversion tracking setup.'')
        else call_addResult ''Performance Metrics'' ''Conversion Rate'' ''Info''
               ''Conv. Rate check skipped due to retrieval error.'' ''Review manually.'')
       (\<lambda>_.
     io_bind
       (if ''Conversions'' \<notin> set metricErrors \<and> ''Cost'' \<notin> set metricErrors
        then (if num conversions > 0
              then (if cpa \<le> CONFIG_MAX_CPA
                    then call_addResult ''Performance Metrics'' ''Cost Per Acquisition (CPA)''
                           ''Pass''
                           (''Account CPA: '' @ toFixed 2 cpa @ '' (<= '' @
                            toFixed 2 CONFIG_MAX_CPA @ '')'')
                           ''CPA is within the acceptable threshold.''
                    else call_addResult ''Performance Metrics'' ''Cost Per Acquisition (CPA)''
                           ''Fail''
                           (''Account CPA: '' @ toFixed 2 cpa @ '' (> '' @
                            toFixed 2 CONFIG_MAX_CPA @ '')'')
                           ''Investigate high CPA: optimize bids, improve Quality Score, refine targeting, enhance conversion rates, or review CPA goal.'')
              else call_addResult ''Performance Metrics'' ''Cost Per Acquisition (CPA)'' ''Info''
                     ''No conversions recorded in the last 30 days. CPA cannot be calculated.''
                     ''Ensure conversion tracking is working correctly.'')
        else call_addResult ''Performance Metrics'' ''Cost Per Acquisition (CPA)'' ''Info''
               ''CPA check skipped due to retrieval error for Cost or Conversions.''
               ''Review manually.'')
       (\<lambda>_.
     io_bind
       (call_addResult ''Performance Metrics'' ''Return On Ad Spend (ROAS)'' ''Info''
          ''ROAS check skipped (getConversionValue unavailable).''
          ''Implement conversion value tracking and review ROAS manually if applicable.'')
       (\<lambda>_.
     io_bind
       (if ''ImprShare'' \<notin> set metricErrors \<or> ''ISLostRank'' \<notin> set metricErrors
           \<or> ''ISLostBudget'' \<notin> set metricErrors
        then (if num imprShare > 0 \<or> num isLostRank > 0 \<or> num isLostBudget > 0
              then impression_share_checks metricErrors imprShare isLostRank isLostBudget
              else if length metricErrors = 0
              then call_addResult ''Performance Metrics'' ''Search Impression Share'' ''Info''
                     ''Search Impression Share data not available (e.g., Display/Video only account).''
                     ''N/A for this check.''
              else io_return ())
        else call_addResult ''Performance Metrics'' ''Search Impression Share'' ''Info''
               ''Search IS checks skipped due to retrieval errors.'' ''Review manually.'')
       (\<lambda>_.
     call_addResult ''Performance Metrics'' ''Granular Performance'' ''Info''
       ''Account-level metrics provide an overview.''
       ''Analyze performance at the campaign, ad group, keyword, and audience levels for specific optimization opportunities.''))))))))"

definition auditPerformanceMetrics :: "account \<Rightarrow> unit io" where
  "auditPerformanceMetrics acct =
     (case getStatsFor acct of
        Throws e \<Rightarrow>
          call_addResult ''Performance Metrics'' ''General Check'' ''Error''
            (''An error occurred fetching account stats: '' @ e)
            ''Could not retrieve account performance metrics.''
      | Returns st \<Rightarrow> performance_checks st)"

section \<open>The other modules and main\<close>

text \<open>\<open>auditConversionTracking\<close> records one row; the rest of it is commented out.\<close>

definition auditConversionTracking :: "unit io" where
  "auditConversionTracking =
     call_addResult ''Conversion Tracking'' ''Conversion Action Check'' ''Info''
       ''Manual Check Required''
       ''Checking specific conversion actions via standard Ads Scripts has limitations. Please review conversion actions, primary/secondary settings, values, and GA linking manually in the UI (Tools & Settings > Measurement > Conversions).''"

text \<open>
  Eleven further modules have the shape \<open>try { body } catch (e) { addResult(category,
  "General Check", "Error", ...) }\<close> with nothing but declarations and a log line in
  front of the \<open>try\<close>. Their bodies are not translated: \<open>body_of name\<close> is what
  the statements inside the \<open>try\<close> of the module of that name do on the account at
  hand, the rows they record and the exception that ends them, if any.
\<close>

record env =
  services :: sink
  ads :: account
  body_of :: "string \<Rightarrow> unit io"

definition auditAccountSettings :: "env \<Rightarrow> unit io" where
  "auditAccountSettings e =
     io_try (body_of e ''auditAccountSettings'') (general_check ''Account Settings'')"

definition auditAdCopy :: "env \<Rightarrow> unit io" where
  "auditAdCopy e = io_try (body_of e ''auditAdCopy'') (general_check ''Ad Copy'')"

definition auditAdExtensions :: "env \<Rightarrow> unit io" where
  "auditAdExtensions e =
     io_try (body_of e ''auditAdExtensions'') (general_check ''Ad Extensions (Assets)'')"

definition auditBiddingStrategies :: "env \<Rightarrow> unit io" where
  "auditBiddingStrategies e =
     io_try (body_of e ''auditBiddingStrategies'') (general_check ''Bidding Strategies'')"

definition auditQualityScore :: "env \<Rightarrow> unit io" where
  "auditQualityScore e =
     io_try (body_of e ''auditQualityScore'') (general_check ''Quality Score'')"

definition auditLandingPages :: "env \<Rightarrow> unit io" where
  "auditLandingPages e =
     io_try (body_of e ''auditLandingPages'')
       (\<lambda>ex. call_addResult ''Landing Pages'' ''General Check'' ''Error''
                (''An error occurred during landing page checks: '' @ ex)
                ''Investigate the error. Consider reducing LANDING_PAGE_SAMPLE_SIZE or disabling checks if timeouts occur.'')"

definition auditAudienceTargeting :: "env \<Rightarrow> unit io" where
  "auditAudienceTargeting e =
     io_try (body_of e ''auditAudienceTargeting'') (general_check ''Audience Targeting'')"

definition auditCampaignOptimization :: "env \<Rightarrow> unit io" where
  "auditCampaignOptimization e =
     io_try (body_of e ''auditCampaignOptimization'') (general_check ''Campaign Optimization'')"

definition auditAutomationTools :: "env \<Rightarrow> unit io" where
  "auditAutomationTools e =
     io_try (body_of e ''auditAutomationTools'') (general_check ''Automation & Tools'')"

definition auditCompetitiveAnalysis :: "env \<Rightarrow> unit io" where
  "auditCompetitiveAnalysis e =
     io_try (body_of e ''auditCompetitiveAnalysis'') (general_check ''Competitive Analysis'')"

definition auditReportingInsights :: "env \<Rightarrow> unit io" where
  "auditReportingInsights e =
     io_try (body_of e ''auditReportingInsights'') (general_check ''Reporting & Insights'')"

text \<open>
  The calls of \<open>main\<close> between the initialisation and the report, in order, each under
  the name of the function called. \<open>main\<close> has no \<open>try\<close>: the calls run one after
  the other until one ends with an exception, which then ends \<open>main\<close>.
\<close>

definition module_calls :: "env \<Rightarrow> (string \<times> unit io) list" where
  "module_calls e =
     [(''auditAccountSettings'', auditAccountSettings e),
      (''auditAccountStructure'', auditAccountStructure (ads e)),
      (''auditConversionTracking'', auditConversionTracking),
      (''auditKeywords'', auditKeywords (ads e)),
      (''auditAdGroups'', auditAdGroups (ads e)),
      (''auditAdCopy'', auditAdCopy e),
      (''auditAdExtensions'', auditAdExtensions e),
      (''auditBiddingStrategies'', auditBiddingStrategies e),
      (''auditQualityScore'', auditQualityScore e),
      (if CONFIG_CHECK_LANDING_PAGES
       then (''auditLandingPages'', auditLandingPages e)
       else (''addResult'',
             call_addResult ''Landing Pages'' ''Landing Page Checks'' ''Skipped''
               ''CONFIG.CHECK_LANDING_PAGES is false'' ''Enable in CONFIG if needed.'')),
      (''auditAudienceTargeting'', auditAudienceTargeting e),
      (''auditPerformanceMetrics'', auditPerformanceMetrics (ads e)),
      (''auditCampaignOptimization'', auditCampaignOptimization e),
      (''auditAutomationTools'', auditAutomationTools e),
      (''auditCompetitiveAnalysis'', auditCompetitiveAnalysis e),
      (''auditReportingInsights'', auditReportingInsights e)]"

text \<open>Running the calls: the names of the functions entered, and what they did together.\<close>

fun run_calls :: "(string \<times> unit io) list \<Rightarrow> string list \<times> unit io" where
  "run_calls [] = ([], io_return ())"
| "run_calls ((name, m) # rest) =
     (case m of
        (rows, Inl ex) \<Rightarrow> ([name], (rows, Inl ex))
      | (rows, Inr u) \<Rightarrow>
          (case run_calls rest of (names, rows', r) \<Rightarrow> (name # names, (rows @ rows', r))))"

datatype ending = Aborted | Uncaught string | Completed

record run =
  ending :: ending
  invoked :: "string list"
  globals_after :: globals
  sheets_after :: spreadsheet

definition main :: "env \<Rightarrow> run" where
  "main e =
     (case initializeSpreadsheet (services e) fresh_globals of
        (g0, ss0) \<Rightarrow>
          if no_spreadsheet g0
          then \<lparr>ending = Aborted, invoked = [], globals_after = g0, sheets_after = ss0\<rparr>
          else (case run_calls (module_calls e) of
                  (names, rows, r) \<Rightarrow>
                    (case record_all rows g0 of
                       Inl ex \<Rightarrow>
                         \<lparr>ending = Uncaught ex, invoked = names, globals_after = g0,
                          sheets_after = ss0\<rparr>
                     | Inr g1 \<Rightarrow>
                         (case r of
                            Inl ex \<Rightarrow>
                              \<lparr>ending = Uncaught ex, invoked = names, globals_after = g1,
                               sheets_after = ss0\<rparr>
                          | Inr u \<Rightarrow>
                              \<lparr>ending = Completed, invoked = names, globals_after = g1,
                               sheets_after =
                                 writeResultsToSpreadsheet g1
                                   (populateOverviewSheet g1 ss0)\<rparr>))))"

section \<open>Vocabulary of the claims about the modules\<close>

text \<open>The Fail row of the ad count check, and the ad groups it is recorded for.\<close>

definition ad_count_fail :: "adGroup \<Rightarrow> nat \<Rightarrow> row" where
  "ad_count_fail g n =
     \<lparr>category = ''Ad Groups'', item = ''Ad Count'', status = ''Fail'',
      details = adGroup_label g @ '' has '' @ show_nat n @ '' enabled ads (<'' @
                show_nat CONFIG_MIN_ADS_PER_ADGROUP @ '').'',
      recommendation = ''Create at least '' @ show_nat CONFIG_MIN_ADS_PER_ADGROUP @
                       '' relevant ads per ad group for testing and optimization.''\<rparr>"

definition low_ad_count :: "adGroup \<Rightarrow> bool" where
  "low_ad_count g =
     (case adGroup_ads g of Throws e \<Rightarrow> False | Returns n \<Rightarrow> n < CONFIG_MIN_ADS_PER_ADGROUP)"

definition low_ad_count_rows :: "adGroup \<Rightarrow> row list" where
  "low_ad_count_rows g =
     (case adGroup_ads g of
        Throws e \<Rightarrow> []
      | Returns n \<Rightarrow> if n < CONFIG_MIN_ADS_PER_ADGROUP then [ad_count_fail g n] else [])"

definition is_ad_count_pass :: "row \<Rightarrow> bool" where
  "is_ad_count_pass r = (item r = ''Ad Count'' \<and> status r = ''Pass'')"

text \<open>An account for examples: two ad groups, with one and with three enabled ads.\<close>

definition example_adGroup :: "string \<Rightarrow> nat \<Rightarrow> nat \<Rightarrow> keyword list \<Rightarrow> adGroup" where
  "example_adGroup name ident n kws =
     \<lparr>adGroup_getName = name, adGroup_getId = ident,
      adGroup_campaignName = ''US-Brand-Search'', adGroup_channelType = Returns ''SEARCH'',
      adGroup_isDynamic = Returns False, adGroup_negativeKeywords = Returns 0,
      adGroup_keywords = Returns kws, adGroup_ads = Returns n,
      adGroup_getCpc = Returns None\<rparr>"

definition example_keyword :: "string \<Rightarrow> nat option outcome \<Rightarrow> keyword" where
  "example_keyword txt qs =
     \<lparr>keyword_getText = txt, keyword_getMatchType = ''EXACT'',
      keyword_getQualityScore = qs, keyword_getCpc = Returns None\<rparr>"

definition example_campaign :: "budget option outcome \<Rightarrow> adGroup list \<Rightarrow> campaign" where
  "example_campaign b gs =
     \<lparr>campaign_getName = ''US-Brand-Search'', campaign_getId = 11,
      campaign_getBudget = b, campaign_negativeKeywords = Returns 3,
      campaign_adGroups = Returns gs\<rparr>"

definition example_account :: "campaign list \<Rightarrow> adGroup list \<Rightarrow> stats option \<Rightarrow> account" where
  "example_account cs gs st =
     \<lparr>getCurrencyCode = Returns ''USD'', negativeKeywordLists = Returns [4],
      campaigns_enabled_or_paused = Returns cs, campaigns_enabled = Returns cs,
      adGroups_enabled = Returns gs, getStatsFor = Returns st\<rparr>"

text \<open>
  The keywords the loops of \<open>auditKeywords\<close> visit, in order, each with its campaign
  and ad group, when every iterator delivers; the triple the duplicate check compares; the
  ad group id under which a triple was seen first; and the duplicate warnings as the claim
  words them: a keyword is warned about when its triple was seen before and was first seen
  in an ad group with another id.
\<close>

type_synonym visit = "campaign \<times> adGroup \<times> keyword"

definition adGroups_of :: "campaign \<Rightarrow> adGroup list" where
  "adGroups_of c = (case campaign_adGroups c of Throws e \<Rightarrow> [] | Returns gs \<Rightarrow> gs)"

definition keywords_of :: "adGroup \<Rightarrow> keyword list" where
  "keywords_of g = (case adGroup_keywords g of Throws e \<Rightarrow> [] | Returns ks \<Rightarrow> ks)"

definition adGroup_visits :: "campaign \<Rightarrow> adGroup \<Rightarrow> visit list" where
  "adGroup_visits c g = map (\<lambda>k. (c, g, k)) (keywords_of g)"

definition campaign_visits :: "campaign \<Rightarrow> visit list" where
  "campaign_visits c = concat (map (adGroup_visits c) (adGroups_of c))"

definition keyword_visits :: "campaign list \<Rightarrow> visit list" where
  "keyword_visits cs = concat (map campaign_visits cs)"

definition iterators_deliver :: "campaign list \<Rightarrow> bool" where
  "iterators_deliver cs =
     list_all (\<lambda>c. case campaign_adGroups c of
                     Throws e \<Rightarrow> False
                   | Returns gs \<Rightarrow>
                       list_all (\<lambda>g. case adGroup_keywords g of
                                       Throws e \<Rightarrow> False
                                     | Returns ks \<Rightarrow> True) gs) cs"

definition triple_of :: "visit \<Rightarrow> nat \<times> string \<times> string" where
  "triple_of v =
     (campaign_getId (fst v), keyword_getText (snd (snd v)), keyword_getMatchType (snd (snd v)))"

definition adGroupId_of :: "visit \<Rightarrow> nat" where
  "adGroupId_of v = adGroup_getId (fst (snd v))"

definition well_formed :: "visit \<Rightarrow> bool" where
  "well_formed v =
     (0 < adGroupId_of v \<and> CHR '':'' \<notin> set (keyword_getMatchType (snd (snd v))))"

definition first_seen :: "visit list \<Rightarrow> nat \<times> string \<times> string \<Rightarrow> nat option" where
  "first_seen seen t =
     (case filter (\<lambda>u. triple_of u = t) seen of
        [] \<Rightarrow> None
      | u # rest \<Rightarrow> Some (adGroupId_of u))"

definition warning_for :: "visit list \<Rightarrow> visit \<Rightarrow> row list" where
  "warning_for seen v =
     (case first_seen seen (triple_of v) of
        None \<Rightarrow> []
      | Some firstId \<Rightarrow>
          if firstId \<noteq> adGroupId_of v
          then [duplicate_warning (fst v) (fst (snd v)) (snd (snd v)) firstId]
          else [])"

fun duplicate_warnings :: "visit list \<Rightarrow> visit list \<Rightarrow> row list" where
  "duplicate_warnings seen [] = []"
| "duplicate_warnings seen (v # vs) = warning_for seen v @ duplicate_warnings (seen @ [v]) vs"

definition is_duplicate_warning :: "row \<Rightarrow> bool" where
  "is_duplicate_warning r = (item r = ''Potential Duplicate Keyword (Cross-AdGroup)'')"

text \<open>
  The stored ids agree with what was seen: under every key whose match type has no colon,
  the map holds the id of the ad group in which the triple of the key was seen first.
\<close>

definition map_agrees :: "(string \<times> nat) list \<Rightarrow> visit list \<Rightarrow> bool" where
  "map_agrees m seen =
     (\<forall>c k. CHR '':'' \<notin> set (keyword_getMatchType k) \<longrightarrow>
        map_of m (duplicateKey c k) =
          first_seen seen (campaign_getId c, keyword_getText k, keyword_getMatchType k))"

text \<open>
  A campaign for examples: two ad groups that hold the same exact-match keyword, the first
  of them twice.
\<close>

definition example_red_shoes :: keyword where
  "example_red_shoes = example_keyword ''red shoes'' (Returns None)"

definition example_shoes_group :: adGroup where
  "example_shoes_group = example_adGroup ''Shoes'' 1 2 [example_red_shoes, example_red_shoes]"

definition example_boots_group :: adGroup where
  "example_boots_group = example_adGroup ''Boots'' 2 2 [example_red_shoes]"

definition example_duplicates :: campaign where
  "example_duplicates =
     example_campaign (Returns None) [example_shoes_group, example_boots_group]"

section \<open>Accessor failures inside a module\<close>

text \<open>
  The row the \<open>catch\<close> around the budget records, the rows of severity Error, and
  the campaign whose budget accessor returns \<open>null\<close> in place of what it did.
\<close>

definition budget_warning :: "campaign \<Rightarrow> string \<Rightarrow> row" where
  "budget_warning c budgetError =
     row_of ''Account Structure'' ''Budget Check'' ''Warn''
       (''Could not retrieve budget for campaign '' @ quoted (campaign_getName c) @
        '': '' @ budgetError)
       ''Review budget setting manually.''"

definition is_error :: "row \<Rightarrow> bool" where
  "is_error r = (status r = ''Error'')"

definition budget_null :: "campaign \<Rightarrow> campaign" where
  "budget_null c = c\<lparr>campaign_getBudget := Returns None\<rparr>"

definition structure_start :: structure_counters where
  "structure_start = \<lparr>campaignsChecked = 0, campaignsWithPoorNaming = 0, totalBudget = 0\<rparr>"

text \<open>
  The same for the quality score: the keyword whose accessor returns what the module reads
  from it (\<open>null\<close> when it throws), applied to every keyword the account delivers, and
  the number of visited keywords whose accessor throws.
\<close>

definition io_map :: "('a \<Rightarrow> 'b) \<Rightarrow> 'a io \<Rightarrow> 'b io" where
  "io_map f m = (fst m, map_sum id f (snd m))"

definition qsErrors_added :: "nat \<Rightarrow> keyword_counters \<Rightarrow> keyword_counters" where
  "qsErrors_added n s = s\<lparr>qsErrorCount := qsErrorCount s + n\<rparr>"

definition quality_score_throws :: "keyword \<Rightarrow> bool" where
  "quality_score_throws kw =
     (case keyword_getQualityScore kw of Throws qsError \<Rightarrow> True | Returns v \<Rightarrow> False)"

definition quality_score_null :: "keyword \<Rightarrow> keyword" where
  "quality_score_null kw = kw\<lparr>keyword_getQualityScore := Returns (read_quality_score kw)\<rparr>"

definition adGroup_quality_scores_null :: "adGroup \<Rightarrow> adGroup" where
  "adGroup_quality_scores_null g =
     g\<lparr>adGroup_keywords := map_outcome (map quality_score_null) (adGroup_keywords g)\<rparr>"

definition campaign_quality_scores_null :: "campaign \<Rightarrow> campaign" where
  "campaign_quality_scores_null c =
     c\<lparr>campaign_adGroups :=
         map_outcome (map adGroup_quality_scores_null) (campaign_adGroups c)\<rparr>"

definition account_quality_scores_null :: "account \<Rightarrow> account" where
  "account_quality_scores_null acct =
     acct\<lparr>campaigns_enabled :=
         map_outcome (map campaign_quality_scores_null) (campaigns_enabled acct)\<rparr>"

definition quality_score_failures :: "campaign list \<Rightarrow> nat" where
  "quality_score_failures cs =
     length (filter (\<lambda>v. quality_score_throws (snd (snd v))) (keyword_visits cs))"

text \<open>
  The number of quality score accessors that throw, per keyword, ad group and campaign.
\<close>

definition qs_weight :: "keyword \<Rightarrow> nat" where
  "qs_weight kw = (if quality_score_throws kw then 1 else 0)"

definition adGroup_weight :: "adGroup \<Rightarrow> nat" where
  "adGroup_weight g = sum_list (map qs_weight (keywords_of g))"

definition campaign_weight :: "campaign \<Rightarrow> nat" where
  "campaign_weight c = sum_list (map adGroup_weight (adGroups_of c))"

text \<open>
  The \<open>try\<close> around the negative keywords of an ad group and of a campaign, each as a
  function of its own: the first piece of \<open>keywords_adGroup\<close> and of
  \<open>keywords_campaign\<close>.
\<close>

definition adGroup_negatives :: "campaign \<Rightarrow> adGroup \<Rightarrow> keyword_counters \<Rightarrow> keyword_counters io" where
  "adGroup_negatives c g s =
       (io_try
          (io_bind (io_call (adGroup_negativeKeywords g)) (\<lambda>adGroupNegatives.
           let s1 = s\<lparr>negativeKeywordsAdGroup := negativeKeywordsAdGroup s + adGroupNegatives\<rparr>
           in if adGroupNegatives = 0
              then io_bind
                     (call_addResult ''Keywords'' ''Ad Group Negative Keywords'' ''Warn''
                        (''Ad Group '' @ quoted (adGroup_getName g) @ '' in Campaign '' @
                         quoted (campaign_getName c) @ '' has no negative keywords.'')
                        ''Add ad group-level negatives for fine-tuning.'')
                     (\<lambda>_. io_return s1)
              else io_return s1))
          (\<lambda>negAgError.
             io_bind
               (call_addResult ''Keywords'' ''Ad Group Negative Keywords Check'' ''Error''
                  (''Could not check negatives for ad group '' @ quoted (adGroup_getName g) @
                   '': '' @ negAgError)
                  ''Check permissions.'')
               (\<lambda>_. io_return s)))"

definition campaign_negatives :: "campaign \<Rightarrow> keyword_counters \<Rightarrow> keyword_counters io" where
  "campaign_negatives c s =
       (io_try
          (io_bind (io_call (campaign_negativeKeywords c)) (\<lambda>campaignNegatives.
           let s1 = s\<lparr>negativeKeywordsCampaign := negativeKeywordsCampaign s + campaignNegatives\<rparr>
           in if campaignNegatives = 0
              then io_bind
                     (call_addResult ''Keywords'' ''Campaign Negative Keywords'' ''Warn''
                        (''Campaign '' @ quoted (campaign_getName c) @
                         '' has no direct negative keywords.'')
                        ''Add campaign-level negatives relevant to this campaign (or ensure coverage via lists).'')
                     (\<lambda>_. io_return s1)
              else io_return s1))
          (\<lambda>negError.
             io_bind
               (call_addResult ''Keywords'' ''Campaign Negative Keywords Check'' ''Error''
                  (''Could not check negatives for campaign '' @ quoted (campaign_getName c) @
                   '': '' @ negError)
                  ''Check campaign type/permissions.'')
               (\<lambda>_. io_return s)))"

text \<open>
  An account for examples: one campaign whose budget accessor throws, with one ad group
  and one keyword whose quality score accessor throws.
\<close>

definition example_failing_keyword :: keyword where
  "example_failing_keyword = example_keyword ''red shoes'' (Throws ''QS unavailable'')"

definition example_failing_campaign :: campaign where
  "example_failing_campaign =
     example_campaign (Throws ''No budget'')
       [example_adGroup ''Shoes'' 1 2 [example_failing_keyword]]"

definition example_failing_account :: account where
  "example_failing_account = example_account [example_failing_campaign] [] None"

section \<open>Vocabulary of the claims about main\<close>

text \<open>
  The row of the \<open>catch (e)\<close> at the end of a module; the modules whose body is not
  modelled further, each with its category and its body; the names \<open>main\<close> has entered
  when \<open>auditPerformanceMetrics\<close> is the last function entered; and the globals and
  sheets \<open>initializeSpreadsheet\<close> leaves to \<open>main\<close>.
\<close>

definition general_check_row :: "string \<Rightarrow> string \<Rightarrow> row" where
  "general_check_row cat e =
     row_of cat ''General Check'' ''Error'' (''An error occurred: '' @ e)
       ''Investigate the error.''"

definition wrapped_modules :: "env \<Rightarrow> (string \<times> unit io \<times> unit io) list" where
  "wrapped_modules e =
     [(''Account Settings'', body_of e ''auditAccountSettings'', auditAccountSettings e),
      (''Ad Copy'', body_of e ''auditAdCopy'', auditAdCopy e),
      (''Ad Extensions (Assets)'', body_of e ''auditAdExtensions'', auditAdExtensions e),
      (''Bidding Strategies'', body_of e ''auditBiddingStrategies'', auditBiddingStrategies e),
      (''Quality Score'', body_of e ''auditQualityScore'', auditQualityScore e),
      (''Audience Targeting'', body_of e ''auditAudienceTargeting'', auditAudienceTargeting e),
      (''Campaign Optimization'', body_of e ''auditCampaignOptimization'',
       auditCampaignOptimization e),
      (''Automation & Tools'', body_of e ''auditAutomationTools'', auditAutomationTools e),
      (''Competitive Analysis'', body_of e ''auditCompetitiveAnalysis'',
       auditCompetitiveAnalysis e),
      (''Reporting & Insights'', body_of e ''auditReportingInsights'',
       auditReportingInsights e)]"

definition entered_up_to_performance :: "string list" where
  "entered_up_to_performance =
     [''auditAccountSettings'', ''auditAccountStructure'', ''auditConversionTracking'',
      ''auditKeywords'', ''auditAdGroups'', ''auditAdCopy'', ''auditAdExtensions'',
      ''auditBiddingStrategies'', ''auditQualityScore'', ''auditLandingPages'',
      ''auditAudienceTargeting'', ''auditPerformanceMetrics'']"

definition initial_globals :: "env \<Rightarrow> globals" where
  "initial_globals e = fst (initializeSpreadsheet (services e) fresh_globals)"

definition initial_sheets :: "env \<Rightarrow> spreadsheet" where
  "initial_sheets e = snd (initializeSpreadsheet (services e) fresh_globals)"

text \<open>
  A run for examples in which every data source call and every body throws, and one in
  which everything is delivered and the average cost per click is \<open>null\<close>.
\<close>

definition example_throwing_env :: env where
  "example_throwing_env =
     \<lparr>services = example_sink,
      ads = \<lparr>getCurrencyCode = Throws ''E0'', negativeKeywordLists = Throws ''E1'',
             campaigns_enabled_or_paused = Throws ''E2'', campaigns_enabled = Throws ''E3'',
             adGroups_enabled = Throws ''E4'', getStatsFor = Throws ''E5''\<rparr>,
      body_of = (\<lambda>name. ([], Inl ''E6''))\<rparr>"

definition example_null_cpc_stats :: stats where
  "example_null_cpc_stats =
     \<lparr>getCtr = Returns (Some (1 / 20)), getAverageCpc = Returns None,
      getConversionRate = Returns (Some (1 / 10)), getConversions = Returns (Some 4),
      getCost = Returns (Some 100), getSearchImpressionShare = Returns (Some (1 / 2)),
      getSearchRankLostImpressionShare = Returns (Some (1 / 10)),
      getSearchBudgetLostImpressionShare = Returns (Some (1 / 10))\<rparr>"

definition example_null_cpc_env :: env where
  "example_null_cpc_env =
     \<lparr>services = example_sink,
      ads = example_account [] [] (Some example_null_cpc_stats),
      body_of = (\<lambda>name. io_return ())\<rparr>"

text \<open>
  \<open>initializeSpreadsheet\<close> reaches its \<open>catch\<close>: opening or creating the file throws,
  or an operation on one of the sheets does. And the file it opened has the empty id.
\<close>

definition initialization_throws :: "sink \<Rightarrow> bool" where
  "initialization_throws sk =
     (case open_or_create sk of
        Throws e \<Rightarrow> True
      | Returns f \<Rightarrow>
          fst (provision_sheets (broken_sheets sk) (map fst (getSheets f)) SHEET_NAMES_values
                 (getSheets f) (ALL_RESULTS fresh_globals)) \<noteq> None)"

definition file_id_empty :: "sink \<Rightarrow> bool" where
  "file_id_empty sk =
     (case open_or_create sk of Throws e \<Rightarrow> False | Returns f \<Rightarrow> getId f = [])"

section \<open>Properties of the collector\<close>

lemma getSheetNameForCategory_detail:
  "getSheetNameForCategory cat \<in> set detail_sheets"
  by (simp add: getSheetNameForCategory_def detail_sheets_def)

lemma getSheetNameForCategory_unmapped:
  "cat \<notin> set mapped_categories \<Longrightarrow> getSheetNameForCategory cat = SHEET_NAMES_MANUAL_CHECKS"
  by (simp add: getSheetNameForCategory_def mapped_categories_def)

lemma map_of_update_same: "map_of (AList.update k v al) k = Some v"
  by (simp add: update_conv')

lemma map_of_update_other: "k' \<noteq> k \<Longrightarrow> map_of (AList.update k v al) k' = map_of al k'"
  by (simp add: update_conv')

lemma bucket_update:
  "bucket (AList.update k v res) k' = (if k' = k then v else bucket res k')"
  by (simp add: bucket_def update_conv')

text \<open>What one call does, in closed form: it never takes the failing branch.\<close>

lemma addResult_Inr:
  "addResult cat itm st det rcm g =
     Inr (g\<lparr>ALL_RESULTS :=
              AList.update (getSheetNameForCategory cat)
                (bucket (ALL_RESULTS g) (getSheetNameForCategory cat) @
                   [\<lparr>category = cat, item = itm, status = st, details = det,
                     recommendation = rcm\<rparr>])
                (if map_of (ALL_RESULTS g) (getSheetNameForCategory cat) = None
                 then AList.update (getSheetNameForCategory cat) [] (ALL_RESULTS g)
                 else ALL_RESULTS g),
            CRITICAL_ISSUES :=
              (if st = ''Fail''
               then CRITICAL_ISSUES g @
                      [\<lparr>category = cat, item = itm, status = st, details = det,
                        recommendation = rcm\<rparr>]
               else CRITICAL_ISSUES g)\<rparr>)"
  by (auto simp: addResult_def push_row_def Let_def bucket_def map_of_update_same
           split: option.splits)

lemma addResult_bucket:
  assumes "addResult cat itm st det rcm g = Inr g'"
  shows "bucket (ALL_RESULTS g') k =
           (if k = getSheetNameForCategory cat
            then bucket (ALL_RESULTS g) k @
                   [\<lparr>category = cat, item = itm, status = st, details = det,
                     recommendation = rcm\<rparr>]
            else bucket (ALL_RESULTS g) k)"
proof -
  have "g' = g\<lparr>ALL_RESULTS :=
              AList.update (getSheetNameForCategory cat)
                (bucket (ALL_RESULTS g) (getSheetNameForCategory cat) @
                   [\<lparr>category = cat, item = itm, status = st, details = det,
                     recommendation = rcm\<rparr>])
                (if map_of (ALL_RESULTS g) (getSheetNameForCategory cat) = None
                 then AList.update (getSheetNameForCategory cat) [] (ALL_RESULTS g)
                 else ALL_RESULTS g),
            CRITICAL_ISSUES :=
              (if st = ''Fail''
               then CRITICAL_ISSUES g @
                      [\<lparr>category = cat, item = itm, status = st, details = det,
                        recommendation = rcm\<rparr>]
               else CRITICAL_ISSUES g)\<rparr>"
    using assms by (simp add: addResult_Inr)
  then show ?thesis
    by (simp add: bucket_update)
qed

lemma addResult_critical:
  assumes "addResult cat itm st det rcm g = Inr g'"
  shows "CRITICAL_ISSUES g' =
           CRITICAL_ISSUES g @
             filter is_fail [\<lparr>category = cat, item = itm, status = st, details = det,
                              recommendation = rcm\<rparr>]"
  using assms by (auto simp: addResult_Inr is_fail_def)

lemma addResult_ids:
  assumes "addResult cat itm st det rcm g = Inr g'"
  shows "SPREADSHEET_ID g' = SPREADSHEET_ID g \<and> SPREADSHEET_URL g' = SPREADSHEET_URL g"
  using assms by (auto simp: addResult_Inr)

lemma addResult_total: "\<exists>g'. addResult cat itm st det rcm g = Inr g'"
  by (simp add: addResult_Inr)

lemma row_eta:
  "\<lparr>category = category r, item = item r, status = status r, details = details r,
    recommendation = recommendation r\<rparr> = (r::row)"
  by simp

lemma record_all_total: "\<exists>g'. record_all rs g = Inr g'"
proof (induction rs arbitrary: g)
  case Nil
  show ?case by simp
next
  case (Cons r rs)
  obtain g1 where g1: "addResult (category r) (item r) (status r) (details r)
      (recommendation r) g = Inr g1"
    using addResult_total by blast
  with Cons.IH [of g1] show ?case by simp
qed

lemma record_all_bucket:
  "record_all rs g = Inr g' \<Longrightarrow>
     bucket (ALL_RESULTS g') k = bucket (ALL_RESULTS g) k @ filter (routed_to k) rs"
proof (induction rs arbitrary: g)
  case Nil
  then show ?case by simp
next
  case (Cons r rs)
  obtain g1 where g1: "addResult (category r) (item r) (status r) (details r)
      (recommendation r) g = Inr g1"
    using addResult_total by blast
  with Cons.prems have rest: "record_all rs g1 = Inr g'" by simp
  have "bucket (ALL_RESULTS g1) k = bucket (ALL_RESULTS g) k @ filter (routed_to k) [r]"
    using addResult_bucket [OF g1, of k] by (auto simp: routed_to_def)
  with Cons.IH [OF rest] show ?case by simp
qed

lemma record_all_critical:
  "record_all rs g = Inr g' \<Longrightarrow> CRITICAL_ISSUES g' = CRITICAL_ISSUES g @ filter is_fail rs"
proof (induction rs arbitrary: g)
  case Nil
  then show ?case by simp
next
  case (Cons r rs)
  obtain g1 where g1: "addResult (category r) (item r) (status r) (details r)
      (recommendation r) g = Inr g1"
    using addResult_total by blast
  with Cons.prems have rest: "record_all rs g1 = Inr g'" by simp
  have "CRITICAL_ISSUES g1 = CRITICAL_ISSUES g @ filter is_fail [r]"
    using addResult_critical [OF g1] by (simp add: is_fail_def)
  with Cons.IH [OF rest] show ?case by simp
qed

section \<open>Claims about the collector\<close>

text \<open>
  Claim C3. Routing is total: for every category string \<open>getSheetNameForCategory\<close>
  returns one of the five detail-sheet names, and a category that no \<open>case\<close> label
  names goes to the Manual Checks sheet. \<open>addResult\<close> never fails and never drops a
  finding: from any state of the globals it returns normally, the routed bucket exists
  afterwards and is the old bucket (empty when it did not exist) with the new row appended
  at its end, and every other bucket is unchanged.
\<close>

theorem C3_routing_total_record_never_fails:
  "getSheetNameForCategory cat \<in> set detail_sheets
   \<and> (cat \<notin> set mapped_categories \<longrightarrow>
        getSheetNameForCategory cat = SHEET_NAMES_MANUAL_CHECKS)
   \<and> (\<exists>g'. addResult cat itm st det rcm g = Inr g'
          \<and> map_of (ALL_RESULTS g') (getSheetNameForCategory cat) \<noteq> None
          \<and> bucket (ALL_RESULTS g') (getSheetNameForCategory cat) =
              bucket (ALL_RESULTS g) (getSheetNameForCategory cat) @
                [\<lparr>category = cat, item = itm, status = st, details = det,
                  recommendation = rcm\<rparr>]
          \<and> (\<forall>k. k \<noteq> getSheetNameForCategory cat \<longrightarrow>
                 bucket (ALL_RESULTS g') k = bucket (ALL_RESULTS g) k))"
proof -
  obtain g' where g': "addResult cat itm st det rcm g = Inr g'"
    using addResult_total by blast
  have present: "map_of (ALL_RESULTS g') (getSheetNameForCategory cat) \<noteq> None"
    using g' by (auto simp: addResult_Inr map_of_update_same)
  have routed: "bucket (ALL_RESULTS g') (getSheetNameForCategory cat) =
      bucket (ALL_RESULTS g) (getSheetNameForCategory cat) @
        [\<lparr>category = cat, item = itm, status = st, details = det, recommendation = rcm\<rparr>]"
    using addResult_bucket [OF g', of "getSheetNameForCategory cat"] by simp
  have others: "\<forall>k. k \<noteq> getSheetNameForCategory cat \<longrightarrow>
      bucket (ALL_RESULTS g') k = bucket (ALL_RESULTS g) k"
    using addResult_bucket [OF g'] by simp
  from g' present routed others show ?thesis
    using getSheetNameForCategory_detail getSheetNameForCategory_unmapped by blast
qed

theorem C3_witness:
  "''Shopping Feeds'' \<notin> set mapped_categories
   \<and> getSheetNameForCategory ''Shopping Feeds'' = SHEET_NAMES_MANUAL_CHECKS
   \<and> (\<exists>g'. addResult ''Shopping Feeds'' ''Feed'' ''Warn'' ''d'' ''r'' fresh_globals = Inr g'
          \<and> bucket (ALL_RESULTS g') SHEET_NAMES_MANUAL_CHECKS =
              [\<lparr>category = ''Shopping Feeds'', item = ''Feed'', status = ''Warn'',
                details = ''d'', recommendation = ''r''\<rparr>]
          \<and> bucket (ALL_RESULTS g') SHEET_NAMES_PERFORMANCE = [])"
proof -
  have unmapped: "''Shopping Feeds'' \<notin> set mapped_categories"
    by (simp add: mapped_categories_def)
  have differ: "SHEET_NAMES_PERFORMANCE \<noteq> SHEET_NAMES_MANUAL_CHECKS"
    by (simp add: SHEET_NAMES_PERFORMANCE_def SHEET_NAMES_MANUAL_CHECKS_def)
  have empty: "bucket (ALL_RESULTS fresh_globals) k = []" for k
    by (simp add: fresh_globals_def bucket_def)
  show ?thesis
    using C3_routing_total_record_never_fails
      [of "''Shopping Feeds''" "''Feed''" "''Warn''" "''d''" "''r''" fresh_globals]
      unmapped differ empty
    by auto
qed

text \<open>
  Claim C4. Started with an empty critical list and empty buckets (the fresh globals, or
  the globals as \<open>initializeSpreadsheet\<close> leaves them), after any sequence of
  \<open>addResult\<close> calls \<open>CRITICAL_ISSUES\<close> is exactly the subsequence of the rows
  recorded with status Fail, in the order of the calls and across all categories; every
  bucket is the subsequence of the rows routed to it, so every Fail row is also in the
  bucket of its own category.
\<close>

theorem C4_critical_digest:
  assumes "CRITICAL_ISSUES g = []" and "\<forall>k. bucket (ALL_RESULTS g) k = []"
  shows "\<exists>g'. record_all rs g = Inr g'
           \<and> CRITICAL_ISSUES g' = filter is_fail rs
           \<and> (\<forall>k. bucket (ALL_RESULTS g') k = filter (routed_to k) rs)
           \<and> (\<forall>r \<in> set rs. is_fail r \<longrightarrow>
                 r \<in> set (bucket (ALL_RESULTS g') (getSheetNameForCategory (category r))))"
proof -
  obtain g' where g': "record_all rs g = Inr g'"
    using record_all_total by blast
  have crit: "CRITICAL_ISSUES g' = filter is_fail rs"
    using record_all_critical [OF g'] assms(1) by simp
  have buckets: "\<forall>k. bucket (ALL_RESULTS g') k = filter (routed_to k) rs"
    using record_all_bucket [OF g'] assms(2) by simp
  have "\<forall>r \<in> set rs. r \<in> set (bucket (ALL_RESULTS g') (getSheetNameForCategory (category r)))"
    using buckets by (simp add: routed_to_def)
  with g' crit buckets show ?thesis by blast
qed

theorem C4_witness:
  "CRITICAL_ISSUES fresh_globals = [] \<and> (\<forall>k. bucket (ALL_RESULTS fresh_globals) k = [])
   \<and> (\<exists>g'. record_all
              [\<lparr>category = ''Keywords'', item = ''a'', status = ''Fail'', details = ''d'',
                recommendation = ''r''\<rparr>,
               \<lparr>category = ''Ad Copy'', item = ''b'', status = ''Pass'', details = ''d'',
                recommendation = ''r''\<rparr>,
               \<lparr>category = ''Ad Copy'', item = ''c'', status = ''Fail'', details = ''d'',
                recommendation = ''r''\<rparr>] fresh_globals = Inr g'
          \<and> CRITICAL_ISSUES g' =
              [\<lparr>category = ''Keywords'', item = ''a'', status = ''Fail'', details = ''d'',
                recommendation = ''r''\<rparr>,
               \<lparr>category = ''Ad Copy'', item = ''c'', status = ''Fail'', details = ''d'',
                recommendation = ''r''\<rparr>]
          \<and> \<lparr>category = ''Ad Copy'', item = ''c'', status = ''Fail'', details = ''d'',
                recommendation = ''r''\<rparr>
              \<in> set (bucket (ALL_RESULTS g') SHEET_NAMES_ADS_EXTENSIONS))"
proof -
  have c: "CRITICAL_ISSUES fresh_globals = []"
    by (simp add: fresh_globals_def)
  have b: "\<forall>k. bucket (ALL_RESULTS fresh_globals) k = []"
    by (simp add: fresh_globals_def bucket_def)
  have route: "getSheetNameForCategory ''Ad Copy'' = SHEET_NAMES_ADS_EXTENSIONS"
    by (simp add: getSheetNameForCategory_def)
  show ?thesis
    using C4_critical_digest [OF c b, of
      "[\<lparr>category = ''Keywords'', item = ''a'', status = ''Fail'', details = ''d'',
                recommendation = ''r''\<rparr>,
               \<lparr>category = ''Ad Copy'', item = ''b'', status = ''Pass'', details = ''d'',
                recommendation = ''r''\<rparr>,
               \<lparr>category = ''Ad Copy'', item = ''c'', status = ''Fail'', details = ''d'',
                recommendation = ''r''\<rparr>]"] c b route
    by (auto simp: is_fail_def)
qed

section \<open>The Overview counts\<close>

lemma count_rows_eq:
  "count_rows rs c =
     \<lparr>fails = fails c + count_status ''Fail'' rs, warns = warns c + count_status ''Warn'' rs\<rparr>"
  by (induction rs arbitrary: c) (simp_all add: count_status_def)

lemma count_sheet_failCount:
  "failCount (count_sheet res n acc) = failCount acc + count_status ''Fail'' (bucket res n)"
  by (simp add: count_sheet_def bucket_def count_rows_eq count_status_def Let_def
           split: option.splits)

lemma count_sheet_warnCount:
  "warnCount (count_sheet res n acc) = warnCount acc + count_status ''Warn'' (bucket res n)"
  by (simp add: count_sheet_def bucket_def count_rows_eq count_status_def Let_def
           split: option.splits)

lemma fold_count_sheet_failCount:
  "failCount (fold (count_sheet res) ns acc) =
     failCount acc + sum_list (map (\<lambda>n. count_status ''Fail'' (bucket res n)) ns)"
  by (induction ns arbitrary: acc) (simp_all add: count_sheet_failCount)

lemma fold_count_sheet_warnCount:
  "warnCount (fold (count_sheet res) ns acc) =
     warnCount acc + sum_list (map (\<lambda>n. count_status ''Warn'' (bucket res n)) ns)"
  by (induction ns arbitrary: acc) (simp_all add: count_sheet_warnCount)

lemma count_sheet_issueCounts:
  "map_of (issueCounts (count_sheet res n acc)) k =
     (if k = n \<and> has_issues res n
      then Some \<lparr>fails = count_status ''Fail'' (bucket res n),
                 warns = count_status ''Warn'' (bucket res n)\<rparr>
      else map_of (issueCounts acc) k)"
  by (auto simp: count_sheet_def bucket_def count_rows_eq has_issues_def Let_def update_conv'
                 count_status_def
           split: option.splits)

lemma fold_count_sheet_issueCounts:
  "map_of (issueCounts (fold (count_sheet res) ns acc)) k =
     (if k \<in> set ns \<and> has_issues res k
      then Some \<lparr>fails = count_status ''Fail'' (bucket res k),
                 warns = count_status ''Warn'' (bucket res k)\<rparr>
      else map_of (issueCounts acc) k)"
  by (induction ns arbitrary: acc) (auto simp: count_sheet_issueCounts)

lemma issue_rows_names:
  "map hd (concat (map (issue_row counts) ns)) =
     map Text (filter (\<lambda>n. map_of counts n \<noteq> None) ns)"
  by (induction ns) (auto simp: issue_row_def split: option.splits)

lemma count_status_concat:
  "count_status s (concat xss) = sum_list (map (count_status s) xss)"
  by (induction xss) (simp_all add: count_status_def)

lemma snd_by_bucket:
  "distinct (map fst res) \<Longrightarrow> map snd res = map (bucket res) (map fst res)"
proof (induction res)
  case Nil
  then show ?case by simp
next
  case (Cons p res)
  obtain k v where p: "p = (k, v)" by (cases p)
  from Cons.prems p have fresh: "k \<notin> set (map fst res)" and d: "distinct (map fst res)"
    by simp_all
  have "map (bucket (p # res)) (map fst res) = map (bucket res) (map fst res)"
  proof (rule map_cong [OF refl])
    fix k' assume "k' \<in> set (map fst res)"
    with fresh have "k' \<noteq> k" by blast
    then show "bucket (p # res) k' = bucket res k'"
      by (simp add: bucket_def p)
  qed
  moreover have "bucket (p # res) k = v"
    by (simp add: bucket_def p)
  ultimately show ?case
    using Cons.IH [OF d] by (simp add: p)
qed

lemma indicator_sum:
  "distinct ks \<Longrightarrow> a \<in> set ks \<Longrightarrow>
     (\<Sum>k\<leftarrow>ks. if a = k \<and> Q then 1 else 0) = (if Q then 1 else (0::nat))"
  by (induction ks) (auto simp: sum_list_0)

lemma count_partition:
  assumes "distinct ks" and "\<forall>r \<in> set rs. f r \<in> set ks"
  shows "(\<Sum>k\<leftarrow>ks. length (filter P (filter (\<lambda>r. f r = k) rs))) = length (filter P rs)"
  using assms(2)
proof (induction rs)
  case Nil
  then show ?case by (simp add: sum_list_0)
next
  case (Cons r rs)
  have "(\<Sum>k\<leftarrow>ks. length (filter P (filter (\<lambda>r. f r = k) (r # rs)))) =
        (\<Sum>k\<leftarrow>ks. (if f r = k \<and> P r then 1 else 0)
                   + length (filter P (filter (\<lambda>r. f r = k) rs)))"
    by (rule arg_cong [where f = sum_list], rule map_cong) auto
  also have "\<dots> = (\<Sum>k\<leftarrow>ks. if f r = k \<and> P r then 1 else 0)
                  + (\<Sum>k\<leftarrow>ks. length (filter P (filter (\<lambda>r. f r = k) rs)))"
    by (simp add: sum_list_addf)
  also have "\<dots> = (if P r then 1 else 0) + length (filter P rs)"
    using Cons indicator_sum [OF assms(1), of "f r" "P r"] by simp
  finally show ?case by simp
qed

lemma update_keys_present:
  "k \<in> set (map fst al) \<Longrightarrow> map fst (AList.update k v al) = map fst al"
  by (simp add: update_keys)

lemma provision_sheets_results:
  "provision_sheets broken ex ns ss res = (None, ss', res') \<Longrightarrow>
     res' = fold (\<lambda>n. AList.update n []) ns res"
  by (induction ns arbitrary: ss res) (auto split: if_splits)

lemma init_ok_globals:
  assumes "initializeSpreadsheet sk fresh_globals = (g0, ss)" and "\<not> no_spreadsheet g0"
  shows "ALL_RESULTS g0 = map (\<lambda>n. (n, [])) SHEET_NAMES_values \<and> CRITICAL_ISSUES g0 = []"
proof (cases "open_or_create sk")
  case (Throws e)
  with assms show ?thesis
    by (auto simp: initializeSpreadsheet_def init_failed_def no_spreadsheet_def)
next
  case (Returns f)
  obtain err ss' res where p: "provision_sheets (broken_sheets sk) (map fst (getSheets f))
      SHEET_NAMES_values (getSheets f) (ALL_RESULTS fresh_globals) = (err, ss', res)"
    by (cases "provision_sheets (broken_sheets sk) (map fst (getSheets f))
      SHEET_NAMES_values (getSheets f) (ALL_RESULTS fresh_globals)") auto
  show ?thesis
  proof (cases err)
    case (Some e)
    with assms Returns p show ?thesis
      by (auto simp: initializeSpreadsheet_def init_failed_def no_spreadsheet_def)
  next
    case None
    with p have "res = fold (\<lambda>n. AList.update n []) SHEET_NAMES_values (ALL_RESULTS fresh_globals)"
      using provision_sheets_results by blast
    then have res: "res = map (\<lambda>n. (n, [])) SHEET_NAMES_values"
      by (simp add: fresh_globals_def SHEET_NAMES_values_def SHEET_NAMES_OVERVIEW_def
          SHEET_NAMES_PERFORMANCE_def SHEET_NAMES_STRUCTURE_SETTINGS_def
          SHEET_NAMES_KEYWORDS_ADGROUPS_def SHEET_NAMES_ADS_EXTENSIONS_def
          SHEET_NAMES_MANUAL_CHECKS_def)
    from assms(1) Returns p None have "g0 = fresh_globals\<lparr>SPREADSHEET_URL := Some (getUrl f),
        SPREADSHEET_ID := Some (getId f), ALL_RESULTS := res\<rparr>"
      by (simp add: initializeSpreadsheet_def)
    with res show ?thesis
      by (simp add: fresh_globals_def)
  qed
qed

lemma addResult_keys:
  assumes "addResult cat itm st det rcm g = Inr g'"
    and "set detail_sheets \<subseteq> set (map fst (ALL_RESULTS g))"
  shows "map fst (ALL_RESULTS g') = map fst (ALL_RESULTS g)"
proof -
  have k: "getSheetNameForCategory cat \<in> fst ` set (ALL_RESULTS g)"
    using assms(2) getSheetNameForCategory_detail by auto
  then have present: "map_of (ALL_RESULTS g) (getSheetNameForCategory cat) \<noteq> None"
    by (simp add: map_of_eq_None_iff)
  have "ALL_RESULTS g' = AList.update (getSheetNameForCategory cat)
          (bucket (ALL_RESULTS g) (getSheetNameForCategory cat) @
             [\<lparr>category = cat, item = itm, status = st, details = det,
               recommendation = rcm\<rparr>]) (ALL_RESULTS g)"
    using assms(1) present by (auto simp: addResult_Inr)
  then show ?thesis
    using k by (simp add: update_keys)
qed

lemma record_all_keys:
  "record_all rs g = Inr g' \<Longrightarrow> set detail_sheets \<subseteq> set (map fst (ALL_RESULTS g)) \<Longrightarrow>
     map fst (ALL_RESULTS g') = map fst (ALL_RESULTS g)"
proof (induction rs arbitrary: g)
  case Nil
  then show ?case by simp
next
  case (Cons r rs)
  obtain g1 where g1: "addResult (category r) (item r) (status r) (details r)
      (recommendation r) g = Inr g1"
    using addResult_total by blast
  with Cons.prems have rest: "record_all rs g1 = Inr g'" by simp
  have keys: "map fst (ALL_RESULTS g1) = map fst (ALL_RESULTS g)"
    using addResult_keys [OF g1 Cons.prems(2)] .
  with Cons.IH [OF rest] Cons.prems(2) show ?case by simp
qed

lemma bucket_of_empty_buckets: "bucket (map (\<lambda>n. (n, [])) ns) k = []"
  by (induction ns) (simp_all add: bucket_def)

lemma is_fail_eq: "is_fail = (\<lambda>r. status r = ''Fail'')"
  by (rule ext) (simp add: is_fail_def)

lemma sheet_names_distinct: "distinct SHEET_NAMES_values"
  by (simp add: SHEET_NAMES_values_def SHEET_NAMES_OVERVIEW_def
          SHEET_NAMES_PERFORMANCE_def SHEET_NAMES_STRUCTURE_SETTINGS_def
          SHEET_NAMES_KEYWORDS_ADGROUPS_def SHEET_NAMES_ADS_EXTENSIONS_def
          SHEET_NAMES_MANUAL_CHECKS_def)

lemma sheet_names_split: "SHEET_NAMES_values = SHEET_NAMES_OVERVIEW # sheetOrder"
  by (simp add: SHEET_NAMES_values_def sheetOrder_def)

lemma sheetOrder_detail: "sheetOrder = detail_sheets"
  by (simp add: sheetOrder_def detail_sheets_def)

lemma never_routed_to_overview: "getSheetNameForCategory cat \<noteq> SHEET_NAMES_OVERVIEW"
  using getSheetNameForCategory_detail [of cat] sheet_names_distinct
  by (auto simp: sheet_names_split sheetOrder_detail)

lemma routed_partition:
  "(\<Sum>k\<leftarrow>sheetOrder. count_status s (filter (routed_to k) rs)) = count_status s rs"
proof -
  have d: "distinct sheetOrder"
    using sheet_names_distinct by (simp add: sheet_names_split)
  have m: "\<forall>r \<in> set rs. getSheetNameForCategory (category r) \<in> set sheetOrder"
    using getSheetNameForCategory_detail by (simp add: sheetOrder_detail)
  show ?thesis
    using count_partition [OF d m, of "\<lambda>r. status r = s"]
    by (simp add: count_status_def routed_to_def)
qed

text \<open>The collector in a run: a successful initialisation, then any calls.\<close>

lemma run_collector:
  assumes "initializeSpreadsheet sk fresh_globals = (g0, ss)" and "\<not> no_spreadsheet g0"
    and "record_all calls g0 = Inr g"
  shows "map fst (ALL_RESULTS g) = SHEET_NAMES_values"
    and "bucket (ALL_RESULTS g) k = filter (routed_to k) calls"
    and "CRITICAL_ISSUES g = filter is_fail calls"
    and "all_rows (ALL_RESULTS g) = concat (map (\<lambda>k. filter (routed_to k) calls) sheetOrder)"
proof -
  have g0: "ALL_RESULTS g0 = map (\<lambda>n. (n, [])) SHEET_NAMES_values" "CRITICAL_ISSUES g0 = []"
    using init_ok_globals [OF assms(1,2)] by simp_all
  have keys0: "map fst (ALL_RESULTS g0) = SHEET_NAMES_values"
    by (simp add: g0 comp_def)
  then have sub: "set detail_sheets \<subseteq> set (map fst (ALL_RESULTS g0))"
    by (auto simp: sheet_names_split sheetOrder_detail)
  show keys: "map fst (ALL_RESULTS g) = SHEET_NAMES_values"
    using record_all_keys [OF assms(3) sub] keys0 by simp
  show b: "bucket (ALL_RESULTS g) k = filter (routed_to k) calls" for k
    using record_all_bucket [OF assms(3), of k] by (simp add: g0 bucket_of_empty_buckets)
  show "CRITICAL_ISSUES g = filter is_fail calls"
    using record_all_critical [OF assms(3)] by (simp add: g0)
  have "distinct (map fst (ALL_RESULTS g))"
    using keys sheet_names_distinct by simp
  then have "all_rows (ALL_RESULTS g) =
      concat (map (bucket (ALL_RESULTS g)) SHEET_NAMES_values)"
    using snd_by_bucket [of "ALL_RESULTS g"] keys by (simp add: all_rows_def)
  also have "\<dots> = concat (map (\<lambda>k. filter (routed_to k) calls) SHEET_NAMES_values)"
  proof -
    have "bucket (ALL_RESULTS g) = (\<lambda>k. filter (routed_to k) calls)"
      by (rule ext) (rule b)
    then show ?thesis by simp
  qed
  also have "\<dots> = concat (map (\<lambda>k. filter (routed_to k) calls) sheetOrder)"
    using never_routed_to_overview by (simp add: sheet_names_split routed_to_def)
  finally show "all_rows (ALL_RESULTS g) =
      concat (map (\<lambda>k. filter (routed_to k) calls) sheetOrder)" .
qed

text \<open>
  Claim C1. In every run that gets past the initialisation (a fresh script, a spreadsheet
  id that is not empty), whatever calls to \<open>addResult\<close> the modules make: the
  \<open>failCount\<close> that \<open>populateOverviewSheet\<close> computes and writes into the row
  "Total Critical Issues (Fail)" is the number of rows with status Fail over all buckets of
  \<open>ALL_RESULTS\<close>, which is the number of recorded calls with status Fail, and it is
  the length of \<open>CRITICAL_ISSUES\<close>.
\<close>

theorem C1_aggregation_consistency:
  assumes "initializeSpreadsheet sk fresh_globals = (g0, ss)" and "\<not> no_spreadsheet g0"
  shows "\<exists>g. record_all calls g0 = Inr g
           \<and> failCount (overview_summary (ALL_RESULTS g)) =
               count_status ''Fail'' (all_rows (ALL_RESULTS g))
           \<and> count_status ''Fail'' (all_rows (ALL_RESULTS g)) = count_status ''Fail'' calls
           \<and> failCount (overview_summary (ALL_RESULTS g)) = length (CRITICAL_ISSUES g)
           \<and> overview_rows g ! 1 =
               [Text ''Total Critical Issues (Fail)'',
                Number (failCount (overview_summary (ALL_RESULTS g))),
                Text (''Review items marked '' @ quoted ''Fail'' @
                      '' below and in respective sheets.'')]"
proof -
  obtain g where g: "record_all calls g0 = Inr g"
    using record_all_total by blast
  note run = run_collector [OF assms g]
  have fc: "failCount (overview_summary (ALL_RESULTS g)) =
      (\<Sum>k\<leftarrow>sheetOrder. count_status ''Fail'' (filter (routed_to k) calls))"
    by (simp add: overview_summary_def fold_count_sheet_failCount run(2))
  have ar: "count_status ''Fail'' (all_rows (ALL_RESULTS g)) =
      (\<Sum>k\<leftarrow>sheetOrder. count_status ''Fail'' (filter (routed_to k) calls))"
    by (simp add: run(4) count_status_concat comp_def)
  have crit: "length (CRITICAL_ISSUES g) = count_status ''Fail'' calls"
    by (simp add: run(3) count_status_def is_fail_eq)
  have row: "overview_rows g ! 1 =
      [Text ''Total Critical Issues (Fail)'',
       Number (failCount (overview_summary (ALL_RESULTS g))),
       Text (''Review items marked '' @ quoted ''Fail'' @
             '' below and in respective sheets.'')]"
    by (simp add: overview_rows_def Let_def)
  from g fc ar crit row show ?thesis
    by (simp add: routed_partition)
qed

lemma issue_rows_filter:
  assumes "\<forall>n \<in> set ns. map_of counts n = (if P n then Some (c n) else None)"
  shows "concat (map (issue_row counts) ns) =
           map (\<lambda>n. [Text n,
                      Text (''Fails: '' @ show_nat (fails (c n)) @ '', Warns: '' @
                            show_nat (warns (c n))),
                      Text (''See '' @ quoted n @ '' sheet for details.'')])
               (filter P ns)"
  using assms by (induction ns) (simp_all add: issue_row_def)

lemma summary_issueCounts:
  "map_of (issueCounts (overview_summary res)) n =
     (if n \<in> set sheetOrder \<and> has_issues res n
      then Some \<lparr>fails = count_status ''Fail'' (bucket res n),
                 warns = count_status ''Warn'' (bucket res n)\<rparr>
      else None)"
  by (simp add: overview_summary_def fold_count_sheet_issueCounts)

lemma summary_issue_rows:
  "issue_rows (issueCounts (overview_summary res)) =
     map (\<lambda>n. [Text n,
                Text (''Fails: '' @ show_nat (count_status ''Fail'' (bucket res n)) @
                      '', Warns: '' @ show_nat (count_status ''Warn'' (bucket res n))),
                Text (''See '' @ quoted n @ '' sheet for details.'')])
         (filter (has_issues res) sheetOrder)"
proof -
  have "\<forall>n \<in> set sheetOrder. map_of (issueCounts (overview_summary res)) n =
      (if has_issues res n
       then Some \<lparr>fails = count_status ''Fail'' (bucket res n),
                  warns = count_status ''Warn'' (bucket res n)\<rparr>
       else None)"
    by (simp add: summary_issueCounts)
  from issue_rows_filter [OF this] show ?thesis
    by (simp add: issue_rows_def)
qed

text \<open>
  Claim C7. \<open>sheetOrder\<close> is the fixed list Performance Summary, Structure & Settings,
  Keywords & AdGroups, Ads & Extensions, Opportunities & Manual Checks. For any content of
  \<open>ALL_RESULTS\<close>, whatever the order of its keys, the rows of the Overview after
  the four fixed summary rows are one issue-count row for each sheet of \<open>sheetOrder\<close>
  that has a Fail or a Warn row, in the order of \<open>sheetOrder\<close>, followed by the
  spacer and the critical issues. \<open>failCount\<close> and \<open>warnCount\<close> are the sums
  of the per-sheet counts; a sheet with no Fail and no Warn row adds zero to both and has
  no issue-count row.
\<close>

theorem C7_summary_order_and_omission:
  "sheetOrder = [''Performance Summary'', ''Structure & Settings'', ''Keywords & AdGroups'',
                 ''Ads & Extensions'', ''Opportunities & Manual Checks'']
   \<and> overview_rows g =
       take 4 (overview_rows g)
       @ map (\<lambda>n. [Text n,
                    Text (''Fails: '' @ show_nat (count_status ''Fail'' (bucket (ALL_RESULTS g) n))
                          @ '', Warns: '' @
                          show_nat (count_status ''Warn'' (bucket (ALL_RESULTS g) n))),
                    Text (''See '' @ quoted n @ '' sheet for details.'')])
             (filter (has_issues (ALL_RESULTS g)) sheetOrder)
       @ [[Text [], Text [], Text []],
          [Text ''--- CRITICAL ISSUES (FAIL) ---'', Text [], Text []]]
       @ critical_rows (CRITICAL_ISSUES g)
   \<and> failCount (overview_summary (ALL_RESULTS g)) =
       (\<Sum>n\<leftarrow>sheetOrder. count_status ''Fail'' (bucket (ALL_RESULTS g) n))
   \<and> warnCount (overview_summary (ALL_RESULTS g)) =
       (\<Sum>n\<leftarrow>sheetOrder. count_status ''Warn'' (bucket (ALL_RESULTS g) n))
   \<and> (\<forall>n. \<not> has_issues (ALL_RESULTS g) n \<longrightarrow>
          count_status ''Fail'' (bucket (ALL_RESULTS g) n) = 0
          \<and> count_status ''Warn'' (bucket (ALL_RESULTS g) n) = 0
          \<and> n \<notin> set (filter (has_issues (ALL_RESULTS g)) sheetOrder))"
proof -
  have order: "sheetOrder = [''Performance Summary'', ''Structure & Settings'',
      ''Keywords & AdGroups'', ''Ads & Extensions'', ''Opportunities & Manual Checks'']"
    by (simp add: sheetOrder_def SHEET_NAMES_PERFORMANCE_def SHEET_NAMES_STRUCTURE_SETTINGS_def
          SHEET_NAMES_KEYWORDS_ADGROUPS_def SHEET_NAMES_ADS_EXTENSIONS_def
          SHEET_NAMES_MANUAL_CHECKS_def)
  have rows: "overview_rows g =
       take 4 (overview_rows g)
       @ issue_rows (issueCounts (overview_summary (ALL_RESULTS g)))
       @ [[Text [], Text [], Text []],
          [Text ''--- CRITICAL ISSUES (FAIL) ---'', Text [], Text []]]
       @ critical_rows (CRITICAL_ISSUES g)"
    by (simp add: overview_rows_def Let_def)
  have fc: "failCount (overview_summary (ALL_RESULTS g)) =
       (\<Sum>n\<leftarrow>sheetOrder. count_status ''Fail'' (bucket (ALL_RESULTS g) n))"
    by (simp add: overview_summary_def fold_count_sheet_failCount)
  have wc: "warnCount (overview_summary (ALL_RESULTS g)) =
       (\<Sum>n\<leftarrow>sheetOrder. count_status ''Warn'' (bucket (ALL_RESULTS g) n))"
    by (simp add: overview_summary_def fold_count_sheet_warnCount)
  have omit: "\<forall>n. \<not> has_issues (ALL_RESULTS g) n \<longrightarrow>
          count_status ''Fail'' (bucket (ALL_RESULTS g) n) = 0
          \<and> count_status ''Warn'' (bucket (ALL_RESULTS g) n) = 0
          \<and> n \<notin> set (filter (has_issues (ALL_RESULTS g)) sheetOrder)"
    by (simp add: has_issues_def)
  from order rows fc wc omit show ?thesis
    unfolding summary_issue_rows by blast
qed

lemma provision_sheets_unbroken:
  "provision_sheets [] ex ns ss res =
     (None, fold (provision_sheet ex) ns ss, fold (\<lambda>n. AList.update n []) ns res)"
  by (induction ns arbitrary: ss res) simp_all

lemma init_succeeds:
  assumes "open_or_create sk = Returns f" and "broken_sheets sk = []"
  shows "initializeSpreadsheet sk g =
           (g\<lparr>SPREADSHEET_URL := Some (getUrl f), SPREADSHEET_ID := Some (getId f),
               ALL_RESULTS := fold (\<lambda>n. AList.update n []) SHEET_NAMES_values (ALL_RESULTS g)\<rparr>,
            fold (provision_sheet (map fst (getSheets f))) SHEET_NAMES_values (getSheets f))"
  using assms by (simp add: initializeSpreadsheet_def provision_sheets_unbroken)

lemma example_sink_opens:
  "open_or_create example_sink =
     Returns (example_file\<lparr>getSheets := rename_Sheet1 (getSheets example_file)\<rparr>)"
  by (simp add: open_or_create_def example_sink_def)

lemma example_init:
  "\<not> no_spreadsheet (fst (initializeSpreadsheet example_sink fresh_globals))"
  using init_succeeds [OF example_sink_opens, of fresh_globals]
  by (simp add: example_sink_def no_spreadsheet_def example_file_def)

theorem C1_witness:
  "\<not> no_spreadsheet (fst (initializeSpreadsheet example_sink fresh_globals))
   \<and> (\<exists>g. record_all [example_row ''Keywords'' ''Fail'', example_row ''Ad Copy'' ''Warn'',
                        example_row ''Landing Pages'' ''Fail'']
             (fst (initializeSpreadsheet example_sink fresh_globals)) = Inr g
          \<and> failCount (overview_summary (ALL_RESULTS g)) = 2
          \<and> count_status ''Fail'' (all_rows (ALL_RESULTS g)) = 2
          \<and> length (CRITICAL_ISSUES g) = 2)"
proof -
  have i: "initializeSpreadsheet example_sink fresh_globals =
      (fst (initializeSpreadsheet example_sink fresh_globals),
       snd (initializeSpreadsheet example_sink fresh_globals))"
    by simp
  have c: "count_status ''Fail'' [example_row ''Keywords'' ''Fail'',
      example_row ''Ad Copy'' ''Warn'', example_row ''Landing Pages'' ''Fail''] = 2"
    by (simp add: count_status_def example_row_def)
  show ?thesis
    using C1_aggregation_consistency [OF i example_init, of
      "[example_row ''Keywords'' ''Fail'', example_row ''Ad Copy'' ''Warn'',
        example_row ''Landing Pages'' ''Fail'']"] example_init c
    by auto
qed

lemma example_globals_issues:
  "filter (has_issues (ALL_RESULTS example_globals)) sheetOrder =
     [SHEET_NAMES_PERFORMANCE, SHEET_NAMES_MANUAL_CHECKS]"
  by (simp add: example_globals_def has_issues_def sheetOrder_def bucket_def count_status_def
        example_row_def SHEET_NAMES_PERFORMANCE_def SHEET_NAMES_STRUCTURE_SETTINGS_def
        SHEET_NAMES_KEYWORDS_ADGROUPS_def SHEET_NAMES_ADS_EXTENSIONS_def
        SHEET_NAMES_MANUAL_CHECKS_def)

lemma example_globals_keywords:
  "\<not> has_issues (ALL_RESULTS example_globals) SHEET_NAMES_KEYWORDS_ADGROUPS"
  by (simp add: example_globals_def has_issues_def bucket_def count_status_def
        example_row_def SHEET_NAMES_PERFORMANCE_def SHEET_NAMES_KEYWORDS_ADGROUPS_def
        SHEET_NAMES_MANUAL_CHECKS_def)

theorem C7_witness:
  "\<not> has_issues (ALL_RESULTS example_globals) SHEET_NAMES_KEYWORDS_ADGROUPS
   \<and> count_status ''Fail'' (bucket (ALL_RESULTS example_globals) SHEET_NAMES_KEYWORDS_ADGROUPS) = 0
   \<and> SHEET_NAMES_KEYWORDS_ADGROUPS
        \<notin> set (filter (has_issues (ALL_RESULTS example_globals)) sheetOrder)
   \<and> filter (has_issues (ALL_RESULTS example_globals)) sheetOrder =
        [SHEET_NAMES_PERFORMANCE, SHEET_NAMES_MANUAL_CHECKS]"
  using C7_summary_order_and_omission [of example_globals]
    example_globals_keywords example_globals_issues
  by blast


section \<open>auditAdGroups\<close>

section \<open>Running a module: evaluation rules\<close>

lemma io_bind_Inr [simp]:
  "io_bind (rows, Inr x) f = (case f x of (rows', r) \<Rightarrow> (rows @ rows', r))"
  by (simp add: io_bind_def)

lemma io_bind_Inl [simp]: "io_bind (rows, Inl e) f = (rows, Inl e)"
  by (simp add: io_bind_def)

lemma io_try_Inr [simp]: "io_try (rows, Inr x) h = (rows, Inr x)"
  by (simp add: io_try_def)

lemma io_try_Inl [simp]:
  "io_try (rows, Inl e) h = (case h e of (rows', r) \<Rightarrow> (rows @ rows', r))"
  by (simp add: io_try_def)

lemma io_call_Throws [simp]: "io_call (Throws e) = ([], Inl e)"
  by (simp add: io_call_def io_throw_def)

lemma io_call_Returns [simp]: "io_call (Returns v) = ([], Inr v)"
  by (simp add: io_call_def io_return_def)

lemmas io_unfold = io_return_def io_throw_def call_addResult_def

text \<open>A piece that ends normally, as a pair.\<close>

lemma io_ok: "snd m = Inr x \<Longrightarrow> m = (fst m, Inr x)"
  by (cases m) simp

lemma io_failed: "snd m = Inl e \<Longrightarrow> m = (fst m, Inl e)"
  by (cases m) simp

text \<open>The texts of a row play no part in most proofs: do not simplify inside them.\<close>

lemma row_of_cong:
  "c = c' \<Longrightarrow> i = i' \<Longrightarrow> s = s' \<Longrightarrow> row_of c i s d r = row_of c' i' s' d r"
  by simp

lemma call_addResult_cong:
  "c = c' \<Longrightarrow> i = i' \<Longrightarrow> s = s' \<Longrightarrow>
     call_addResult c i s d r = call_addResult c' i' s' d r"
  by simp

lemmas text_cong = row_of_cong call_addResult_cong

lemma is_fail_row_of [simp]: "is_fail (row_of c i s d r) = (s = ''Fail'')"
  by (simp add: is_fail_def row_of_def)

lemma is_ad_count_pass_row_of [simp]:
  "is_ad_count_pass (row_of c i s d r) = (i = ''Ad Count'' \<and> s = ''Pass'')"
  by (simp add: is_ad_count_pass_def row_of_def)

lemma row_of_sel [simp]:
  "category (row_of c i s d r) = c" "item (row_of c i s d r) = i"
  "status (row_of c i s d r) = s" "details (row_of c i s d r) = d"
  "recommendation (row_of c i s d r) = r"
  by (simp_all add: row_of_def)

lemma keyword_count_check_state:
  "snd (keyword_count_check s g) =
     Inr (case adGroup_keywords g of
            Throws e \<Rightarrow> s
          | Returns ks \<Rightarrow>
              if length ks > CONFIG_MAX_KEYWORDS_PER_ADGROUP
              then s\<lparr>adGroupsWithHighKeywordCount := adGroupsWithHighKeywordCount s + 1\<rparr>
              else s)"
  by (cases "adGroup_keywords g"; cases "adGroup_channelType g"; cases "adGroup_isDynamic g")
     (simp_all add: keyword_count_check_def Let_def io_unfold cong: text_cong)

lemma keyword_count_check_no_fail:
  "filter is_fail (fst (keyword_count_check s g)) = []"
  by (cases "adGroup_keywords g"; cases "adGroup_channelType g"; cases "adGroup_isDynamic g")
     (simp_all add: keyword_count_check_def Let_def io_unfold cong: text_cong)

lemma keyword_count_check_no_pass:
  "filter is_ad_count_pass (fst (keyword_count_check s g)) = []"
  by (cases "adGroup_keywords g"; cases "adGroup_channelType g"; cases "adGroup_isDynamic g")
     (simp_all add: keyword_count_check_def Let_def io_unfold cong: text_cong)

lemma ad_count_check_state:
  "snd (ad_count_check s g) =
     Inr (if low_ad_count g
          then s\<lparr>adGroupsWithLowAdCount := adGroupsWithLowAdCount s + 1\<rparr> else s)"
  by (cases "adGroup_ads g")
     (simp_all add: ad_count_check_def low_ad_count_def io_unfold cong: text_cong)

lemma ad_count_fail_row_of:
  "ad_count_fail g n =
     row_of ''Ad Groups'' ''Ad Count'' ''Fail''
       (adGroup_label g @ '' has '' @ show_nat n @ '' enabled ads (<'' @
        show_nat CONFIG_MIN_ADS_PER_ADGROUP @ '').'')
       (''Create at least '' @ show_nat CONFIG_MIN_ADS_PER_ADGROUP @
        '' relevant ads per ad group for testing and optimization.'')"
  by (simp add: ad_count_fail_def row_of_def)

lemma ad_count_check_fail:
  "filter is_fail (fst (ad_count_check s g)) = low_ad_count_rows g"
  by (cases "adGroup_ads g")
     (simp_all add: ad_count_check_def low_ad_count_rows_def ad_count_fail_row_of io_unfold
        cong: text_cong)

lemma ad_count_check_no_pass:
  "filter is_ad_count_pass (fst (ad_count_check s g)) = []"
  by (cases "adGroup_ads g")
     (simp_all add: ad_count_check_def io_unfold cong: text_cong)

text \<open>One round of the loop of \<open>auditAdGroups\<close>.\<close>

lemma adGroups_adGroup_step:
  "\<exists>rows s'. adGroups_adGroup s g = (rows, Inr s')
        \<and> adGroupsChecked s' = adGroupsChecked s + 1
        \<and> adGroupsWithLowAdCount s' =
            adGroupsWithLowAdCount s + (if low_ad_count g then 1 else 0)
        \<and> filter is_fail rows = low_ad_count_rows g
        \<and> filter is_ad_count_pass rows = []"
proof -
  define s1 where "s1 = s\<lparr>adGroupsChecked := adGroupsChecked s + 1\<rparr>"
  obtain s2 where s2: "snd (keyword_count_check s1 g) = Inr s2"
    and s2c: "adGroupsChecked s2 = adGroupsChecked s1"
             "adGroupsWithLowAdCount s2 = adGroupsWithLowAdCount s1"
    using keyword_count_check_state [of s1 g]
    by (cases "adGroup_keywords g") (auto split: if_splits)
  define rows2 where "rows2 = fst (keyword_count_check s1 g)"
  have kcc: "keyword_count_check s1 g = (rows2, Inr s2)"
    using io_ok [OF s2] by (simp add: rows2_def)
  have rows2: "filter is_fail rows2 = []" "filter is_ad_count_pass rows2 = []"
    by (simp_all add: rows2_def keyword_count_check_no_fail keyword_count_check_no_pass)
  obtain s3 where s3: "snd (ad_count_check s2 g) = Inr s3"
    and s3c: "adGroupsChecked s3 = adGroupsChecked s2"
             "adGroupsWithLowAdCount s3 =
                adGroupsWithLowAdCount s2 + (if low_ad_count g then 1 else 0)"
    using ad_count_check_state [of s2 g] by auto
  define rows3 where "rows3 = fst (ad_count_check s2 g)"
  have acc: "ad_count_check s2 g = (rows3, Inr s3)"
    using io_ok [OF s3] by (simp add: rows3_def)
  have rows3: "filter is_fail rows3 = low_ad_count_rows g" "filter is_ad_count_pass rows3 = []"
    by (simp_all add: rows3_def ad_count_check_fail ad_count_check_no_pass)
  have unfold: "adGroups_adGroup s g =
      io_bind (keyword_count_check s1 g) (\<lambda>s2.
      io_bind (ad_count_check s2 g) (\<lambda>s3.
      io_bind
        (if \<not> ADGROUP_NAMING_CONVENTION_test (adGroup_getName g)
         then io_bind
                (call_addResult ''Ad Groups'' ''Ad Group Naming'' ''Warn''
                   (adGroup_label g @ '' doesn'' @ [CHR 0x27] @ ''t match pattern: '' @
                    ADGROUP_NAMING_CONVENTION_source)
                   ''Standardize ad group naming.'')
                (\<lambda>_. io_return (s3\<lparr>adGroupsWithPoorNaming := adGroupsWithPoorNaming s3 + 1\<rparr>))
         else io_return s3)
        (\<lambda>s4.
           io_bind
             (call_addResult ''Ad Groups'' ''Ad Group Bids'' ''Info''
                (adGroup_label g @ '' Bid: '' @ adGroup_bid_text g)
                ''Ensure bids align with performance goals and bidding strategy.'')
             (\<lambda>_. io_return s4))))"
    unfolding adGroups_adGroup_def Let_def s1_def by (rule refl)
  have counters: "adGroupsChecked s3 = adGroupsChecked s + 1"
      "adGroupsWithLowAdCount s3 =
         adGroupsWithLowAdCount s + (if low_ad_count g then 1 else 0)"
    using s2c s3c by (simp_all add: s1_def)
  show ?thesis
    using counters rows2 rows3
    by (simp add: unfold kcc acc io_unfold cong: text_cong)
qed

text \<open>The loop of \<open>auditAdGroups\<close>.\<close>

lemma adGroups_loop:
  "\<exists>rows s'. io_foreach adGroups_adGroup gs s = (rows, Inr s')
        \<and> adGroupsChecked s' = adGroupsChecked s + length gs
        \<and> adGroupsWithLowAdCount s' = adGroupsWithLowAdCount s + length (filter low_ad_count gs)
        \<and> filter is_fail rows = concat (map low_ad_count_rows gs)
        \<and> filter is_ad_count_pass rows = []"
proof (induction gs arbitrary: s)
  case Nil
  show ?case by (simp add: io_unfold)
next
  case (Cons g gs)
  obtain rows1 s1 where step: "adGroups_adGroup s g = (rows1, Inr s1)"
    and c1: "adGroupsChecked s1 = adGroupsChecked s + 1"
      "adGroupsWithLowAdCount s1 = adGroupsWithLowAdCount s + (if low_ad_count g then 1 else 0)"
    and r1: "filter is_fail rows1 = low_ad_count_rows g" "filter is_ad_count_pass rows1 = []"
    using adGroups_adGroup_step [of s g] by blast
  obtain rows2 s2 where rest: "io_foreach adGroups_adGroup gs s1 = (rows2, Inr s2)"
    and c2: "adGroupsChecked s2 = adGroupsChecked s1 + length gs"
      "adGroupsWithLowAdCount s2 = adGroupsWithLowAdCount s1 + length (filter low_ad_count gs)"
    and r2: "filter is_fail rows2 = concat (map low_ad_count_rows gs)"
      "filter is_ad_count_pass rows2 = []"
    using Cons.IH [of s1] by blast
  show ?case
    using c1 c2 r1 r2 by (simp add: step rest)
qed

lemma ad_count_pass_props [simp]:
  "\<not> is_fail (ad_count_pass n)" "is_ad_count_pass (ad_count_pass n)"
  by (simp_all add: ad_count_pass_def is_fail_def is_ad_count_pass_def)

lemma adGroups_summary_result:
  "snd (adGroups_summary s) = Inr ()"
  "filter is_fail (fst (adGroups_summary s)) = []"
  "filter is_ad_count_pass (fst (adGroups_summary s)) =
     (if adGroupsChecked s > 0 \<and> adGroupsWithLowAdCount s = 0
      then [ad_count_pass (adGroupsChecked s)] else [])"
  by (cases "adGroupsChecked s > 0"; cases "adGroupsWithLowAdCount s = 0";
      cases "adGroupsWithHighKeywordCount s = 0"; cases "adGroupsWithPoorNaming s = 0";
      simp add: adGroups_summary_def io_unfold cong: text_cong)+

text \<open>The module, when its iterator delivers the ad groups \<open>gs\<close>.\<close>

lemma auditAdGroups_result:
  assumes "adGroups_enabled acct = Returns gs"
  shows "snd (auditAdGroups acct) = Inr ()"
    and "filter is_fail (fst (auditAdGroups acct)) = concat (map low_ad_count_rows gs)"
    and "filter is_ad_count_pass (fst (auditAdGroups acct)) =
           (if gs \<noteq> [] \<and> filter low_ad_count gs = [] then [ad_count_pass (length gs)] else [])"
proof -
  define s0 where "s0 = \<lparr>adGroupsChecked = 0, adGroupsWithLowAdCount = 0,
              adGroupsWithHighKeywordCount = 0, adGroupsWithPoorNaming = 0\<rparr>"
  obtain rows s' where loop: "io_foreach adGroups_adGroup gs s0 = (rows, Inr s')"
    and c: "adGroupsChecked s' = adGroupsChecked s0 + length gs"
      "adGroupsWithLowAdCount s' = adGroupsWithLowAdCount s0 + length (filter low_ad_count gs)"
    and r: "filter is_fail rows = concat (map low_ad_count_rows gs)"
      "filter is_ad_count_pass rows = []"
    using adGroups_loop [of gs s0] by blast
  have c': "adGroupsChecked s' = length gs"
      "adGroupsWithLowAdCount s' = length (filter low_ad_count gs)"
    using c by (simp_all add: s0_def)
  obtain srows where summ: "adGroups_summary s' = (srows, Inr ())"
    using io_ok [OF adGroups_summary_result(1) [of s']] by blast
  have sr: "filter is_fail srows = []"
      "filter is_ad_count_pass srows =
         (if adGroupsChecked s' > 0 \<and> adGroupsWithLowAdCount s' = 0
          then [ad_count_pass (adGroupsChecked s')] else [])"
    using adGroups_summary_result(2,3) [of s'] by (simp_all add: summ)
  have run: "auditAdGroups acct = (rows @ srows, Inr ())"
    by (simp add: auditAdGroups_def assms s0_def [symmetric] loop summ)
  show "snd (auditAdGroups acct) = Inr ()"
    by (simp add: run)
  show "filter is_fail (fst (auditAdGroups acct)) = concat (map low_ad_count_rows gs)"
    by (simp add: run r sr)
  show "filter is_ad_count_pass (fst (auditAdGroups acct)) =
           (if gs \<noteq> [] \<and> filter low_ad_count gs = [] then [ad_count_pass (length gs)] else [])"
    by (simp add: run r sr c')
qed




section \<open>auditKeywords: the duplicate check\<close>

section \<open>Printing whole numbers\<close>

lemma digit_char_neq_colon: "d < 10 \<Longrightarrow> digit_char d \<noteq> CHR '':''"
proof
  assume d: "d < 10" and e: "digit_char d = CHR '':''"
  from e have "of_char (digit_char d) = (of_char (CHR '':'') :: nat)" by simp
  with d show False by (simp add: digit_char_def)
qed

lemma digit_char_inj: "a < 10 \<Longrightarrow> b < 10 \<Longrightarrow> digit_char a = digit_char b \<Longrightarrow> a = b"
proof -
  assume a: "a < 10" and b: "b < 10" and e: "digit_char a = digit_char b"
  from e have "of_char (digit_char a) = (of_char (digit_char b) :: nat)" by simp
  with a b show ?thesis by (simp add: digit_char_def)
qed

lemma show_nat_no_colon: "CHR '':'' \<notin> set (show_nat n)"
proof (induction n rule: show_nat.induct)
  case (1 n)
  show ?case
  proof (cases "n < 10")
    case True
    then show ?thesis
      using digit_char_neq_colon [of n] by (subst show_nat.simps) auto
  next
    case False
    have "n mod 10 < 10" by simp
    then have "digit_char (n mod 10) \<noteq> CHR '':''" by (rule digit_char_neq_colon)
    with False "1.IH" show ?thesis
      by (subst show_nat.simps) auto
  qed
qed

lemma show_nat_nonempty: "show_nat n \<noteq> []"
  by (subst show_nat.simps) simp

lemma show_nat_inj: "show_nat m = show_nat n \<Longrightarrow> m = n"
proof (induction m arbitrary: n rule: show_nat.induct)
  case (1 m)
  show ?case
  proof (cases "m < 10")
    case m: True
    show ?thesis
    proof (cases "n < 10")
      case True
      with m "1.prems" show ?thesis
        by (simp add: show_nat.simps [of m] show_nat.simps [of n] digit_char_inj)
    next
      case False
      with m "1.prems" show_nat_nonempty [of "n div 10"] show ?thesis
        by (simp add: show_nat.simps [of m] show_nat.simps [of n] Cons_eq_append_conv)
    qed
  next
    case m: False
    show ?thesis
    proof (cases "n < 10")
      case True
      with m "1.prems" show_nat_nonempty [of "m div 10"] show ?thesis
        by (simp add: show_nat.simps [of m] show_nat.simps [of n] append_eq_Cons_conv)
    next
      case False
      with m "1.prems" have e: "show_nat (m div 10) = show_nat (n div 10)"
        and d: "digit_char (m mod 10) = digit_char (n mod 10)"
        by (simp_all add: show_nat.simps [of m] show_nat.simps [of n])
      from "1.IH" [OF m e] have q: "m div 10 = n div 10" .
      have "m mod 10 = n mod 10"
        using d by (intro digit_char_inj) simp_all
      with q show ?thesis
        by (metis div_mult_mod_eq)
    qed
  qed
qed

lemma split_at_first:
  assumes "x \<notin> set a" and "x \<notin> set a'" and "a @ x # r = a' @ x # r'"
  shows "a = a' \<and> r = r'"
proof -
  have "takeWhile (\<lambda>c. c \<noteq> x) (a @ x # r) = a"
    using assms(1) by (subst takeWhile_append2) auto
  moreover have "takeWhile (\<lambda>c. c \<noteq> x) (a' @ x # r') = a'"
    using assms(2) by (subst takeWhile_append2) auto
  ultimately have "a = a'" using assms(3) by simp
  with assms(3) show ?thesis by simp
qed

lemma split_at_last:
  assumes "x \<notin> set m" and "x \<notin> set m'" and "t @ x # m = t' @ x # m'"
  shows "t = t' \<and> m = m'"
proof -
  from assms(3) have "rev m @ x # rev t = rev m' @ x # rev t'"
    by (metis rev.simps(2) rev_append append_assoc append_Cons append_Nil)
  then have "rev m = rev m' \<and> rev t = rev t'"
    using assms(1,2) by (intro split_at_first [where x = x]) simp_all
  then show ?thesis by simp
qed

lemma duplicateKey_inj:
  assumes "CHR '':'' \<notin> set (keyword_getMatchType k)"
    and "CHR '':'' \<notin> set (keyword_getMatchType k')"
  shows "duplicateKey c k = duplicateKey c' k' \<longleftrightarrow>
           campaign_getId c = campaign_getId c' \<and> keyword_getText k = keyword_getText k'
           \<and> keyword_getMatchType k = keyword_getMatchType k'"
proof
  assume e: "duplicateKey c k = duplicateKey c' k'"
  then have "show_nat (campaign_getId c) @ CHR '':'' #
               (keyword_getText k @ CHR '':'' # keyword_getMatchType k) =
             show_nat (campaign_getId c') @ CHR '':'' #
               (keyword_getText k' @ CHR '':'' # keyword_getMatchType k')"
    by (simp add: duplicateKey_def)
  from split_at_first [OF show_nat_no_colon show_nat_no_colon this]
  have i: "show_nat (campaign_getId c) = show_nat (campaign_getId c')"
    and r: "keyword_getText k @ CHR '':'' # keyword_getMatchType k =
            keyword_getText k' @ CHR '':'' # keyword_getMatchType k'"
    by simp_all
  from split_at_last [OF assms r] show_nat_inj [OF i]
  show "campaign_getId c = campaign_getId c' \<and> keyword_getText k = keyword_getText k'
           \<and> keyword_getMatchType k = keyword_getMatchType k'"
    by simp
next
  assume "campaign_getId c = campaign_getId c' \<and> keyword_getText k = keyword_getText k'
           \<and> keyword_getMatchType k = keyword_getMatchType k'"
  then show "duplicateKey c k = duplicateKey c' k'"
    by (simp add: duplicateKey_def)
qed

section \<open>The duplicate check of auditKeywords\<close>

lemma is_duplicate_warning_row_of [simp]:
  "is_duplicate_warning (row_of c i s d r) = (i = ''Potential Duplicate Keyword (Cross-AdGroup)'')"
  by (simp add: is_duplicate_warning_def)

lemma is_duplicate_warning_duplicate_warning [simp]:
  "is_duplicate_warning (duplicate_warning c g k a)"
  by (simp add: is_duplicate_warning_def duplicate_warning_def)

lemma keyword_tally_map [simp]:
  "duplicateKeywordMap (keyword_tally s kw) = duplicateKeywordMap s"
  by (cases "keyword_getQualityScore kw") (simp_all add: keyword_tally_def Let_def)

lemma low_quality_check_result:
  "\<exists>rows s'. low_quality_check g s kw = (rows, Inr s')
      \<and> duplicateKeywordMap s' = duplicateKeywordMap s
      \<and> filter is_duplicate_warning rows = []"
proof (cases "read_quality_score kw")
  case None
  then show ?thesis by (simp add: low_quality_check_def io_unfold)
next
  case (Some q)
  then show ?thesis
    by (cases "q < CONFIG_MIN_QUALITY_SCORE")
       (simp_all add: low_quality_check_def io_unfold cong: text_cong)
qed

lemma first_seen_append:
  "first_seen (seen @ [v]) t =
     (case first_seen seen t of
        Some a \<Rightarrow> Some a
      | None \<Rightarrow> if triple_of v = t then Some (adGroupId_of v) else None)"
  by (simp add: first_seen_def split: list.splits)

lemma first_seen_positive:
  "\<forall>u \<in> set seen. well_formed u \<Longrightarrow> first_seen seen t = Some a \<Longrightarrow> 0 < a"
proof -
  assume wf: "\<forall>u \<in> set seen. well_formed u" and f: "first_seen seen t = Some a"
  then obtain u rest where u: "filter (\<lambda>u. triple_of u = t) seen = u # rest"
    and a: "a = adGroupId_of u"
    by (auto simp: first_seen_def split: list.splits)
  from u have "u \<in> set (filter (\<lambda>u. triple_of u = t) seen)" by simp
  then have "u \<in> set seen" by simp
  with wf a show "0 < a" by (simp add: well_formed_def)
qed

lemma duplicate_check_result:
  assumes inv: "map_agrees (duplicateKeywordMap s) seen"
    and wf: "well_formed (c, g, k)"
    and wfs: "\<forall>u \<in> set seen. well_formed u"
  shows "\<exists>rows s'. duplicate_check c g s k = (rows, Inr s')
      \<and> filter is_duplicate_warning rows = warning_for seen (c, g, k)
      \<and> map_agrees (duplicateKeywordMap s') (seen @ [(c, g, k)])"
proof -
  have colon: "CHR '':'' \<notin> set (keyword_getMatchType k)" and pos: "0 < adGroup_getId g"
    using wf by (simp_all add: well_formed_def adGroupId_of_def)
  have stored: "map_of (duplicateKeywordMap s) (duplicateKey c k) =
      first_seen seen (triple_of (c, g, k))"
    using inv colon by (simp add: map_agrees_def triple_of_def)
  show ?thesis
  proof (cases "first_seen seen (triple_of (c, g, k))")
    case None
    have agrees: "map_agrees (AList.update (duplicateKey c k) (adGroup_getId g)
        (duplicateKeywordMap s)) (seen @ [(c, g, k)])"
      unfolding map_agrees_def
    proof (intro allI impI)
      fix c' :: campaign and k' :: keyword
      assume c': "CHR '':'' \<notin> set (keyword_getMatchType k')"
      have old: "map_of (duplicateKeywordMap s) (duplicateKey c' k') =
          first_seen seen (campaign_getId c', keyword_getText k', keyword_getMatchType k')"
        using inv c' by (simp add: map_agrees_def)
      show "map_of (AList.update (duplicateKey c k) (adGroup_getId g) (duplicateKeywordMap s))
              (duplicateKey c' k') =
            first_seen (seen @ [(c, g, k)])
              (campaign_getId c', keyword_getText k', keyword_getMatchType k')"
      proof (cases "duplicateKey c' k' = duplicateKey c k")
        case True
        then have same: "(campaign_getId c', keyword_getText k', keyword_getMatchType k') =
            triple_of (c, g, k)"
          using duplicateKey_inj [OF c' colon] by (simp add: triple_of_def)
        show ?thesis
          using True None same
          by (simp add: update_conv' first_seen_append adGroupId_of_def)
      next
        case False
        then have differ: "triple_of (c, g, k) \<noteq>
            (campaign_getId c', keyword_getText k', keyword_getMatchType k')"
          using duplicateKey_inj [OF c' colon] by (auto simp: triple_of_def)
        show ?thesis
          using False old differ
          by (simp add: update_conv' first_seen_append split: option.splits)
      qed
    qed
    show ?thesis
      using stored None agrees
      by (simp add: duplicate_check_def Let_def io_unfold warning_for_def)
  next
    case (Some a)
    have a: "0 < a" using first_seen_positive [OF wfs Some] .
    have agrees: "map_agrees (duplicateKeywordMap s) (seen @ [(c, g, k)])"
      unfolding map_agrees_def
    proof (intro allI impI)
      fix c' :: campaign and k' :: keyword
      assume c': "CHR '':'' \<notin> set (keyword_getMatchType k')"
      have old: "map_of (duplicateKeywordMap s) (duplicateKey c' k') =
          first_seen seen (campaign_getId c', keyword_getText k', keyword_getMatchType k')"
        using inv c' by (simp add: map_agrees_def)
      show "map_of (duplicateKeywordMap s) (duplicateKey c' k') =
            first_seen (seen @ [(c, g, k)])
              (campaign_getId c', keyword_getText k', keyword_getMatchType k')"
      proof (cases "first_seen seen
          (campaign_getId c', keyword_getText k', keyword_getMatchType k')")
        case None
        with Some have "triple_of (c, g, k) \<noteq>
            (campaign_getId c', keyword_getText k', keyword_getMatchType k')"
          by auto
        with None old show ?thesis by (simp add: first_seen_append)
      next
        case (Some b)
        with old show ?thesis by (simp add: first_seen_append)
      qed
    qed
    show ?thesis
      using stored Some a agrees
      by (cases "a = adGroup_getId g")
         (simp_all add: duplicate_check_def Let_def io_unfold warning_for_def adGroupId_of_def)
  qed
qed

lemma keywords_keyword_step:
  assumes inv: "map_agrees (duplicateKeywordMap s) seen"
    and wf: "well_formed (c, g, k)"
    and wfs: "\<forall>u \<in> set seen. well_formed u"
  shows "\<exists>rows s'. keywords_keyword c g s k = (rows, Inr s')
      \<and> filter is_duplicate_warning rows = warning_for seen (c, g, k)
      \<and> map_agrees (duplicateKeywordMap s') (seen @ [(c, g, k)])"
proof -
  obtain rows1 s5 where q: "low_quality_check g (keyword_tally s k) k = (rows1, Inr s5)"
    and m5: "duplicateKeywordMap s5 = duplicateKeywordMap s"
    and r1: "filter is_duplicate_warning rows1 = []"
    using low_quality_check_result [of g "keyword_tally s k" k] by auto
  from inv m5 have inv5: "map_agrees (duplicateKeywordMap s5) seen" by simp
  obtain rows2 s6 where d: "duplicate_check c g s5 k = (rows2, Inr s6)"
    and r2: "filter is_duplicate_warning rows2 = warning_for seen (c, g, k)"
    and m6: "map_agrees (duplicateKeywordMap s6) (seen @ [(c, g, k)])"
    using duplicate_check_result [OF inv5 wf wfs] by blast
  show ?thesis
    using r1 r2 m6 by (simp add: keywords_keyword_def q d io_unfold cong: text_cong)
qed

lemma duplicate_warnings_append:
  "duplicate_warnings seen (xs @ ys) =
     duplicate_warnings seen xs @ duplicate_warnings (seen @ xs) ys"
  by (induction xs arbitrary: seen) simp_all

text \<open>The loop over the keywords of an ad group.\<close>

lemma keywords_loop:
  assumes "map_agrees (duplicateKeywordMap s) seen"
    and "\<forall>k \<in> set ks. well_formed (c, g, k)"
    and "\<forall>u \<in> set seen. well_formed u"
  shows "\<exists>rows s'. io_foreach (keywords_keyword c g) ks s = (rows, Inr s')
      \<and> filter is_duplicate_warning rows = duplicate_warnings seen (map (\<lambda>k. (c, g, k)) ks)
      \<and> map_agrees (duplicateKeywordMap s') (seen @ map (\<lambda>k. (c, g, k)) ks)"
  using assms
proof (induction ks arbitrary: s seen)
  case Nil
  then show ?case by (simp add: io_unfold)
next
  case (Cons k ks)
  from Cons.prems(2) have wf: "well_formed (c, g, k)"
    and wfr: "\<forall>k \<in> set ks. well_formed (c, g, k)" by simp_all
  obtain rows1 s1 where step: "keywords_keyword c g s k = (rows1, Inr s1)"
    and r1: "filter is_duplicate_warning rows1 = warning_for seen (c, g, k)"
    and m1: "map_agrees (duplicateKeywordMap s1) (seen @ [(c, g, k)])"
    using keywords_keyword_step [OF Cons.prems(1) wf Cons.prems(3)] by blast
  have wfs: "\<forall>u \<in> set (seen @ [(c, g, k)]). well_formed u"
    using Cons.prems(3) wf by simp
  obtain rows2 s2 where rest: "io_foreach (keywords_keyword c g) ks s1 = (rows2, Inr s2)"
    and r2: "filter is_duplicate_warning rows2 =
        duplicate_warnings (seen @ [(c, g, k)]) (map (\<lambda>k. (c, g, k)) ks)"
    and m2: "map_agrees (duplicateKeywordMap s2)
        ((seen @ [(c, g, k)]) @ map (\<lambda>k. (c, g, k)) ks)"
    using Cons.IH [OF m1 wfr wfs] by blast
  show ?case
    using r1 r2 m2 by (simp add: step rest)
qed

text \<open>The negative keyword checks leave the map alone and record no duplicate warning.\<close>

lemma adGroup_negatives_result:
  "\<exists>rows s'.
      io_try
        (io_bind (io_call (adGroup_negativeKeywords g)) (\<lambda>adGroupNegatives.
         let s1 = s\<lparr>negativeKeywordsAdGroup := negativeKeywordsAdGroup s + adGroupNegatives\<rparr>
         in if adGroupNegatives = 0
            then io_bind
                   (call_addResult ''Keywords'' ''Ad Group Negative Keywords'' ''Warn'' d1 r1)
                   (\<lambda>_. io_return s1)
            else io_return s1))
        (\<lambda>negAgError.
           io_bind
             (call_addResult ''Keywords'' ''Ad Group Negative Keywords Check'' ''Error''
                (d2 negAgError) r2)
             (\<lambda>_. io_return s)) = (rows, Inr s')
      \<and> duplicateKeywordMap s' = duplicateKeywordMap s
      \<and> filter is_duplicate_warning rows = []"
proof (cases "adGroup_negativeKeywords g")
  case (Throws e)
  then show ?thesis by (simp add: io_unfold cong: text_cong)
next
  case (Returns n)
  then show ?thesis by (cases "n = 0") (simp_all add: io_unfold Let_def cong: text_cong)
qed

lemma keywords_adGroup_step:
  assumes inv: "map_agrees (duplicateKeywordMap s) seen"
    and ks: "adGroup_keywords g = Returns ks"
    and wf: "\<forall>v \<in> set (adGroup_visits c g). well_formed v"
    and wfs: "\<forall>u \<in> set seen. well_formed u"
  shows "\<exists>rows s'. keywords_adGroup c s g = (rows, Inr s')
      \<and> filter is_duplicate_warning rows = duplicate_warnings seen (adGroup_visits c g)
      \<and> map_agrees (duplicateKeywordMap s') (seen @ adGroup_visits c g)"
proof -
  have visits: "adGroup_visits c g = map (\<lambda>k. (c, g, k)) ks"
    by (simp add: adGroup_visits_def keywords_of_def ks)
  obtain rows1 s2 where neg: "io_try
        (io_bind (io_call (adGroup_negativeKeywords g)) (\<lambda>adGroupNegatives.
         let s1 = s\<lparr>negativeKeywordsAdGroup := negativeKeywordsAdGroup s + adGroupNegatives\<rparr>
         in if adGroupNegatives = 0
            then io_bind
                   (call_addResult ''Keywords'' ''Ad Group Negative Keywords'' ''Warn''
                      (''Ad Group '' @ quoted (adGroup_getName g) @ '' in Campaign '' @
                       quoted (campaign_getName c) @ '' has no negative keywords.'')
                      ''Add ad group-level negatives for fine-tuning.'')
                   (\<lambda>_. io_return s1)
            else io_return s1))
        (\<lambda>negAgError.
           io_bind
             (call_addResult ''Keywords'' ''Ad Group Negative Keywords Check'' ''Error''
                (''Could not check negatives for ad group '' @ quoted (adGroup_getName g) @
                 '': '' @ negAgError)
                ''Check permissions.'')
             (\<lambda>_. io_return s)) = (rows1, Inr s2)"
    and m2: "duplicateKeywordMap s2 = duplicateKeywordMap s"
    and r1: "filter is_duplicate_warning rows1 = []"
    using adGroup_negatives_result [of g s _ _ "\<lambda>e. ''Could not check negatives for ad group ''
        @ quoted (adGroup_getName g) @ '': '' @ e"]
    by blast
  from inv m2 have inv2: "map_agrees (duplicateKeywordMap s2) seen" by simp
  have wfk: "\<forall>k \<in> set ks. well_formed (c, g, k)"
    using wf by (simp add: visits)
  obtain rows2 s3 where loop: "io_foreach (keywords_keyword c g) ks s2 = (rows2, Inr s3)"
    and r2: "filter is_duplicate_warning rows2 =
        duplicate_warnings seen (map (\<lambda>k. (c, g, k)) ks)"
    and m3: "map_agrees (duplicateKeywordMap s3) (seen @ map (\<lambda>k. (c, g, k)) ks)"
    using keywords_loop [OF inv2 wfk wfs] by blast
  have "keywords_adGroup c s g = (rows1 @ rows2, Inr s3)"
    unfolding keywords_adGroup_def neg by (simp add: ks loop)
  with r1 r2 m3 show ?thesis by (simp add: visits)
qed

text \<open>The loop over the ad groups of a campaign.\<close>

lemma keywords_adGroups_loop:
  assumes "map_agrees (duplicateKeywordMap s) seen"
    and "list_all (\<lambda>g. case adGroup_keywords g of Throws e \<Rightarrow> False | Returns ks \<Rightarrow> True) gs"
    and "\<forall>v \<in> set (concat (map (adGroup_visits c) gs)). well_formed v"
    and "\<forall>u \<in> set seen. well_formed u"
  shows "\<exists>rows s'. io_foreach (keywords_adGroup c) gs s = (rows, Inr s')
      \<and> filter is_duplicate_warning rows =
          duplicate_warnings seen (concat (map (adGroup_visits c) gs))
      \<and> map_agrees (duplicateKeywordMap s') (seen @ concat (map (adGroup_visits c) gs))"
  using assms
proof (induction gs arbitrary: s seen)
  case Nil
  then show ?case by (simp add: io_unfold)
next
  case (Cons g gs)
  from Cons.prems(2) obtain ks where ks: "adGroup_keywords g = Returns ks"
    and rest_ok: "list_all (\<lambda>g. case adGroup_keywords g of Throws e \<Rightarrow> False
        | Returns ks \<Rightarrow> True) gs"
    by (cases "adGroup_keywords g") simp_all
  from Cons.prems(3) have wf: "\<forall>v \<in> set (adGroup_visits c g). well_formed v"
    and wfr: "\<forall>v \<in> set (concat (map (adGroup_visits c) gs)). well_formed v"
    by simp_all
  obtain rows1 s1 where step: "keywords_adGroup c s g = (rows1, Inr s1)"
    and r1: "filter is_duplicate_warning rows1 = duplicate_warnings seen (adGroup_visits c g)"
    and m1: "map_agrees (duplicateKeywordMap s1) (seen @ adGroup_visits c g)"
    using keywords_adGroup_step [OF Cons.prems(1) ks wf Cons.prems(4)] by blast
  have wfs: "\<forall>u \<in> set (seen @ adGroup_visits c g). well_formed u"
    using Cons.prems(4) wf by auto
  obtain rows2 s2 where rest: "io_foreach (keywords_adGroup c) gs s1 = (rows2, Inr s2)"
    and r2: "filter is_duplicate_warning rows2 =
        duplicate_warnings (seen @ adGroup_visits c g) (concat (map (adGroup_visits c) gs))"
    and m2: "map_agrees (duplicateKeywordMap s2)
        ((seen @ adGroup_visits c g) @ concat (map (adGroup_visits c) gs))"
    using Cons.IH [OF m1 rest_ok wfr wfs] by blast
  show ?case
    using r1 r2 m2 by (simp add: step rest duplicate_warnings_append)
qed

lemma campaign_negatives_result:
  "\<exists>rows s'.
      io_try
        (io_bind (io_call (campaign_negativeKeywords c)) (\<lambda>campaignNegatives.
         let s1 = s\<lparr>negativeKeywordsCampaign := negativeKeywordsCampaign s + campaignNegatives\<rparr>
         in if campaignNegatives = 0
            then io_bind
                   (call_addResult ''Keywords'' ''Campaign Negative Keywords'' ''Warn'' d1 r1)
                   (\<lambda>_. io_return s1)
            else io_return s1))
        (\<lambda>negError.
           io_bind
             (call_addResult ''Keywords'' ''Campaign Negative Keywords Check'' ''Error''
                (d2 negError) r2)
             (\<lambda>_. io_return s)) = (rows, Inr s')
      \<and> duplicateKeywordMap s' = duplicateKeywordMap s
      \<and> filter is_duplicate_warning rows = []"
proof (cases "campaign_negativeKeywords c")
  case (Throws e)
  then show ?thesis by (simp add: io_unfold cong: text_cong)
next
  case (Returns n)
  then show ?thesis by (cases "n = 0") (simp_all add: io_unfold Let_def cong: text_cong)
qed

lemma keywords_campaign_step:
  assumes inv: "map_agrees (duplicateKeywordMap s) seen"
    and ok: "iterators_deliver [c]"
    and wf: "\<forall>v \<in> set (campaign_visits c). well_formed v"
    and wfs: "\<forall>u \<in> set seen. well_formed u"
  shows "\<exists>rows s'. keywords_campaign s c = (rows, Inr s')
      \<and> filter is_duplicate_warning rows = duplicate_warnings seen (campaign_visits c)
      \<and> map_agrees (duplicateKeywordMap s') (seen @ campaign_visits c)"
proof -
  from ok obtain gs where gs: "campaign_adGroups c = Returns gs"
    and gs_ok: "list_all (\<lambda>g. case adGroup_keywords g of Throws e \<Rightarrow> False
        | Returns ks \<Rightarrow> True) gs"
    by (cases "campaign_adGroups c") (simp_all add: iterators_deliver_def)
  have visits: "campaign_visits c = concat (map (adGroup_visits c) gs)"
    by (simp add: campaign_visits_def adGroups_of_def gs)
  obtain rows1 s2 where neg: "io_try
        (io_bind (io_call (campaign_negativeKeywords c)) (\<lambda>campaignNegatives.
         let s1 = s\<lparr>negativeKeywordsCampaign := negativeKeywordsCampaign s + campaignNegatives\<rparr>
         in if campaignNegatives = 0
            then io_bind
                   (call_addResult ''Keywords'' ''Campaign Negative Keywords'' ''Warn''
                      (''Campaign '' @ quoted (campaign_getName c) @
                       '' has no direct negative keywords.'')
                      ''Add campaign-level negatives relevant to this campaign (or ensure coverage via lists).'')
                   (\<lambda>_. io_return s1)
            else io_return s1))
        (\<lambda>negError.
           io_bind
             (call_addResult ''Keywords'' ''Campaign Negative Keywords Check'' ''Error''
                (''Could not check negatives for campaign '' @ quoted (campaign_getName c) @
                 '': '' @ negError)
                ''Check campaign type/permissions.'')
             (\<lambda>_. io_return s)) = (rows1, Inr s2)"
    and m2: "duplicateKeywordMap s2 = duplicateKeywordMap s"
    and r1: "filter is_duplicate_warning rows1 = []"
    using campaign_negatives_result [of c s _ _ "\<lambda>e. ''Could not check negatives for campaign ''
        @ quoted (campaign_getName c) @ '': '' @ e"]
    by blast
  from inv m2 have inv2: "map_agrees (duplicateKeywordMap s2) seen" by simp
  have wfv: "\<forall>v \<in> set (concat (map (adGroup_visits c) gs)). well_formed v"
    using wf by (simp add: visits)
  obtain rows2 s3 where loop: "io_foreach (keywords_adGroup c) gs s2 = (rows2, Inr s3)"
    and r2: "filter is_duplicate_warning rows2 =
        duplicate_warnings seen (concat (map (adGroup_visits c) gs))"
    and m3: "map_agrees (duplicateKeywordMap s3) (seen @ concat (map (adGroup_visits c) gs))"
    using keywords_adGroups_loop [OF inv2 gs_ok wfv wfs] by blast
  have "keywords_campaign s c = (rows1 @ rows2, Inr s3)"
    unfolding keywords_campaign_def neg by (simp add: gs loop)
  with r1 r2 m3 show ?thesis by (simp add: visits)
qed

text \<open>The loop over the campaigns.\<close>

lemma keywords_campaigns_loop:
  assumes "map_agrees (duplicateKeywordMap s) seen"
    and "iterators_deliver cs"
    and "\<forall>v \<in> set (keyword_visits cs). well_formed v"
    and "\<forall>u \<in> set seen. well_formed u"
  shows "\<exists>rows s'. io_foreach keywords_campaign cs s = (rows, Inr s')
      \<and> filter is_duplicate_warning rows = duplicate_warnings seen (keyword_visits cs)
      \<and> map_agrees (duplicateKeywordMap s') (seen @ keyword_visits cs)"
  using assms
proof (induction cs arbitrary: s seen)
  case Nil
  then show ?case by (simp add: io_unfold keyword_visits_def)
next
  case (Cons c cs)
  from Cons.prems(2) have ok: "iterators_deliver [c]" and rest_ok: "iterators_deliver cs"
    by (simp_all add: iterators_deliver_def)
  from Cons.prems(3) have wf: "\<forall>v \<in> set (campaign_visits c). well_formed v"
    and wfr: "\<forall>v \<in> set (keyword_visits cs). well_formed v"
    by (simp_all add: keyword_visits_def)
  obtain rows1 s1 where step: "keywords_campaign s c = (rows1, Inr s1)"
    and r1: "filter is_duplicate_warning rows1 = duplicate_warnings seen (campaign_visits c)"
    and m1: "map_agrees (duplicateKeywordMap s1) (seen @ campaign_visits c)"
    using keywords_campaign_step [OF Cons.prems(1) ok wf Cons.prems(4)] by blast
  have wfs: "\<forall>u \<in> set (seen @ campaign_visits c). well_formed u"
    using Cons.prems(4) wf by auto
  obtain rows2 s2 where rest: "io_foreach keywords_campaign cs s1 = (rows2, Inr s2)"
    and r2: "filter is_duplicate_warning rows2 =
        duplicate_warnings (seen @ campaign_visits c) (keyword_visits cs)"
    and m2: "map_agrees (duplicateKeywordMap s2) ((seen @ campaign_visits c) @ keyword_visits cs)"
    using Cons.IH [OF m1 rest_ok wfr wfs] by blast
  show ?case
    using r1 r2 m2 by (simp add: step rest duplicate_warnings_append keyword_visits_def)
qed

lemma is_duplicate_warning_quality_score_errors [simp]:
  "\<not> is_duplicate_warning (quality_score_errors n)"
  by (simp add: is_duplicate_warning_def quality_score_errors_def)

lemma keywords_summary_result:
  "snd (keywords_summary s) = Inr ()"
  "filter is_duplicate_warning (fst (keywords_summary s)) = []"
  by (cases "keywordsChecked s > 0 \<and> lowQsKeywords s = 0"; cases "statsErrorCount s > 0";
      cases "qsErrorCount s > 0";
      simp add: keywords_summary_def io_unfold cong: text_cong)+

lemma map_agrees_start: "map_agrees (duplicateKeywordMap (keywords_start n)) []"
  by (simp add: map_agrees_def keywords_start_def first_seen_def)

lemma auditKeywords_duplicates:
  assumes ls: "negativeKeywordLists acct = Returns ls"
    and cs: "campaigns_enabled acct = Returns cs"
    and ok: "iterators_deliver cs"
    and wf: "\<forall>v \<in> set (keyword_visits cs). well_formed v"
  shows "filter is_duplicate_warning (findings (auditKeywords acct)) =
      duplicate_warnings [] (keyword_visits cs)"
    and "escaped (auditKeywords acct) = None"
proof -
  obtain rows s' where loop:
      "io_foreach keywords_campaign cs (keywords_start (sum_list ls)) = (rows, Inr s')"
    and r: "filter is_duplicate_warning rows = duplicate_warnings [] (keyword_visits cs)"
    using keywords_campaigns_loop [OF map_agrees_start ok wf, of "sum_list ls"] by auto
  obtain rs where summary: "keywords_summary s' = (rs, Inr ())"
    and rs: "filter is_duplicate_warning rs = []"
    using io_ok [OF keywords_summary_result(1)] keywords_summary_result(2) by blast
  have run: "auditKeywords acct =
      (row_of ''Keywords'' ''Account Negative Keywords''
         (if sum_list ls > 0 then ''Pass'' else ''Warn'')
         (show_nat (sum_list ls) @ '' negatives found in lists.'')
         (if sum_list ls > 0 then ''Review lists periodically.''
          else ''Consider creating account-level negative lists for universally irrelevant terms.'')
       # rows @ rs, Inr ())"
    unfolding auditKeywords_def ls cs
    by (simp add: Let_def call_addResult_def loop summary cong: text_cong)
  show "filter is_duplicate_warning (findings (auditKeywords acct)) =
      duplicate_warnings [] (keyword_visits cs)"
    unfolding run findings_def
    by (simp add: r rs cong: text_cong)
  show "escaped (auditKeywords acct) = None"
    unfolding run escaped_def by simp
qed

lemma first_seen_Some:
  "first_seen seen t = Some i \<Longrightarrow> \<exists>u \<in> set seen. triple_of u = t \<and> adGroupId_of u = i"
proof -
  assume a: "first_seen seen t = Some i"
  then obtain u rest where f: "filter (\<lambda>u. triple_of u = t) seen = u # rest"
    and i: "adGroupId_of u = i"
    by (auto simp: first_seen_def split: list.splits)
  from f have "u \<in> set (filter (\<lambda>u. triple_of u = t) seen)" by simp
  with i show ?thesis by auto
qed

lemma warning_for_only_when:
  "warning_for seen v \<noteq> [] \<Longrightarrow>
     \<exists>u \<in> set seen. triple_of u = triple_of v \<and> adGroupId_of u \<noteq> adGroupId_of v"
  by (auto simp: warning_for_def split: option.splits if_splits dest: first_seen_Some)

lemma warning_for_first_occurrence:
  "\<forall>u \<in> set seen. triple_of u \<noteq> triple_of v \<Longrightarrow> warning_for seen v = []"
  using warning_for_only_when [of seen v] by blast

lemma warning_for_same_adGroup:
  "\<forall>u \<in> set seen. triple_of u = triple_of v \<longrightarrow> adGroupId_of u = adGroupId_of v \<Longrightarrow>
     warning_for seen v = []"
  using warning_for_only_when [of seen v] by blast



lemma example_duplicates_visits:
  "keyword_visits [example_duplicates] =
     [(example_duplicates, example_shoes_group, example_red_shoes),
      (example_duplicates, example_shoes_group, example_red_shoes),
      (example_duplicates, example_boots_group, example_red_shoes)]"
  by (simp add: keyword_visits_def campaign_visits_def adGroup_visits_def adGroups_of_def
      keywords_of_def example_campaign_def example_adGroup_def example_duplicates_def
      example_shoes_group_def example_boots_group_def)

lemma example_duplicates_deliver: "iterators_deliver [example_duplicates]"
  by (simp add: iterators_deliver_def example_campaign_def example_adGroup_def
      example_duplicates_def example_shoes_group_def example_boots_group_def)

lemma example_duplicates_well_formed:
  "\<forall>v \<in> set (keyword_visits [example_duplicates]). well_formed v"
  by (simp add: example_duplicates_visits well_formed_def adGroupId_of_def
      example_shoes_group_def example_boots_group_def example_adGroup_def
      example_red_shoes_def example_keyword_def)

lemma example_duplicates_warnings:
  "duplicate_warnings [] (keyword_visits [example_duplicates]) =
     [duplicate_warning example_duplicates example_boots_group example_red_shoes 1]"
  by (simp add: example_duplicates_visits warning_for_def first_seen_def triple_of_def
      adGroupId_of_def example_shoes_group_def example_boots_group_def example_adGroup_def)



section \<open>Accessor failures inside a module: budget and quality score\<close>

text \<open>Laws of the sequencing.\<close>

lemma io_bind_assoc: "io_bind (io_bind m f) g = io_bind m (\<lambda>x. io_bind (f x) g)"
proof (cases m)
  case (Pair rows r)
  show ?thesis
  proof (cases r)
    case (Inl e)
    with Pair show ?thesis by simp
  next
    case (Inr x)
    with Pair show ?thesis
      by (cases "f x"; cases "snd (f x)") (auto simp: io_bind_def split: prod.splits sum.splits)
  qed
qed

lemma io_bind_return [simp]: "io_bind (io_return x) f = f x"
  by (simp add: io_return_def split: prod.splits)

lemma io_foreach_append:
  "io_foreach body (xs @ ys) s = io_bind (io_foreach body xs s) (io_foreach body ys)"
proof (induction xs arbitrary: s)
  case Nil
  show ?case by simp
next
  case (Cons x xs)
  have "io_foreach body (xs @ ys) =
      (\<lambda>s. io_bind (io_foreach body xs s) (io_foreach body ys))"
    by (rule ext) (rule Cons.IH)
  then show ?case by (simp add: io_bind_assoc)
qed

lemma io_bind_row:
  "io_bind (w # rows, Inr x) f =
     (w # fst (io_bind (rows, Inr x) f), snd (io_bind (rows, Inr x) f))"
  by (simp split: prod.splits)

lemma is_error_row_of [simp]: "is_error (row_of c i s d r) = (s = ''Error'')"
  by (simp add: is_error_def row_of_def)

text \<open>The budget of a campaign.\<close>

lemma budget_of_Throws:
  "campaign_getBudget c = Throws e \<Longrightarrow> budget_of c = ([budget_warning c e], Inr 0)"
  by (simp add: budget_of_def budget_warning_def io_unfold)

lemma budget_of_null: "budget_of (budget_null c) = ([], Inr 0)"
  by (simp add: budget_of_def budget_null_def io_unfold)

lemma budget_of_result:
  "\<exists>rows amount. budget_of c = (rows, Inr amount) \<and> filter is_error rows = []"
proof (cases "campaign_getBudget c")
  case (Throws e)
  then show ?thesis by (simp add: budget_of_Throws budget_warning_def)
next
  case (Returns b)
  show ?thesis
  proof (cases b)
    case None
    with Returns show ?thesis by (simp add: budget_of_def io_unfold)
  next
    case (Some bu)
    with Returns show ?thesis
      by (cases "budget_getAmount bu") (simp_all add: budget_of_def io_unfold cong: text_cong)
  qed
qed

text \<open>The loop body: a throwing budget accessor adds one row in front.\<close>

lemma structure_campaign_Throws:
  assumes "campaign_getBudget c = Throws e"
  shows "structure_campaign acct s c =
     (budget_warning c e # fst (structure_campaign acct s (budget_null c)),
      snd (structure_campaign acct s (budget_null c)))"
proof -
  have name: "campaign_getName (budget_null c) = campaign_getName c"
    by (simp add: budget_null_def)
  show ?thesis
    unfolding structure_campaign_def Let_def name budget_of_Throws [OF assms] budget_of_null
    by (rule io_bind_row)
qed

lemma structure_campaign_result:
  assumes "getCurrencyCode acct = Returns cur"
  shows "\<exists>rows s'. structure_campaign acct s c = (rows, Inr s') \<and> filter is_error rows = []"
proof -
  obtain rows amount where b: "budget_of c = (rows, Inr amount)"
    and r: "filter is_error rows = []"
    using budget_of_result by blast
  show ?thesis
    by (cases "CAMPAIGN_NAMING_CONVENTION_test (campaign_getName c)")
       (simp_all add: structure_campaign_def Let_def b r assms io_unfold cong: text_cong)
qed

lemma structure_loop_result:
  assumes "getCurrencyCode acct = Returns cur"
  shows "\<exists>rows s'. io_foreach (structure_campaign acct) cs s = (rows, Inr s')
      \<and> filter is_error rows = []"
proof (induction cs arbitrary: s)
  case Nil
  show ?case by (simp add: io_unfold)
next
  case (Cons c cs)
  obtain rows1 s1 where step: "structure_campaign acct s c = (rows1, Inr s1)"
    and r1: "filter is_error rows1 = []"
    using structure_campaign_result [OF assms] by blast
  obtain rows2 s2 where rest: "io_foreach (structure_campaign acct) cs s1 = (rows2, Inr s2)"
    and r2: "filter is_error rows2 = []"
    using Cons.IH by blast
  show ?case by (simp add: step rest r1 r2)
qed

lemma structure_summary_result:
  assumes "getCurrencyCode acct = Returns cur"
  shows "\<exists>rows. structure_summary acct s = (rows, Inr ()) \<and> filter is_error rows = []"
  by (cases "campaignsChecked s > 0"; cases "campaignsWithPoorNaming s = 0")
     (simp_all add: structure_summary_def assms io_unfold cong: text_cong)

text \<open>The module on a list of campaigns one of whose budget accessors throws.\<close>

lemma auditAccountStructure_budget_throws:
  assumes cs: "campaigns_enabled_or_paused acct = Returns (pre @ c # post)"
    and cs0: "campaigns_enabled_or_paused acct0 = Returns (pre @ budget_null c # post)"
    and cur: "getCurrencyCode acct = Returns cur"
    and cur0: "getCurrencyCode acct0 = Returns cur"
    and thr: "campaign_getBudget c = Throws e"
  shows "\<exists>rest.
      findings (auditAccountStructure acct) =
        fst (io_foreach (structure_campaign acct) pre structure_start) @
        budget_warning c e # rest
      \<and> findings (auditAccountStructure acct0) =
        fst (io_foreach (structure_campaign acct) pre structure_start) @ rest"
    and "filter is_error (findings (auditAccountStructure acct)) = []"
    and "escaped (auditAccountStructure acct) = None"
proof -
  have same: "structure_campaign acct0 = structure_campaign acct"
    by (rule ext)+ (simp add: structure_campaign_def cur cur0)
  have same_summary: "structure_summary acct0 = structure_summary acct"
    by (rule ext) (simp add: structure_summary_def cur cur0)
  obtain B s1 where before:
      "io_foreach (structure_campaign acct) pre structure_start = (B, Inr s1)"
    and rB: "filter is_error B = []"
    using structure_loop_result [OF cur] by blast
  obtain R s2 where calm: "structure_campaign acct s1 (budget_null c) = (R, Inr s2)"
    and rR: "filter is_error R = []"
    using structure_campaign_result [OF cur] by blast
  have step: "structure_campaign acct s1 c = (budget_warning c e # R, Inr s2)"
    by (simp add: structure_campaign_Throws [OF thr] calm)
  obtain P s3 where after: "io_foreach (structure_campaign acct) post s2 = (P, Inr s3)"
    and rP: "filter is_error P = []"
    using structure_loop_result [OF cur] by blast
  obtain S where summary: "structure_summary acct s3 = (S, Inr ())"
    and rS: "filter is_error S = []"
    using structure_summary_result [OF cur] by blast
  have start: "\<lparr>campaignsChecked = 0, campaignsWithPoorNaming = 0, totalBudget = 0\<rparr> =
      structure_start"
    by (simp add: structure_start_def)
  have run: "auditAccountStructure acct = (B @ budget_warning c e # R @ P @ S, Inr ())"
    unfolding auditAccountStructure_def cs start
    by (simp add: io_foreach_append before step after summary)
  have run0: "auditAccountStructure acct0 = (B @ R @ P @ S, Inr ())"
    unfolding auditAccountStructure_def cs0 start same same_summary
    by (simp add: io_foreach_append before calm after summary)
  show "\<exists>rest.
      findings (auditAccountStructure acct) =
        fst (io_foreach (structure_campaign acct) pre structure_start) @
        budget_warning c e # rest
      \<and> findings (auditAccountStructure acct0) =
        fst (io_foreach (structure_campaign acct) pre structure_start) @ rest"
    by (simp add: run run0 findings_def before)
  show "filter is_error (findings (auditAccountStructure acct)) = []"
    by (simp add: run findings_def rB rR rP rS budget_warning_def)
  show "escaped (auditAccountStructure acct) = None"
    by (simp add: run escaped_def)
qed

text \<open>Mapping the counters a piece returns.\<close>

lemma io_map_Inr [simp]: "io_map f (rows, Inr x) = (rows, Inr (f x))"
  by (simp add: io_map_def)

lemma io_map_Inl [simp]: "io_map f (rows, Inl e) = (rows, Inl e)"
  by (simp add: io_map_def)

lemma io_map_return [simp]: "io_map f (io_return x) = io_return (f x)"
  by (simp add: io_return_def)

lemma io_cases:
  obtains (failed) rows e where "m = (rows, Inl e)" | (ok) rows x where "m = (rows, Inr x)"
  by (cases m; cases "snd m") auto

lemma io_bind_io_map: "io_bind (io_map f m) g = io_bind m (\<lambda>x. g (f x))"
  by (cases m rule: io_cases) simp_all

lemma io_map_io_bind: "io_map f (io_bind m g) = io_bind m (\<lambda>x. io_map f (g x))"
proof (cases m rule: io_cases)
  case (failed rows e)
  then show ?thesis by simp
next
  case (ok rows x)
  then show ?thesis by (cases "g x" rule: io_cases) simp_all
qed

lemma io_map_io_map: "io_map f (io_map g m) = io_map (\<lambda>x. f (g x)) m"
  by (cases m rule: io_cases) simp_all

lemma io_map_cong: "(\<And>x. f x = g x) \<Longrightarrow> io_map f m = io_map g m"
  by (cases m rule: io_cases) simp_all

lemma qsErrors_added_0 [simp]: "qsErrors_added 0 s = s"
  by (simp add: qsErrors_added_def)

lemma qsErrors_added_add [simp]:
  "qsErrors_added n (qsErrors_added m s) = qsErrors_added (m + n) s"
  by (simp add: qsErrors_added_def)

lemma qsErrors_added_sel [simp]:
  "keywordsChecked (qsErrors_added n s) = keywordsChecked s"
  "lowQsKeywords (qsErrors_added n s) = lowQsKeywords s"
  "broadMatchKeywords (qsErrors_added n s) = broadMatchKeywords s"
  "phraseMatchKeywords (qsErrors_added n s) = phraseMatchKeywords s"
  "exactMatchKeywords (qsErrors_added n s) = exactMatchKeywords s"
  "negativeKeywordsAccount (qsErrors_added n s) = negativeKeywordsAccount s"
  "negativeKeywordsCampaign (qsErrors_added n s) = negativeKeywordsCampaign s"
  "negativeKeywordsAdGroup (qsErrors_added n s) = negativeKeywordsAdGroup s"
  "duplicateKeywordMap (qsErrors_added n s) = duplicateKeywordMap s"
  "statsErrorCount (qsErrors_added n s) = statsErrorCount s"
  "qsErrorCount (qsErrors_added n s) = qsErrorCount s + n"
  by (simp_all add: qsErrors_added_def)

text \<open>A loop whose body commutes with adding to \<open>qsErrorCount\<close>.\<close>

lemma io_foreach_commutes:
  assumes "\<And>s x n. body (qsErrors_added n s) x = io_map (qsErrors_added n) (body s x)"
  shows "io_foreach body xs (qsErrors_added n s) =
      io_map (qsErrors_added n) (io_foreach body xs s)"
proof (induction xs arbitrary: s)
  case Nil
  show ?case by simp
next
  case (Cons x xs)
  have "io_foreach body (x # xs) (qsErrors_added n s) =
      io_bind (body s x) (\<lambda>t. io_foreach body xs (qsErrors_added n t))"
    by (simp add: assms io_bind_io_map)
  also have "(\<lambda>t. io_foreach body xs (qsErrors_added n t)) =
      (\<lambda>t. io_map (qsErrors_added n) (io_foreach body xs t))"
    by (rule ext) (rule Cons.IH)
  finally show ?case by (simp add: io_map_io_bind)
qed

lemma io_foreach_shift:
  assumes comm: "\<And>s x n. body' (qsErrors_added n s) x = io_map (qsErrors_added n) (body' s x)"
    and rel: "\<And>s x. body s x = io_map (qsErrors_added (w x)) (body' s (h x))"
  shows "io_foreach body xs s =
      io_map (qsErrors_added (sum_list (map w xs))) (io_foreach body' (map h xs) s)"
proof (induction xs arbitrary: s)
  case Nil
  show ?case by simp
next
  case (Cons x xs)
  have "io_foreach body (x # xs) s =
      io_bind (body' s (h x)) (\<lambda>t. io_foreach body xs (qsErrors_added (w x) t))"
    by (simp add: rel io_bind_io_map)
  also have "(\<lambda>t. io_foreach body xs (qsErrors_added (w x) t)) =
      (\<lambda>t. io_map (qsErrors_added (w x + sum_list (map w xs)))
              (io_foreach body' (map h xs) t))"
  proof (rule ext)
    fix t
    show "io_foreach body xs (qsErrors_added (w x) t) =
        io_map (qsErrors_added (w x + sum_list (map w xs))) (io_foreach body' (map h xs) t)"
      by (simp add: Cons.IH io_foreach_commutes [of body', OF comm] io_map_io_map)
  qed
  finally show ?case by (simp add: io_map_io_bind)
qed

text \<open>The innermost loop body and \<open>qsErrorCount\<close>.\<close>

lemma keyword_tally_commutes:
  "keyword_tally (qsErrors_added n s) kw = qsErrors_added n (keyword_tally s kw)"
  by (cases "keyword_getQualityScore kw";
      cases "keyword_getMatchType kw = ''BROAD''";
      cases "keyword_getMatchType kw = ''PHRASE''";
      cases "keyword_getMatchType kw = ''EXACT''")
     (simp_all add: keyword_tally_def Let_def qsErrors_added_def)

lemma keyword_tally_shift:
  "keyword_tally s kw = qsErrors_added (qs_weight kw) (keyword_tally s (quality_score_null kw))"
  by (cases "keyword_getQualityScore kw";
      cases "keyword_getMatchType kw = ''BROAD''";
      cases "keyword_getMatchType kw = ''PHRASE''";
      cases "keyword_getMatchType kw = ''EXACT''")
     (simp_all add: keyword_tally_def Let_def qsErrors_added_def qs_weight_def
        quality_score_throws_def quality_score_null_def)

lemma read_quality_score_null [simp]:
  "read_quality_score (quality_score_null kw) = read_quality_score kw"
  by (simp add: read_quality_score_def quality_score_null_def)

lemma quality_score_null_sel [simp]:
  "keyword_getText (quality_score_null kw) = keyword_getText kw"
  "keyword_getMatchType (quality_score_null kw) = keyword_getMatchType kw"
  "keyword_getCpc (quality_score_null kw) = keyword_getCpc kw"
  by (simp_all add: quality_score_null_def)

lemma adGroup_quality_scores_null_sel [simp]:
  "adGroup_getName (adGroup_quality_scores_null g) = adGroup_getName g"
  "adGroup_getId (adGroup_quality_scores_null g) = adGroup_getId g"
  "adGroup_getCpc (adGroup_quality_scores_null g) = adGroup_getCpc g"
  "adGroup_negativeKeywords (adGroup_quality_scores_null g) = adGroup_negativeKeywords g"
  "adGroup_keywords (adGroup_quality_scores_null g) =
     map_outcome (map quality_score_null) (adGroup_keywords g)"
  by (simp_all add: adGroup_quality_scores_null_def)

lemma campaign_quality_scores_null_sel [simp]:
  "campaign_getName (campaign_quality_scores_null c) = campaign_getName c"
  "campaign_getId (campaign_quality_scores_null c) = campaign_getId c"
  "campaign_negativeKeywords (campaign_quality_scores_null c) = campaign_negativeKeywords c"
  "campaign_adGroups (campaign_quality_scores_null c) =
     map_outcome (map adGroup_quality_scores_null) (campaign_adGroups c)"
  by (simp_all add: campaign_quality_scores_null_def)

lemma keyword_label_null [simp]: "keyword_label (quality_score_null kw) = keyword_label kw"
  by (simp add: keyword_label_def)

lemma keyword_bid_text_null [simp]:
  "keyword_bid_text (adGroup_quality_scores_null g) (quality_score_null kw) =
     keyword_bid_text g kw"
  by (simp add: keyword_bid_text_def cong: outcome.case_cong if_cong)

lemma duplicateKey_null [simp]:
  "duplicateKey (campaign_quality_scores_null c) (quality_score_null kw) = duplicateKey c kw"
  by (simp add: duplicateKey_def)

lemma duplicate_warning_null [simp]:
  "duplicate_warning (campaign_quality_scores_null c) (adGroup_quality_scores_null g)
     (quality_score_null kw) firstId = duplicate_warning c g kw firstId"
  by (simp add: duplicate_warning_def)

lemma low_quality_check_null:
  "low_quality_check (adGroup_quality_scores_null g) s (quality_score_null kw) =
     low_quality_check g s kw"
  by (simp add: low_quality_check_def cong: option.case_cong if_cong)

lemma duplicate_check_null:
  "duplicate_check (campaign_quality_scores_null c) (adGroup_quality_scores_null g) s
     (quality_score_null kw) = duplicate_check c g s kw"
  by (simp add: duplicate_check_def cong: option.case_cong if_cong)

lemma low_quality_check_commutes:
  "low_quality_check g (qsErrors_added n s) kw =
     io_map (qsErrors_added n) (low_quality_check g s kw)"
proof (cases "read_quality_score kw")
  case None
  then show ?thesis by (simp add: low_quality_check_def)
next
  case (Some q)
  then show ?thesis
    by (cases "q < CONFIG_MIN_QUALITY_SCORE")
       (simp_all add: low_quality_check_def io_unfold qsErrors_added_def cong: text_cong)
qed

lemma duplicate_check_commutes:
  "duplicate_check c g (qsErrors_added n s) kw =
     io_map (qsErrors_added n) (duplicate_check c g s kw)"
proof (cases "map_of (duplicateKeywordMap s) (duplicateKey c kw)")
  case None
  then show ?thesis by (simp add: duplicate_check_def io_unfold qsErrors_added_def)
next
  case (Some firstId)
  then show ?thesis
    by (cases "firstId = 0"; cases "firstId = adGroup_getId g")
       (simp_all add: duplicate_check_def io_unfold qsErrors_added_def)
qed

lemma keywords_keyword_commutes:
  "keywords_keyword c g (qsErrors_added n s) kw =
     io_map (qsErrors_added n) (keywords_keyword c g s kw)"
  unfolding keywords_keyword_def keyword_tally_commutes low_quality_check_commutes
    io_bind_io_map duplicate_check_commutes io_map_io_bind
  by (simp add: io_unfold cong: text_cong)

lemma keywords_keyword_shift:
  "keywords_keyword c g s kw =
     io_map (qsErrors_added (qs_weight kw))
       (keywords_keyword (campaign_quality_scores_null c) (adGroup_quality_scores_null g) s
          (quality_score_null kw))"
proof -
  have "keywords_keyword (campaign_quality_scores_null c) (adGroup_quality_scores_null g)
      (qsErrors_added (qs_weight kw) s) (quality_score_null kw) = keywords_keyword c g s kw"
    unfolding keywords_keyword_def low_quality_check_null duplicate_check_null
      keyword_label_null keyword_bid_text_null keyword_tally_commutes
    by (simp only: keyword_tally_shift [symmetric])
  then show ?thesis by (simp only: keywords_keyword_commutes)
qed

text \<open>The loop over the keywords.\<close>

lemma keywords_loop_commutes:
  "io_foreach (keywords_keyword c g) ks (qsErrors_added n s) =
     io_map (qsErrors_added n) (io_foreach (keywords_keyword c g) ks s)"
  by (rule io_foreach_commutes) (rule keywords_keyword_commutes)

lemma keywords_loop_shift:
  "io_foreach (keywords_keyword c g) ks s =
     io_map (qsErrors_added (sum_list (map qs_weight ks)))
       (io_foreach
          (keywords_keyword (campaign_quality_scores_null c) (adGroup_quality_scores_null g))
          (map quality_score_null ks) s)"
  by (rule io_foreach_shift) (rule keywords_keyword_commutes, rule keywords_keyword_shift)

text \<open>The body of the loop over the ad groups.\<close>

lemma keywords_adGroup_eq:
  "keywords_adGroup c s g =
     io_bind (adGroup_negatives c g s) (\<lambda>s2.
       io_bind (io_call (adGroup_keywords g))
         (\<lambda>keywords. io_foreach (keywords_keyword c g) keywords s2))"
  unfolding keywords_adGroup_def adGroup_negatives_def by (rule refl)

lemma adGroup_negatives_commutes:
  "adGroup_negatives c g (qsErrors_added n s) =
     io_map (qsErrors_added n) (adGroup_negatives c g s)"
proof (cases "adGroup_negativeKeywords g")
  case (Throws e)
  then show ?thesis by (simp add: adGroup_negatives_def io_unfold cong: text_cong)
next
  case (Returns k)
  then show ?thesis
    by (cases "k = 0")
       (simp_all add: adGroup_negatives_def io_unfold Let_def qsErrors_added_def
          cong: text_cong)
qed

lemma adGroup_negatives_null:
  "adGroup_negatives (campaign_quality_scores_null c) (adGroup_quality_scores_null g) s =
     adGroup_negatives c g s"
  unfolding adGroup_negatives_def adGroup_quality_scores_null_sel
    campaign_quality_scores_null_sel
  by (rule refl)

lemma keywords_adGroup_commutes:
  "keywords_adGroup c (qsErrors_added n s) g =
     io_map (qsErrors_added n) (keywords_adGroup c s g)"
proof (cases "adGroup_keywords g")
  case (Throws e)
  then show ?thesis
    by (simp add: keywords_adGroup_eq adGroup_negatives_commutes io_bind_io_map io_map_io_bind)
next
  case (Returns ks)
  then show ?thesis
    by (simp add: keywords_adGroup_eq adGroup_negatives_commutes io_bind_io_map io_map_io_bind
        keywords_loop_commutes)
qed

lemma keywords_adGroup_shift:
  "keywords_adGroup c s g =
     io_map (qsErrors_added (adGroup_weight g))
       (keywords_adGroup (campaign_quality_scores_null c) s (adGroup_quality_scores_null g))"
proof (cases "adGroup_keywords g")
  case (Throws e)
  then show ?thesis
    by (simp add: keywords_adGroup_eq adGroup_negatives_null io_map_io_bind)
next
  case (Returns ks)
  then show ?thesis
    by (simp add: keywords_adGroup_eq adGroup_negatives_null io_map_io_bind
        keywords_loop_shift [of c g ks] adGroup_weight_def keywords_of_def)
qed

text \<open>The body of the loop over the campaigns.\<close>

lemma keywords_campaign_eq:
  "keywords_campaign s c =
     io_bind (campaign_negatives c s) (\<lambda>s2.
       io_bind (io_call (campaign_adGroups c))
         (\<lambda>adGroups. io_foreach (keywords_adGroup c) adGroups s2))"
  unfolding keywords_campaign_def campaign_negatives_def by (rule refl)

lemma campaign_negatives_commutes:
  "campaign_negatives c (qsErrors_added n s) =
     io_map (qsErrors_added n) (campaign_negatives c s)"
proof (cases "campaign_negativeKeywords c")
  case (Throws e)
  then show ?thesis by (simp add: campaign_negatives_def io_unfold cong: text_cong)
next
  case (Returns k)
  then show ?thesis
    by (cases "k = 0")
       (simp_all add: campaign_negatives_def io_unfold Let_def qsErrors_added_def
          cong: text_cong)
qed

lemma campaign_negatives_null:
  "campaign_negatives (campaign_quality_scores_null c) s = campaign_negatives c s"
  unfolding campaign_negatives_def campaign_quality_scores_null_sel
  by (rule refl)

lemma adGroups_loop_commutes:
  "io_foreach (keywords_adGroup c) gs (qsErrors_added n s) =
     io_map (qsErrors_added n) (io_foreach (keywords_adGroup c) gs s)"
  by (rule io_foreach_commutes) (rule keywords_adGroup_commutes)

lemma adGroups_loop_shift:
  "io_foreach (keywords_adGroup c) gs s =
     io_map (qsErrors_added (sum_list (map adGroup_weight gs)))
       (io_foreach (keywords_adGroup (campaign_quality_scores_null c))
          (map adGroup_quality_scores_null gs) s)"
  by (rule io_foreach_shift) (rule keywords_adGroup_commutes, rule keywords_adGroup_shift)

lemma keywords_campaign_commutes:
  "keywords_campaign (qsErrors_added n s) c =
     io_map (qsErrors_added n) (keywords_campaign s c)"
proof (cases "campaign_adGroups c")
  case (Throws e)
  then show ?thesis
    by (simp add: keywords_campaign_eq campaign_negatives_commutes io_bind_io_map
        io_map_io_bind)
next
  case (Returns gs)
  then show ?thesis
    by (simp add: keywords_campaign_eq campaign_negatives_commutes io_bind_io_map
        io_map_io_bind adGroups_loop_commutes)
qed

lemma keywords_campaign_shift:
  "keywords_campaign s c =
     io_map (qsErrors_added (campaign_weight c))
       (keywords_campaign s (campaign_quality_scores_null c))"
proof (cases "campaign_adGroups c")
  case (Throws e)
  then show ?thesis
    by (simp add: keywords_campaign_eq campaign_negatives_null io_map_io_bind)
next
  case (Returns gs)
  then show ?thesis
    by (simp add: keywords_campaign_eq campaign_negatives_null io_map_io_bind
        adGroups_loop_shift [of c gs] campaign_weight_def adGroups_of_def)
qed

lemma campaigns_loop_shift:
  "io_foreach keywords_campaign cs s =
     io_map (qsErrors_added (sum_list (map campaign_weight cs)))
       (io_foreach keywords_campaign (map campaign_quality_scores_null cs) s)"
  by (rule io_foreach_shift) (rule keywords_campaign_commutes, rule keywords_campaign_shift)

lemma length_filter_sum: "length (filter P xs) = sum_list (map (\<lambda>x. if P x then 1 else 0) xs)"
  by (induction xs) simp_all

lemma quality_score_failures_sum:
  "quality_score_failures cs = sum_list (map campaign_weight cs)"
proof -
  have w: "qs_weight = (\<lambda>x. if quality_score_throws x then 1 else 0)"
    by (rule ext) (simp add: qs_weight_def)
  have g: "\<And>c g. length (filter (\<lambda>v. quality_score_throws (snd (snd v))) (adGroup_visits c g)) =
      adGroup_weight g"
    by (simp add: adGroup_visits_def adGroup_weight_def length_filter_sum filter_map o_def w)
  have c: "\<And>c. length (filter (\<lambda>v. quality_score_throws (snd (snd v))) (campaign_visits c)) =
      campaign_weight c"
    by (simp add: campaign_visits_def campaign_weight_def filter_concat length_concat o_def g)
  show ?thesis
    by (simp add: quality_score_failures_def keyword_visits_def filter_concat length_concat
        o_def c)
qed

text \<open>What the loops leave in \<open>qsErrorCount\<close> when the iterators deliver.\<close>

lemma io_foreach_count:
  assumes "\<And>s x. x \<in> set xs \<Longrightarrow>
      \<exists>rows s'. body s x = (rows, Inr s') \<and> qsErrorCount s' = qsErrorCount s + w x"
  shows "\<exists>rows s'. io_foreach body xs s = (rows, Inr s')
      \<and> qsErrorCount s' = qsErrorCount s + sum_list (map w xs)"
  using assms
proof (induction xs arbitrary: s)
  case Nil
  show ?case by (simp add: io_unfold)
next
  case (Cons x xs)
  obtain rows1 s1 where step: "body s x = (rows1, Inr s1)"
    and q1: "qsErrorCount s1 = qsErrorCount s + w x"
    using Cons.prems [of x s] by auto
  obtain rows2 s2 where rest: "io_foreach body xs s1 = (rows2, Inr s2)"
    and q2: "qsErrorCount s2 = qsErrorCount s1 + sum_list (map w xs)"
    using Cons.IH [of s1] Cons.prems by auto
  show ?case by (simp add: step rest q1 q2)
qed

lemma keyword_tally_count:
  "qsErrorCount (keyword_tally s kw) = qsErrorCount s + qs_weight kw"
  by (cases "keyword_getQualityScore kw";
      cases "keyword_getMatchType kw = ''BROAD''";
      cases "keyword_getMatchType kw = ''PHRASE''";
      cases "keyword_getMatchType kw = ''EXACT''")
     (simp_all add: keyword_tally_def Let_def qs_weight_def quality_score_throws_def)

lemma low_quality_check_count:
  "\<exists>rows s'. low_quality_check g s kw = (rows, Inr s') \<and> qsErrorCount s' = qsErrorCount s"
proof (cases "read_quality_score kw")
  case None
  then show ?thesis by (simp add: low_quality_check_def io_unfold)
next
  case (Some q)
  then show ?thesis
    by (cases "q < CONFIG_MIN_QUALITY_SCORE")
       (simp_all add: low_quality_check_def io_unfold cong: text_cong)
qed

lemma duplicate_check_count:
  "\<exists>rows s'. duplicate_check c g s kw = (rows, Inr s') \<and> qsErrorCount s' = qsErrorCount s"
proof (cases "map_of (duplicateKeywordMap s) (duplicateKey c kw)")
  case None
  then show ?thesis by (simp add: duplicate_check_def io_unfold)
next
  case (Some firstId)
  then show ?thesis
    by (cases "firstId = 0"; cases "firstId = adGroup_getId g")
       (simp_all add: duplicate_check_def io_unfold)
qed

lemma keywords_keyword_count:
  "\<exists>rows s'. keywords_keyword c g s kw = (rows, Inr s')
      \<and> qsErrorCount s' = qsErrorCount s + qs_weight kw"
proof -
  obtain rows1 s5 where q: "low_quality_check g (keyword_tally s kw) kw = (rows1, Inr s5)"
    and c5: "qsErrorCount s5 = qsErrorCount (keyword_tally s kw)"
    using low_quality_check_count by blast
  obtain rows2 s6 where d: "duplicate_check c g s5 kw = (rows2, Inr s6)"
    and c6: "qsErrorCount s6 = qsErrorCount s5"
    using duplicate_check_count by blast
  show ?thesis
    by (simp add: keywords_keyword_def q d io_unfold c5 c6 keyword_tally_count
        cong: text_cong)
qed

lemma adGroup_negatives_count:
  "\<exists>rows s'. adGroup_negatives c g s = (rows, Inr s') \<and> qsErrorCount s' = qsErrorCount s"
proof (cases "adGroup_negativeKeywords g")
  case (Throws e)
  then show ?thesis by (simp add: adGroup_negatives_def io_unfold cong: text_cong)
next
  case (Returns k)
  then show ?thesis
    by (cases "k = 0") (simp_all add: adGroup_negatives_def io_unfold Let_def cong: text_cong)
qed

lemma campaign_negatives_count:
  "\<exists>rows s'. campaign_negatives c s = (rows, Inr s') \<and> qsErrorCount s' = qsErrorCount s"
proof (cases "campaign_negativeKeywords c")
  case (Throws e)
  then show ?thesis by (simp add: campaign_negatives_def io_unfold cong: text_cong)
next
  case (Returns k)
  then show ?thesis
    by (cases "k = 0") (simp_all add: campaign_negatives_def io_unfold Let_def cong: text_cong)
qed

lemma keywords_adGroup_count:
  assumes "adGroup_keywords g = Returns ks"
  shows "\<exists>rows s'. keywords_adGroup c s g = (rows, Inr s')
      \<and> qsErrorCount s' = qsErrorCount s + adGroup_weight g"
proof -
  obtain rows1 s1 where n: "adGroup_negatives c g s = (rows1, Inr s1)"
    and c1: "qsErrorCount s1 = qsErrorCount s"
    using adGroup_negatives_count by blast
  obtain rows2 s2 where l: "io_foreach (keywords_keyword c g) ks s1 = (rows2, Inr s2)"
    and c2: "qsErrorCount s2 = qsErrorCount s1 + sum_list (map qs_weight ks)"
    using io_foreach_count [of ks "keywords_keyword c g" qs_weight s1] keywords_keyword_count
    by blast
  show ?thesis
    by (simp add: keywords_adGroup_eq n assms l c1 c2 adGroup_weight_def keywords_of_def)
qed

lemma keywords_campaign_count:
  assumes "iterators_deliver [c]"
  shows "\<exists>rows s'. keywords_campaign s c = (rows, Inr s')
      \<and> qsErrorCount s' = qsErrorCount s + campaign_weight c"
proof -
  from assms obtain gs where gs: "campaign_adGroups c = Returns gs"
    and gs_ok: "list_all (\<lambda>g. case adGroup_keywords g of Throws e \<Rightarrow> False
        | Returns ks \<Rightarrow> True) gs"
    by (cases "campaign_adGroups c") (simp_all add: iterators_deliver_def)
  have each: "\<And>s g. g \<in> set gs \<Longrightarrow> \<exists>rows s'. keywords_adGroup c s g = (rows, Inr s')
      \<and> qsErrorCount s' = qsErrorCount s + adGroup_weight g"
  proof -
    fix s g
    assume "g \<in> set gs"
    with gs_ok obtain ks where "adGroup_keywords g = Returns ks"
      by (cases "adGroup_keywords g") (auto simp: list_all_iff)
    then show "\<exists>rows s'. keywords_adGroup c s g = (rows, Inr s')
      \<and> qsErrorCount s' = qsErrorCount s + adGroup_weight g"
      by (rule keywords_adGroup_count)
  qed
  obtain rows1 s1 where n: "campaign_negatives c s = (rows1, Inr s1)"
    and c1: "qsErrorCount s1 = qsErrorCount s"
    using campaign_negatives_count by blast
  obtain rows2 s2 where l: "io_foreach (keywords_adGroup c) gs s1 = (rows2, Inr s2)"
    and c2: "qsErrorCount s2 = qsErrorCount s1 + sum_list (map adGroup_weight gs)"
    using io_foreach_count [of gs "keywords_adGroup c" adGroup_weight s1] each by blast
  show ?thesis
    by (simp add: keywords_campaign_eq n gs l c1 c2 campaign_weight_def adGroups_of_def)
qed

lemma keywords_campaigns_count:
  assumes "iterators_deliver cs"
  shows "\<exists>rows s'. io_foreach keywords_campaign cs s = (rows, Inr s')
      \<and> qsErrorCount s' = qsErrorCount s + quality_score_failures cs"
proof -
  have each: "\<And>s c. c \<in> set cs \<Longrightarrow> \<exists>rows s'. keywords_campaign s c = (rows, Inr s')
      \<and> qsErrorCount s' = qsErrorCount s + campaign_weight c"
  proof -
    fix s :: keyword_counters and c :: campaign
    assume "c \<in> set cs"
    with assms have "iterators_deliver [c]"
      by (simp add: iterators_deliver_def list_all_iff)
    then show "\<exists>rows s'. keywords_campaign s c = (rows, Inr s')
      \<and> qsErrorCount s' = qsErrorCount s + campaign_weight c"
      by (rule keywords_campaign_count)
  qed
  show ?thesis
    unfolding quality_score_failures_sum
    using io_foreach_count [of cs "\<lambda>s c. keywords_campaign s c" campaign_weight s] each
    by blast
qed

text \<open>The rows after the loops: \<open>qsErrorCount\<close> decides the last row and nothing else.\<close>

lemma keywords_summary_added:
  assumes "qsErrorCount t = 0"
  shows "keywords_summary (qsErrors_added n t) =
     (fst (keywords_summary t) @ (if n > 0 then [quality_score_errors n] else []), Inr ())"
  by (cases "keywordsChecked t > 0 \<and> lowQsKeywords t = 0"; cases "statsErrorCount t > 0";
      cases "n > 0")
     (simp_all add: keywords_summary_def io_unfold assms cong: text_cong)

text \<open>The module.\<close>

lemma auditKeywords_quality_score_throws:
  assumes ls: "negativeKeywordLists acct = Returns ls"
    and cs: "campaigns_enabled acct = Returns cs"
    and ok: "iterators_deliver cs"
  shows "findings (auditKeywords acct) =
      findings (auditKeywords (account_quality_scores_null acct)) @
      (if quality_score_failures cs > 0
       then [quality_score_errors (quality_score_failures cs)] else [])"
proof -
  let ?n = "quality_score_failures cs"
  let ?start = "keywords_start (sum_list ls)"
  obtain rows s' where loop: "io_foreach keywords_campaign cs ?start = (rows, Inr s')"
    and count: "qsErrorCount s' = qsErrorCount ?start + ?n"
    using keywords_campaigns_count [OF ok] by blast
  have shift: "io_foreach keywords_campaign cs ?start =
      io_map (qsErrors_added ?n)
        (io_foreach keywords_campaign (map campaign_quality_scores_null cs) ?start)"
    by (simp add: campaigns_loop_shift [of cs] quality_score_failures_sum)
  obtain t where calm:
      "io_foreach keywords_campaign (map campaign_quality_scores_null cs) ?start = (rows, Inr t)"
    and t: "s' = qsErrors_added ?n t"
    using loop unfolding shift
    by (cases "io_foreach keywords_campaign (map campaign_quality_scores_null cs) ?start"
        rule: io_cases) auto
  have zero: "qsErrorCount t = 0"
    using count t by (simp add: keywords_start_def)
  have ls': "negativeKeywordLists (account_quality_scores_null acct) = Returns ls"
    and cs': "campaigns_enabled (account_quality_scores_null acct) =
        Returns (map campaign_quality_scores_null cs)"
    by (simp_all add: account_quality_scores_null_def ls cs)
  obtain S where summary: "keywords_summary t = (S, Inr ())"
    using io_ok [OF keywords_summary_result(1)] by blast
  have summary': "keywords_summary s' =
      (S @ (if ?n > 0 then [quality_score_errors ?n] else []), Inr ())"
    unfolding t using keywords_summary_added [OF zero, of ?n] by (simp add: summary)
  have run: "findings (auditKeywords acct) =
      row_of ''Keywords'' ''Account Negative Keywords''
         (if sum_list ls > 0 then ''Pass'' else ''Warn'')
         (show_nat (sum_list ls) @ '' negatives found in lists.'')
         (if sum_list ls > 0 then ''Review lists periodically.''
          else ''Consider creating account-level negative lists for universally irrelevant terms.'')
       # rows @ S @ (if ?n > 0 then [quality_score_errors ?n] else [])"
    unfolding auditKeywords_def ls cs findings_def
    by (simp add: Let_def call_addResult_def loop summary' cong: text_cong)
  have run': "findings (auditKeywords (account_quality_scores_null acct)) =
      row_of ''Keywords'' ''Account Negative Keywords''
         (if sum_list ls > 0 then ''Pass'' else ''Warn'')
         (show_nat (sum_list ls) @ '' negatives found in lists.'')
         (if sum_list ls > 0 then ''Review lists periodically.''
          else ''Consider creating account-level negative lists for universally irrelevant terms.'')
       # rows @ S"
    unfolding auditKeywords_def ls' cs' findings_def
    by (simp add: Let_def call_addResult_def calm summary cong: text_cong)
  show ?thesis unfolding run run' by simp
qed

lemma example_failing_sel:
  "campaigns_enabled_or_paused example_failing_account = Returns ([] @ example_failing_campaign # [])"
  "campaigns_enabled example_failing_account = Returns [example_failing_campaign]"
  "getCurrencyCode example_failing_account = Returns ''USD''"
  "negativeKeywordLists example_failing_account = Returns [4]"
  "campaign_getBudget example_failing_campaign = Throws ''No budget''"
  "keyword_getQualityScore example_failing_keyword = Throws ''QS unavailable''"
  "iterators_deliver [example_failing_campaign]"
  by (simp_all add: example_failing_account_def example_account_def example_failing_campaign_def
      example_campaign_def example_failing_keyword_def example_keyword_def
      iterators_deliver_def example_adGroup_def)

lemma example_failing_failures: "quality_score_failures [example_failing_campaign] = 1"
  by (simp add: quality_score_failures_def keyword_visits_def campaign_visits_def
      adGroup_visits_def adGroups_of_def keywords_of_def example_failing_campaign_def
      example_campaign_def example_adGroup_def quality_score_throws_def
      example_failing_keyword_def example_keyword_def)

lemma example_failing_statuses:
  "map status (findings (auditAccountStructure example_failing_account)) =
     [''Warn'', ''Info'', ''Pass'', ''Info'', ''Info'', ''Info'', ''Info'']"
  by (simp add: findings_def auditAccountStructure_def structure_campaign_def
      structure_summary_def budget_of_def example_failing_account_def example_account_def
      example_failing_campaign_def example_campaign_def io_unfold Let_def
      CAMPAIGN_NAMING_CONVENTION_test_def is_upper_def is_alnum_def any_char_def
      cong: text_cong)


lemma no_error_statuses:
  "filter is_error rows = [] \<longleftrightarrow> ''Error'' \<notin> set (map status rows)"
  by (induction rows) (simp_all add: is_error_def)

lemma example_failing_keyword_statuses:
  "map status (findings (auditKeywords example_failing_account)) =
     [''Pass'', ''Warn'', ''Info'', ''Info'', ''Info'', ''Info'', ''Info'', ''Pass'', ''Info'',
      ''Warn'']"
  by (simp add: findings_def auditKeywords_def keywords_campaign_def keywords_adGroup_def
      keywords_keyword_def keyword_tally_def low_quality_check_def read_quality_score_def
      duplicate_check_def keywords_summary_def keywords_start_def quality_score_errors_def
      example_failing_account_def example_account_def
      example_failing_campaign_def example_campaign_def example_adGroup_def
      example_failing_keyword_def example_keyword_def io_unfold Let_def
      cong: text_cong)




section \<open>main: how a run ends\<close>

text \<open>A module whose body stands in a \<open>try\<close> with the general \<open>catch\<close>.\<close>

lemma escaped_pair [simp]:
  "escaped (rows, Inr u) = None" "escaped (rows, Inl ex) = Some ex"
  by (simp_all add: escaped_def)

lemma escaped_None: "escaped m = None \<longleftrightarrow> m = (fst m, Inr ())"
  by (cases m rule: io_cases) simp_all

lemma escaped_Some: "escaped m = Some ex \<longleftrightarrow> m = (fst m, Inl ex)"
  by (cases m rule: io_cases) simp_all

lemma general_check_eq: "general_check cat ex = ([general_check_row cat ex], Inr ())"
  by (simp add: general_check_def general_check_row_def call_addResult_def)

lemma io_try_general_check_caught:
  "io_try (rows, Inl ex) (general_check cat) = (rows @ [general_check_row cat ex], Inr ())"
  by (simp add: general_check_eq)

lemma io_try_general_check_escaped [simp]: "escaped (io_try m (general_check cat)) = None"
  by (cases m rule: io_cases) (simp_all add: general_check_eq)

lemma wrapped_escaped [simp]:
  "escaped (auditAccountSettings e) = None"
  "escaped (auditAdCopy e) = None"
  "escaped (auditAdExtensions e) = None"
  "escaped (auditBiddingStrategies e) = None"
  "escaped (auditQualityScore e) = None"
  "escaped (auditLandingPages e) = None"
  "escaped (auditAudienceTargeting e) = None"
  "escaped (auditCampaignOptimization e) = None"
  "escaped (auditAutomationTools e) = None"
  "escaped (auditCompetitiveAnalysis e) = None"
  "escaped (auditReportingInsights e) = None"
  "escaped (auditAccountStructure acct) = None"
  "escaped (auditKeywords acct) = None"
  "escaped (auditAdGroups acct) = None"
  "escaped auditConversionTracking = None"
proof -
  show "escaped (auditLandingPages e) = None"
    by (cases "body_of e ''auditLandingPages''" rule: io_cases)
       (simp_all add: auditLandingPages_def call_addResult_def)
qed (simp_all add: auditAccountSettings_def auditAdCopy_def auditAdExtensions_def
      auditBiddingStrategies_def auditQualityScore_def auditAudienceTargeting_def
      auditCampaignOptimization_def auditAutomationTools_def auditCompetitiveAnalysis_def
      auditReportingInsights_def auditAccountStructure_def auditKeywords_def auditAdGroups_def
      auditConversionTracking_def call_addResult_def)

text \<open>The calls of main.\<close>

lemma run_calls_all:
  "\<forall>entry \<in> set calls. escaped (snd entry) = None \<Longrightarrow>
     run_calls calls = (map fst calls, concat (map (\<lambda>entry. fst (snd entry)) calls), Inr ())"
proof (induction calls)
  case Nil
  show ?case by (simp add: io_return_def)
next
  case (Cons entry calls)
  obtain name m where entry: "entry = (name, m)" by (cases entry)
  from Cons.prems entry have m: "m = (fst m, Inr ())" by (simp add: escaped_None)
  from Cons have rest: "run_calls calls =
      (map fst calls, concat (map (\<lambda>entry. fst (snd entry)) calls), Inr ())" by simp
  show ?case
    unfolding entry by (subst m) (simp add: rest)
qed

lemma run_calls_stop:
  assumes "\<forall>entry \<in> set pre. escaped (snd entry) = None" and "escaped m = Some ex"
  shows "run_calls (pre @ (name, m) # post) =
      (map fst pre @ [name], concat (map (\<lambda>entry. fst (snd entry)) pre) @ fst m, Inl ex)"
  using assms(1)
proof (induction pre)
  case Nil
  from assms(2) have m: "m = (fst m, Inl ex)" by (simp add: escaped_Some)
  show ?case by (subst m) simp
next
  case (Cons entry pre)
  obtain name' m' where entry: "entry = (name', m')" by (cases entry)
  from Cons.prems entry have m': "m' = (fst m', Inr ())" by (simp add: escaped_None)
  from Cons have rest: "run_calls (pre @ (name, m) # post) =
      (map fst pre @ [name], concat (map (\<lambda>entry. fst (snd entry)) pre) @ fst m, Inl ex)"
    by simp
  show ?case
    unfolding entry by (subst m') (simp add: rest)
qed

lemma module_calls_split:
  "module_calls e =
     take 11 (module_calls e) @
     (''auditPerformanceMetrics'', auditPerformanceMetrics (ads e)) # drop 12 (module_calls e)"
  by (simp add: module_calls_def)

lemma module_calls_before:
  "\<forall>entry \<in> set (take 11 (module_calls e)). escaped (snd entry) = None"
  "map fst (take 11 (module_calls e)) @ [''auditPerformanceMetrics''] =
     entered_up_to_performance"
  by (simp_all add: module_calls_def CONFIG_CHECK_LANDING_PAGES_def
      entered_up_to_performance_def)

lemma module_calls_others:
  "\<forall>entry \<in> set (module_calls e).
     fst entry \<noteq> ''auditPerformanceMetrics'' \<longrightarrow> escaped (snd entry) = None"
  by (simp add: module_calls_def CONFIG_CHECK_LANDING_PAGES_def)

lemma module_calls_all:
  "escaped (auditPerformanceMetrics (ads e)) = None \<Longrightarrow>
     \<forall>entry \<in> set (module_calls e). escaped (snd entry) = None"
  by (simp add: module_calls_def CONFIG_CHECK_LANDING_PAGES_def)

text \<open>The three ways main ends.\<close>

lemma main_aborted:
  assumes "no_spreadsheet (initial_globals e)"
  shows "main e = \<lparr>ending = Aborted, invoked = [], globals_after = initial_globals e,
      sheets_after = initial_sheets e\<rparr>"
  using assms
  by (cases "initializeSpreadsheet (services e) fresh_globals")
     (simp add: main_def initial_globals_def initial_sheets_def)

lemma main_completed:
  assumes "\<not> no_spreadsheet (initial_globals e)"
    and "escaped (auditPerformanceMetrics (ads e)) = None"
  shows "ending (main e) = Completed"
    and "invoked (main e) = map fst (module_calls e)"
    and "record_all (concat (map (\<lambda>entry. fst (snd entry)) (module_calls e)))
           (initial_globals e) = Inr (globals_after (main e))"
    and "sheets_after (main e) =
       writeResultsToSpreadsheet (globals_after (main e))
         (populateOverviewSheet (globals_after (main e)) (initial_sheets e))"
proof -
  obtain g0 ss0 where init: "initializeSpreadsheet (services e) fresh_globals = (g0, ss0)"
    by (cases "initializeSpreadsheet (services e) fresh_globals")
  from assms(1) init have ok: "\<not> no_spreadsheet g0" by (simp add: initial_globals_def)
  note calls = run_calls_all [OF module_calls_all [OF assms(2)]]
  obtain g1 where g1: "record_all (concat (map (\<lambda>entry. fst (snd entry)) (module_calls e))) g0
      = Inr g1"
    using record_all_total by blast
  have m: "main e = \<lparr>ending = Completed, invoked = map fst (module_calls e),
      globals_after = g1,
      sheets_after = writeResultsToSpreadsheet g1 (populateOverviewSheet g1 ss0)\<rparr>"
    by (simp add: main_def init ok calls g1)
  show "ending (main e) = Completed" "invoked (main e) = map fst (module_calls e)"
    "record_all (concat (map (\<lambda>entry. fst (snd entry)) (module_calls e)))
           (initial_globals e) = Inr (globals_after (main e))"
    "sheets_after (main e) =
       writeResultsToSpreadsheet (globals_after (main e))
         (populateOverviewSheet (globals_after (main e)) (initial_sheets e))"
    by (simp_all add: m initial_globals_def initial_sheets_def init g1)
qed

lemma main_uncaught:
  assumes "\<not> no_spreadsheet (initial_globals e)"
    and "escaped (auditPerformanceMetrics (ads e)) = Some ex"
  shows "ending (main e) = Uncaught ex"
    and "invoked (main e) = entered_up_to_performance"
    and "sheets_after (main e) = initial_sheets e"
proof -
  obtain g0 ss0 where init: "initializeSpreadsheet (services e) fresh_globals = (g0, ss0)"
    by (cases "initializeSpreadsheet (services e) fresh_globals")
  from assms(1) init have ok: "\<not> no_spreadsheet g0" by (simp add: initial_globals_def)
  have calls: "run_calls (module_calls e) =
      (entered_up_to_performance,
       concat (map (\<lambda>entry. fst (snd entry)) (take 11 (module_calls e))) @
       fst (auditPerformanceMetrics (ads e)), Inl ex)"
    by (subst module_calls_split)
       (simp only: run_calls_stop [OF module_calls_before(1) assms(2)] module_calls_before(2))
  obtain g1 where g1: "record_all
      (concat (map (\<lambda>entry. fst (snd entry)) (take 11 (module_calls e))) @
       fst (auditPerformanceMetrics (ads e))) g0 = Inr g1"
    using record_all_total by blast
  have m: "main e = \<lparr>ending = Uncaught ex, invoked = entered_up_to_performance,
      globals_after = g1, sheets_after = ss0\<rparr>"
    by (simp add: main_def init ok calls g1)
  show "ending (main e) = Uncaught ex" "invoked (main e) = entered_up_to_performance"
    "sheets_after (main e) = initial_sheets e"
    by (simp_all add: m initial_sheets_def init)
qed

text \<open>When a piece lets an exception escape.\<close>

lemma escaped_call_addResult [simp]: "escaped (call_addResult c i s d r) = None"
  by (simp add: call_addResult_def)

lemma escaped_return [simp]: "escaped (io_return x) = None"
  by (simp add: io_return_def)

lemma escaped_io_bind_unit:
  "escaped (m :: unit io) = None \<Longrightarrow> escaped (io_bind m f) = escaped (f ())"
  by (cases m rule: io_cases; cases "f ()" rule: io_cases) simp_all

lemma escaped_io_bind:
  "escaped (m :: unit io) = None \<Longrightarrow> escaped (f ()) = None \<Longrightarrow> escaped (io_bind m f) = None"
  by (simp add: escaped_io_bind_unit)

lemma escaped_io_bind_failing:
  "escaped m = Some ex \<Longrightarrow> escaped (io_bind m f) = Some ex"
  by (cases m rule: io_cases) simp_all

lemma escaped_if:
  "escaped a = None \<Longrightarrow> escaped b = None \<Longrightarrow> escaped (if c then a else b) = None"
  by simp

lemma escaped_toFixed_of:
  "v \<noteq> None \<Longrightarrow> escaped (io_bind (toFixed_of d v) (\<lambda>text. call_addResult c i s (p @ text) r)) = None"
  by (cases v) (simp_all add: toFixed_of_def io_unfold)

lemma escaped_toFixed_of_null:
  "escaped (io_bind (toFixed_of d None) f) =
     Some ''TypeError: Cannot read properties of null (reading 'toFixed')''"
  by (simp add: toFixed_of_def io_unfold)

lemma escaped_impression_share_checks [simp]:
  "escaped (impression_share_checks metricErrors imprShare isLostRank isLostBudget) = None"
  unfolding impression_share_checks_def
  by (intro escaped_io_bind escaped_if escaped_call_addResult)

lemma performance_checks_escaped:
  assumes "metric_value (fetch_metric st getAverageCpc) \<noteq> None"
  shows "escaped (performance_checks st) = None"
  unfolding performance_checks_def Let_def
  by (intro escaped_io_bind escaped_if escaped_call_addResult escaped_return
      escaped_toFixed_of assms escaped_impression_share_checks)

lemma metric_error_other: "name \<noteq> other \<Longrightarrow> other \<notin> set (metric_error name r)"
  by (cases r) (simp_all add: metric_error_def)

lemma performance_checks_null:
  assumes "fetch_metric st getAverageCpc = Returns None"
  shows "escaped (performance_checks st) =
     Some ''TypeError: Cannot read properties of null (reading 'toFixed')''"
proof -
  have no_error: "''AvgCPC'' \<notin> set (
            metric_error ''CTR'' (fetch_metric st getCtr) @
            metric_error ''AvgCPC'' (fetch_metric st getAverageCpc) @
            metric_error ''ConvRate'' (fetch_metric st getConversionRate) @
            metric_error ''Conversions'' (fetch_metric st getConversions) @
            metric_error ''Cost'' (fetch_metric st getCost) @
            metric_error ''ImprShare'' (fetch_metric st getSearchImpressionShare) @
            metric_error ''ISLostRank'' (fetch_metric st getSearchRankLostImpressionShare) @
            metric_error ''ISLostBudget'' (fetch_metric st getSearchBudgetLostImpressionShare))"
    by (simp add: metric_error_other) (simp add: assms metric_error_def)
  have null: "metric_value (fetch_metric st getAverageCpc) = None"
    by (simp add: assms metric_value_def)
  show ?thesis
    unfolding performance_checks_def Let_def null
    apply (subst escaped_io_bind_unit)
     apply (intro escaped_if escaped_call_addResult escaped_return)
    apply (subst escaped_io_bind_unit)
     apply (intro escaped_if escaped_call_addResult escaped_return)
    apply (rule escaped_io_bind_failing)
    apply (simp only: no_error if_True not_False_eq_True)
    apply (rule escaped_toFixed_of_null)
    done
qed

lemma auditPerformanceMetrics_escaped:
  "escaped (auditPerformanceMetrics acct) \<noteq> None \<longleftrightarrow>
     (\<exists>st. getStatsFor acct = Returns (Some st) \<and> getAverageCpc st = Returns None)"
proof (cases "getStatsFor acct")
  case (Throws e)
  then show ?thesis by (simp add: auditPerformanceMetrics_def)
next
  case (Returns so)
  show ?thesis
  proof (cases so)
    case None
    have "escaped (performance_checks None) = None"
      by (rule performance_checks_escaped) (simp add: fetch_metric_def metric_value_def)
    with Returns None show ?thesis by (simp add: auditPerformanceMetrics_def)
  next
    case (Some st)
    show ?thesis
    proof (cases "getAverageCpc st = Returns None")
      case True
      then have "fetch_metric (Some st) getAverageCpc = Returns None"
        by (simp add: fetch_metric_def)
      from performance_checks_null [OF this] Returns Some True show ?thesis
        by (simp add: auditPerformanceMetrics_def)
    next
      case False
      then have "metric_value (fetch_metric (Some st) getAverageCpc) \<noteq> None"
        by (cases "getAverageCpc st") (simp_all add: fetch_metric_def metric_value_def)
      from performance_checks_escaped [OF this] Returns Some False show ?thesis
        by (simp add: auditPerformanceMetrics_def)
    qed
  qed
qed

lemma auditPerformanceMetrics_TypeError:
  "escaped (auditPerformanceMetrics acct) = Some ex \<Longrightarrow>
     ex = ''TypeError: Cannot read properties of null (reading 'toFixed')''"
proof -
  assume a: "escaped (auditPerformanceMetrics acct) = Some ex"
  then have "escaped (auditPerformanceMetrics acct) \<noteq> None" by simp
  then obtain st where st: "getStatsFor acct = Returns (Some st)"
    and n: "getAverageCpc st = Returns None"
    unfolding auditPerformanceMetrics_escaped by blast
  from n have "fetch_metric (Some st) getAverageCpc = Returns None"
    by (simp add: fetch_metric_def)
  from performance_checks_null [OF this] a st show ?thesis
    by (simp add: auditPerformanceMetrics_def)
qed

text \<open>The modules on a throwing data source.\<close>

lemma auditAccountStructure_iterator_throws:
  "campaigns_enabled_or_paused acct = Throws ex \<Longrightarrow>
     auditAccountStructure acct = ([general_check_row ''Account Structure'' ex], Inr ())"
  by (simp add: auditAccountStructure_def general_check_eq)

lemma auditKeywords_lists_throw:
  "negativeKeywordLists acct = Throws ex \<Longrightarrow>
     auditKeywords acct = ([general_check_row ''Keywords'' ex], Inr ())"
  by (simp add: auditKeywords_def general_check_eq)

lemma auditAdGroups_iterator_throws:
  "adGroups_enabled acct = Throws ex \<Longrightarrow>
     auditAdGroups acct = ([general_check_row ''Ad Groups'' ex], Inr ())"
  by (simp add: auditAdGroups_def general_check_eq)

lemma auditPerformanceMetrics_stats_throw:
  "getStatsFor acct = Throws ex \<Longrightarrow>
     \<exists>r. auditPerformanceMetrics acct = ([r], Inr ())
       \<and> category r = ''Performance Metrics'' \<and> is_error r"
  by (simp add: auditPerformanceMetrics_def call_addResult_def)

lemma auditLandingPages_body_throws:
  "body_of e ''auditLandingPages'' = (rows, Inl ex) \<Longrightarrow>
     \<exists>r. auditLandingPages e = (rows @ [r], Inr ())
       \<and> category r = ''Landing Pages'' \<and> is_error r"
  by (simp add: auditLandingPages_def call_addResult_def)

lemma wrapped_modules_caught:
  "\<forall>(cat, body, m) \<in> set (wrapped_modules e).
     \<forall>rows ex. body = (rows, Inl ex) \<longrightarrow> m = (rows @ [general_check_row cat ex], Inr ())"
  by (simp add: wrapped_modules_def auditAccountSettings_def auditAdCopy_def
      auditAdExtensions_def auditBiddingStrategies_def auditQualityScore_def
      auditAudienceTargeting_def auditCampaignOptimization_def auditAutomationTools_def
      auditCompetitiveAnalysis_def auditReportingInsights_def general_check_eq)


text \<open>The run in which the average cost per click is \<open>null\<close>.\<close>

lemma example_null_cpc_sel:
  "getStatsFor (ads example_null_cpc_env) = Returns (Some example_null_cpc_stats)"
  "getAverageCpc example_null_cpc_stats = Returns None"
  "services example_null_cpc_env = example_sink"
  by (simp_all add: example_null_cpc_env_def example_account_def example_null_cpc_stats_def)

lemma example_null_cpc_init: "\<not> no_spreadsheet (initial_globals example_null_cpc_env)"
  using example_init by (simp add: initial_globals_def example_null_cpc_sel)

lemma example_null_cpc_escapes:
  "escaped (auditPerformanceMetrics (ads example_null_cpc_env)) =
     Some ''TypeError: Cannot read properties of null (reading 'toFixed')''"
proof -
  have "fetch_metric (Some example_null_cpc_stats) getAverageCpc = Returns None"
    by (simp add: fetch_metric_def example_null_cpc_sel)
  from performance_checks_null [OF this] show ?thesis
    by (simp add: auditPerformanceMetrics_def example_null_cpc_sel)
qed

lemma example_null_cpc_statuses:
  "map status (findings (auditPerformanceMetrics (ads example_null_cpc_env))) = [''Pass'']"
  by (simp add: findings_def auditPerformanceMetrics_def example_null_cpc_sel
      performance_checks_def Let_def fetch_metric_def metric_value_def metric_error_def
      example_null_cpc_stats_def toFixed_of_def num_def CONFIG_MIN_CTR_def io_unfold
      cong: text_cong)


text \<open>The run in which every data source call and every body throws.\<close>

lemma example_throwing_sel:
  "services example_throwing_env = example_sink"
  "body_of example_throwing_env name = ([], Inl ''E6'')"
  "negativeKeywordLists (ads example_throwing_env) = Throws ''E1''"
  "campaigns_enabled_or_paused (ads example_throwing_env) = Throws ''E2''"
  "adGroups_enabled (ads example_throwing_env) = Throws ''E4''"
  "getStatsFor (ads example_throwing_env) = Throws ''E5''"
  by (simp_all add: example_throwing_env_def)

lemma example_throwing_init: "\<not> no_spreadsheet (initial_globals example_throwing_env)"
  using example_init by (simp add: initial_globals_def example_throwing_sel)

lemma example_throwing_performance:
  "escaped (auditPerformanceMetrics (ads example_throwing_env)) = None"
  by (simp add: auditPerformanceMetrics_def example_throwing_sel)


text \<open>When the initialisation leaves no spreadsheet id.\<close>

lemma initial_globals_id:
  "SPREADSHEET_ID (initial_globals e) =
     (if initialization_throws (services e) then None
      else case open_or_create (services e) of
             Throws ex \<Rightarrow> None
           | Returns f \<Rightarrow> Some (getId f))"
proof (cases "open_or_create (services e)")
  case (Throws ex)
  then show ?thesis
    by (simp add: initial_globals_def initializeSpreadsheet_def initialization_throws_def
        init_failed_def)
next
  case (Returns f)
  obtain err ss res where p: "provision_sheets (broken_sheets (services e))
      (map fst (getSheets f)) SHEET_NAMES_values (getSheets f) (ALL_RESULTS fresh_globals) =
      (err, ss, res)"
    by (cases "provision_sheets (broken_sheets (services e))
      (map fst (getSheets f)) SHEET_NAMES_values (getSheets f) (ALL_RESULTS fresh_globals)")
  show ?thesis
    by (cases err)
       (simp_all add: initial_globals_def initializeSpreadsheet_def initialization_throws_def
          init_failed_def Returns p)
qed

lemma initialization_throws_iff:
  "initialization_throws (services e) \<longleftrightarrow> SPREADSHEET_ID (initial_globals e) = None"
  by (cases "open_or_create (services e)")
     (simp_all add: initial_globals_id, simp add: initialization_throws_def)

lemma no_spreadsheet_iff:
  "no_spreadsheet (initial_globals e) \<longleftrightarrow>
     initialization_throws (services e) \<or> file_id_empty (services e)"
  by (cases "open_or_create (services e)")
     (simp_all add: no_spreadsheet_def initial_globals_id file_id_empty_def,
      simp add: initialization_throws_def)

lemma module_calls_nonempty: "module_calls e \<noteq> []"
  by (simp add: module_calls_def)

lemma main_endings:
  "ending (main e) = Aborted \<longleftrightarrow> no_spreadsheet (initial_globals e)"
  "invoked (main e) = [] \<longleftrightarrow> no_spreadsheet (initial_globals e)"
  "ending (main e) = Uncaught ex \<longleftrightarrow>
     \<not> no_spreadsheet (initial_globals e)
     \<and> escaped (auditPerformanceMetrics (ads e)) = Some ex"
  "ending (main e) = Completed \<longleftrightarrow>
     \<not> no_spreadsheet (initial_globals e)
     \<and> escaped (auditPerformanceMetrics (ads e)) = None"
proof -
  consider (aborted) "no_spreadsheet (initial_globals e)"
    | (completed) "\<not> no_spreadsheet (initial_globals e)"
        "escaped (auditPerformanceMetrics (ads e)) = None"
    | (uncaught) ex' where "\<not> no_spreadsheet (initial_globals e)"
        "escaped (auditPerformanceMetrics (ads e)) = Some ex'"
    by (cases "escaped (auditPerformanceMetrics (ads e))") auto
  then have "(ending (main e) = Aborted \<longleftrightarrow> no_spreadsheet (initial_globals e))
    \<and> (invoked (main e) = [] \<longleftrightarrow> no_spreadsheet (initial_globals e))
    \<and> (ending (main e) = Uncaught ex \<longleftrightarrow>
         \<not> no_spreadsheet (initial_globals e)
         \<and> escaped (auditPerformanceMetrics (ads e)) = Some ex)
    \<and> (ending (main e) = Completed \<longleftrightarrow>
         \<not> no_spreadsheet (initial_globals e)
         \<and> escaped (auditPerformanceMetrics (ads e)) = None)"
  proof cases
    case aborted
    then show ?thesis by (simp add: main_aborted)
  next
    case completed
    then show ?thesis
      using main_completed(1,2) [OF completed] by (simp add: module_calls_nonempty)
  next
    case uncaught
    then show ?thesis
      using main_uncaught(1,2) [OF uncaught] by (simp add: entered_up_to_performance_def)
  qed
  then show "ending (main e) = Aborted \<longleftrightarrow> no_spreadsheet (initial_globals e)"
    "invoked (main e) = [] \<longleftrightarrow> no_spreadsheet (initial_globals e)"
    "ending (main e) = Uncaught ex \<longleftrightarrow>
       \<not> no_spreadsheet (initial_globals e)
       \<and> escaped (auditPerformanceMetrics (ads e)) = Some ex"
    "ending (main e) = Completed \<longleftrightarrow>
       \<not> no_spreadsheet (initial_globals e)
       \<and> escaped (auditPerformanceMetrics (ads e)) = None"
    by blast+
qed

lemma main_cut_short:
  assumes "\<not> no_spreadsheet (initial_globals e)"
    and "escaped (auditPerformanceMetrics (ads e)) \<noteq> None"
  shows "invoked (main e) = entered_up_to_performance"
    and "sheets_after (main e) = initial_sheets e"
proof -
  from assms(2) obtain ex where "escaped (auditPerformanceMetrics (ads e)) = Some ex"
    by auto
  from main_uncaught(2,3) [OF assms(1) this]
  show "invoked (main e) = entered_up_to_performance"
    "sheets_after (main e) = initial_sheets e"
    by simp_all
qed

text \<open>
  Claim C6. \<open>initializeSpreadsheet\<close> leaves \<open>SPREADSHEET_ID\<close> at \<open>null\<close> exactly
  when it reaches its \<open>catch\<close>; \<open>main\<close> returns before the first module exactly when
  the id is \<open>null\<close> or empty, and then no module is entered. But this is not the only
  way a run is cut short: \<open>main\<close> ends with an uncaught exception exactly when the
  spreadsheet is initialised and the account statistics deliver \<open>null\<close> as average
  cost per click; then \<open>auditPerformanceMetrics\<close> is the last function entered and
  the report is not written. In every other run \<open>main\<close> completes.
\<close>

theorem C6_run_endings:
  "(initialization_throws (services e) \<longleftrightarrow> SPREADSHEET_ID (initial_globals e) = None)
   \<and> (no_spreadsheet (initial_globals e) \<longleftrightarrow>
        initialization_throws (services e) \<or> file_id_empty (services e))
   \<and> (ending (main e) = Aborted \<longleftrightarrow> no_spreadsheet (initial_globals e))
   \<and> (invoked (main e) = [] \<longleftrightarrow> no_spreadsheet (initial_globals e))
   \<and> (ending (main e) = Uncaught ex \<longleftrightarrow>
        \<not> no_spreadsheet (initial_globals e)
        \<and> escaped (auditPerformanceMetrics (ads e)) = Some ex)
   \<and> (ending (main e) = Completed \<longleftrightarrow>
        \<not> no_spreadsheet (initial_globals e)
        \<and> escaped (auditPerformanceMetrics (ads e)) = None)
   \<and> (escaped (auditPerformanceMetrics (ads e)) \<noteq> None \<longleftrightarrow>
        (\<exists>st. getStatsFor (ads e) = Returns (Some st) \<and> getAverageCpc st = Returns None))
   \<and> (\<not> no_spreadsheet (initial_globals e)
        \<and> escaped (auditPerformanceMetrics (ads e)) \<noteq> None \<longrightarrow>
        invoked (main e) = entered_up_to_performance
        \<and> sheets_after (main e) = initial_sheets e)"
  using initialization_throws_iff [of e] no_spreadsheet_iff [of e] main_endings(1,2) [of e]
    main_endings(3) [of e ex] main_endings(4) [of e]
    auditPerformanceMetrics_escaped [of "ads e"] main_cut_short [of e]
  by blast

theorem C6_witness:
  "\<not> initialization_throws (services example_null_cpc_env)
   \<and> \<not> no_spreadsheet (initial_globals example_null_cpc_env)
   \<and> getStatsFor (ads example_null_cpc_env) = Returns (Some example_null_cpc_stats)
   \<and> getAverageCpc example_null_cpc_stats = Returns None
   \<and> escaped (auditPerformanceMetrics (ads example_null_cpc_env)) \<noteq> None
   \<and> ending (main example_null_cpc_env) \<noteq> Aborted
   \<and> ending (main example_null_cpc_env) \<noteq> Completed
   \<and> invoked (main example_null_cpc_env) = entered_up_to_performance
   \<and> sheets_after (main example_null_cpc_env) = initial_sheets example_null_cpc_env"
  using C6_run_endings [of example_null_cpc_env] example_null_cpc_init example_null_cpc_sel(1,2)
  by blast


end
